theory Spec2Isabelle
  imports Main "HOL-Library.Word" "HOL-Library.Signed_Division" "HOL-Library.Sublist"
begin

section \<open>The SignalFx metrics converter (translation/converter.go)\<close>

text \<open>
  A shallow embedding of \<^verbatim>\<open>exporter/signalfxexporter/translation/converter.go\<close>.
  The converter turns one \<^verbatim>\<open>pdata.ResourceMetrics\<close> into a list of SignalFx data points.
  Dimensions are handled through pointers (\<^verbatim>\<open>[]*sfxpb.Dimension\<close>) and the key
  sanitizer writes through those pointers, so the dimension objects and the backing arrays
  of the pointer slices live in an explicit store that every function takes and returns.
\<close>

subsection \<open>Strings, numbers and what the libraries provide\<close>

text \<open>
  A Go string is modelled as the sequence of runes (code points) that \<^verbatim>\<open>strings.Map\<close>
  and \<^verbatim>\<open>range\<close> iterate over. \<open>gostr\<close> turns a literal of the source into that form.
\<close>

type_synonym rune = nat
type_synonym gostring = "rune list"

definition gostr :: "string \<Rightarrow> gostring" where
  "gostr s = map of_char s"

type_synonym int64 = "64 word"
type_synonym uint64 = "64 word"

text \<open>
  A \<^verbatim>\<open>float64\<close> is its IEEE-754 bit pattern. The converter never computes with
  floating-point numbers: it stores them and formats them.
\<close>

datatype float64 = Float64frombits "64 word"

definition math_Inf1 :: float64 where
  \<comment> \<open>\<^verbatim>\<open>math.Inf(1)\<close>\<close>
  "math_Inf1 = Float64frombits 0x7FF0000000000000"

datatype AttributeValue =
    AttrString gostring
  | AttrBool bool
  | AttrInt int64
  | AttrDouble float64

text \<open>
  What the converter calls in libraries outside this package, taken as parameters:
  the Unicode tables beyond ASCII, \<^verbatim>\<open>strconv.FormatFloat(f, 'g', -1, 64)\<close>,
  \<^verbatim>\<open>tracetranslator.AttributeValueToString(val, false)\<close> and the capacity the runtime
  picks when \<^verbatim>\<open>append\<close> has to reallocate (old capacity and needed length given).
\<close>

record lib =
  letterTable :: "rune \<Rightarrow> bool"
  digitTable :: "rune \<Rightarrow> bool"
  FormatFloat :: "float64 \<Rightarrow> gostring"
  AttributeValueToString :: "AttributeValue \<Rightarrow> gostring"
  growslice :: "nat \<Rightarrow> nat \<Rightarrow> nat"

definition unicode_IsLetter :: "lib \<Rightarrow> rune \<Rightarrow> bool" where
  "unicode_IsLetter L r =
     (if r < 128 then (65 \<le> r \<and> r \<le> 90) \<or> (97 \<le> r \<and> r \<le> 122) else letterTable L r)"

definition unicode_IsDigit :: "lib \<Rightarrow> rune \<Rightarrow> bool" where
  "unicode_IsDigit L r = (if r < 128 then 48 \<le> r \<and> r \<le> 57 else digitTable L r)"

subsection \<open>Key sanitization: the pure part\<close>

definition filterMap :: "lib \<Rightarrow> rune \<Rightarrow> rune" where
  "filterMap L r =
     (if unicode_IsLetter L r \<or> unicode_IsDigit L r \<or> r = of_char (CHR ''_'') \<or> r = of_char (CHR ''-'')
      then r else of_char (CHR ''_''))"

definition filterKeyChars :: "lib \<Rightarrow> gostring \<Rightarrow> gostring" where
  \<comment> \<open>\<^verbatim>\<open>strings.Map(filterMap, str)\<close>; \<open>filterMap\<close> never returns a negative rune, so no
      character is dropped\<close>
  "filterKeyChars L str = map (filterMap L) str"

definition float64ToDimValue :: "lib \<Rightarrow> float64 \<Rightarrow> gostring" where
  "float64ToDimValue L f = FormatFloat L f"

definition upperBoundDimensionKey :: gostring where
  "upperBoundDimensionKey = gostr ''upper_bound''"

definition infinityBoundSFxDimValue :: "lib \<Rightarrow> gostring" where
  "infinityBoundSFxDimValue L = float64ToDimValue L math_Inf1"

definition timestampToSignalFx :: "uint64 \<Rightarrow> int64" where
  \<comment> \<open>\<^verbatim>\<open>int64(ts) / 1e6\<close>: the signed reading of the same bits, divided with truncation
      towards zero\<close>
  "timestampToSignalFx ts = word_of_int (sint ts sdiv 1000000)"

text \<open>The character class \<^verbatim>\<open>[A-Za-z0-9_-]\<close> and the regular expression \<^verbatim>\<open>[A-Za-z0-9_-]+\<close>.\<close>

definition keyChar :: "rune \<Rightarrow> bool" where
  "keyChar r = ((65 \<le> r \<and> r \<le> 90) \<or> (97 \<le> r \<and> r \<le> 122) \<or> (48 \<le> r \<and> r \<le> 57)
                \<or> r = 95 \<or> r = 45)"

definition matchesKeyRegex :: "gostring \<Rightarrow> bool" where
  "matchesKeyRegex s = (s \<noteq> [] \<and> list_all keyChar s)"

definition isASCII :: "gostring \<Rightarrow> bool" where
  "isASCII s = list_all (\<lambda>r. r < 128) s"

subsection \<open>The input: pdata metrics\<close>

text \<open>
  \<^verbatim>\<open>pdata.AttributeMap\<close> and \<^verbatim>\<open>pdata.StringMap\<close> are slices of key-value pairs:
  \<^verbatim>\<open>Get\<close> returns the first entry with the key, \<^verbatim>\<open>ForEach\<close> visits the entries in order,
  \<^verbatim>\<open>Len\<close> counts them. Slices of pdata objects may hold nil entries (\<^verbatim>\<open>IsNil\<close>), which
  are \<open>None\<close> here.
\<close>

type_synonym AttributeMap = "(gostring \<times> AttributeValue) list"
type_synonym StringMap = "(gostring \<times> gostring) list"

datatype AggregationTemporality =
    AggregationTemporalityUnspecified
  | AggregationTemporalityDelta
  | AggregationTemporalityCumulative

record 'v NumberDataPoint =
  dpTimestamp :: uint64
  dpLabelsMap :: StringMap
  dpValue :: 'v

record 'v HistogramDataPoint =
  hTimestamp :: uint64
  hLabelsMap :: StringMap
  hCount :: uint64
  hSum :: 'v
  hExplicitBounds :: "float64 list"
  hBucketCounts :: "uint64 list"

text \<open>
  The data of a metric, by data type; a Sum carries \<^verbatim>\<open>IsMonotonic\<close> and
  \<^verbatim>\<open>AggregationTemporality\<close>, a Histogram \<^verbatim>\<open>AggregationTemporality\<close>.
\<close>

datatype MetricData =
    MetricDataNone
  | IntGauge "int64 NumberDataPoint option list"
  | IntSum bool AggregationTemporality "int64 NumberDataPoint option list"
  | DoubleGauge "float64 NumberDataPoint option list"
  | DoubleSum bool AggregationTemporality "float64 NumberDataPoint option list"
  | IntHistogram AggregationTemporality "int64 HistogramDataPoint option list"
  | DoubleHistogram AggregationTemporality "float64 HistogramDataPoint option list"

record Metric =
  Name :: gostring
  Data :: MetricData

record ResourceMetrics =
  ResourceAttributes :: AttributeMap
  InstrumentationLibraryMetrics :: "Metric option list option list"

subsection \<open>The output: SignalFx data points, and the store\<close>

datatype MetricType = GAUGE | COUNTER | ENUM | CUMULATIVE_COUNTER

record Datum =
  StrValue :: "gostring option"
  DoubleValue :: "float64 option"
  IntValue :: "int64 option"

record Dimension =
  Key :: gostring
  Value :: gostring

text \<open>
  A pointer to a \<^verbatim>\<open>Dimension\<close> is an address in the store; a nil pointer is \<open>None\<close>.
  A slice \<^verbatim>\<open>[]*sfxpb.Dimension\<close> is Go's slice header: the backing array (an address in
  the store), the length and the capacity. The nil slice has length and capacity 0.
\<close>

type_synonym ptr = nat

record slice =
  sarr :: nat
  slen :: nat
  scap :: nat

text \<open>
  \<^verbatim>\<open>sfxpb.DataPoint\<close>. The field \<^verbatim>\<open>Value\<close> is \<open>PointValue\<close> here. Every data point the
  converter returns is a fresh copy of the base point behind its own pointer and is never
  written again, so the output \<^verbatim>\<open>[]*sfxpb.DataPoint\<close> is a list of values. A
  \<^verbatim>\<open>*MetricType\<close> points to one of three package variables that are never assigned.
  The field \<^verbatim>\<open>Source\<close>, which the converter never sets, is left out.
\<close>

record DataPoint =
  Metric :: gostring
  Timestamp :: int64
  PointValue :: Datum
  MetricType :: "MetricType option"
  Dimensions :: slice

text \<open>
  The store: the \<^verbatim>\<open>Dimension\<close> objects and the backing arrays of dimension-pointer
  slices. An address is an index; allocation appends. A backing array is as long as its
  capacity; \<^verbatim>\<open>make\<close> fills it with nil.
\<close>

record heap =
  dimObjs :: "Dimension list"
  ptrArrays :: "ptr option list list"

definition nilSlice :: slice where
  "nilSlice = \<lparr>sarr = 0, slen = 0, scap = 0\<rparr>"

definition arrayAt :: "heap \<Rightarrow> nat \<Rightarrow> ptr option list" where
  "arrayAt h a = (if a < length (ptrArrays h) then ptrArrays h ! a else [])"

definition sliceElems :: "heap \<Rightarrow> slice \<Rightarrow> ptr option list" where
  \<comment> \<open>the pointers a \<^verbatim>\<open>range\<close> over the slice visits\<close>
  "sliceElems h s = take (slen s) (arrayAt h (sarr s))"

definition newDimension :: "Dimension \<Rightarrow> heap \<Rightarrow> ptr \<times> heap" where
  \<comment> \<open>\<^verbatim>\<open>&sfxpb.Dimension{Key: ..., Value: ...}\<close>\<close>
  "newDimension d h = (length (dimObjs h), h\<lparr>dimObjs := dimObjs h @ [d]\<rparr>)"

definition makeDimensions :: "nat \<Rightarrow> heap \<Rightarrow> ptr \<times> heap" where
  \<comment> \<open>\<^verbatim>\<open>make([]sfxpb.Dimension, n)\<close>: n zero values in a row; the address of the first\<close>
  "makeDimensions n h =
     (length (dimObjs h), h\<lparr>dimObjs := dimObjs h @ replicate n \<lparr>Key = [], Value = []\<rparr>\<rparr>)"

definition makeSlice :: "nat \<Rightarrow> nat \<Rightarrow> heap \<Rightarrow> slice \<times> heap" where
  \<comment> \<open>\<^verbatim>\<open>make([]*sfxpb.Dimension, n, c)\<close>, called with \<open>n \<le> c\<close> only\<close>
  "makeSlice n c h =
     (\<lparr>sarr = length (ptrArrays h), slen = n, scap = c\<rparr>,
      h\<lparr>ptrArrays := ptrArrays h @ [replicate c None]\<rparr>)"

definition copySlice :: "slice \<Rightarrow> slice \<Rightarrow> heap \<Rightarrow> heap" where
  \<comment> \<open>\<^verbatim>\<open>copy(dst, src)\<close>: the first \<open>min (len dst) (len src)\<close> elements\<close>
  "copySlice dst src h =
     (let n = min (slen dst) (slen src)
      in h\<lparr>ptrArrays := (ptrArrays h)
              [sarr dst := take n (arrayAt h (sarr src)) @ drop n (arrayAt h (sarr dst))]\<rparr>)"

definition appendSlice :: "lib \<Rightarrow> slice \<Rightarrow> ptr \<Rightarrow> heap \<Rightarrow> slice \<times> heap" where
  \<comment> \<open>\<^verbatim>\<open>append(s, p)\<close>: in place when the capacity allows, else into a new array that
      starts with the elements of \<open>s\<close>\<close>
  "appendSlice L s p h =
     (if slen s < scap s then
        (s\<lparr>slen := slen s + 1\<rparr>,
         h\<lparr>ptrArrays := (ptrArrays h)[sarr s := (arrayAt h (sarr s))[slen s := Some p]]\<rparr>)
      else
        (let newcap = max (slen s + 1) (growslice L (scap s) (slen s + 1))
         in (\<lparr>sarr = length (ptrArrays h), slen = slen s + 1, scap = newcap\<rparr>,
             h\<lparr>ptrArrays := ptrArrays h
                  @ [sliceElems h s @ Some p # replicate (newcap - (slen s + 1)) None]\<rparr>)))"

text \<open>What a reader of the slice sees: the dimensions behind its pointers.\<close>

definition loadDim :: "heap \<Rightarrow> ptr option \<Rightarrow> Dimension option" where
  "loadDim h d =
     (case d of None \<Rightarrow> None
      | Some p \<Rightarrow> if p < length (dimObjs h) then Some (dimObjs h ! p) else None)"

definition sliceDims :: "heap \<Rightarrow> slice \<Rightarrow> Dimension option list" where
  "sliceDims h s = map (loadDim h) (sliceElems h s)"

subsection \<open>Dimensions of a data point\<close>

fun labelsForEach :: "lib \<Rightarrow> StringMap \<Rightarrow> ptr \<Rightarrow> nat \<Rightarrow> slice \<Rightarrow> heap \<Rightarrow> slice \<times> heap" where
  "labelsForEach L [] dimensionsValue pos dimensions h = (dimensions, h)"
| "labelsForEach L ((k, v) # labels) dimensionsValue pos dimensions h =
     (let h1 = h\<lparr>dimObjs := (dimObjs h)[dimensionsValue + pos := \<lparr>Key = k, Value = v\<rparr>]\<rparr>;
          (dimensions', h2) = appendSlice L dimensions (dimensionsValue + pos) h1
      in labelsForEach L labels dimensionsValue (pos + 1) dimensions' h2)"

definition labelsToDimensions :: "lib \<Rightarrow> StringMap \<Rightarrow> slice \<Rightarrow> heap \<Rightarrow> slice \<times> heap" where
  "labelsToDimensions L labels extraDims h =
     (let (dimensions, h1) = makeSlice (slen extraDims) (length labels + slen extraDims) h;
          h2 = copySlice dimensions extraDims h1
      in if length labels = 0 then (dimensions, h2)
         else (let (dimensionsValue, h3) = makeDimensions (length labels) h2
               in labelsForEach L labels dimensionsValue 0 dimensions h3))"

subsection \<open>Gauge and Sum data points\<close>

fun convertIntDatapoints ::
  "lib \<Rightarrow> int64 NumberDataPoint option list \<Rightarrow> DataPoint \<Rightarrow> slice \<Rightarrow> heap \<Rightarrow> DataPoint list \<times> heap" where
  "convertIntDatapoints L [] basePoint extraDims h = ([], h)"
| "convertIntDatapoints L (None # rest) basePoint extraDims h =
     convertIntDatapoints L rest basePoint extraDims h"
| "convertIntDatapoints L (Some inDp # rest) basePoint extraDims h =
     (let (dimensions, h1) = labelsToDimensions L (dpLabelsMap inDp) extraDims h;
          dp = basePoint\<lparr>Timestamp := timestampToSignalFx (dpTimestamp inDp),
                         Dimensions := dimensions,
                         PointValue := (PointValue basePoint)\<lparr>IntValue := Some (dpValue inDp)\<rparr>\<rparr>;
          (out, h2) = convertIntDatapoints L rest basePoint extraDims h1
      in (dp # out, h2))"

fun convertDoubleDatapoints ::
  "lib \<Rightarrow> float64 NumberDataPoint option list \<Rightarrow> DataPoint \<Rightarrow> slice \<Rightarrow> heap \<Rightarrow> DataPoint list \<times> heap" where
  "convertDoubleDatapoints L [] basePoint extraDims h = ([], h)"
| "convertDoubleDatapoints L (None # rest) basePoint extraDims h =
     convertDoubleDatapoints L rest basePoint extraDims h"
| "convertDoubleDatapoints L (Some inDp # rest) basePoint extraDims h =
     (let (dimensions, h1) = labelsToDimensions L (dpLabelsMap inDp) extraDims h;
          dp = basePoint\<lparr>Timestamp := timestampToSignalFx (dpTimestamp inDp),
                         Dimensions := dimensions,
                         PointValue := (PointValue basePoint)\<lparr>DoubleValue := Some (dpValue inDp)\<rparr>\<rparr>;
          (out, h2) = convertDoubleDatapoints L rest basePoint extraDims h1
      in (dp # out, h2))"

subsection \<open>The metric type\<close>

definition fromMetricDataTypeToMetricType :: "Metric \<Rightarrow> MetricType option" where
  "fromMetricDataTypeToMetricType metric =
     (case Data metric of
        IntGauge dps \<Rightarrow> Some GAUGE
      | DoubleGauge dps \<Rightarrow> Some GAUGE
      | IntSum isMonotonic temporality dps \<Rightarrow>
          if \<not> isMonotonic then Some GAUGE
          else if temporality = AggregationTemporalityDelta then Some COUNTER
          else Some CUMULATIVE_COUNTER
      | DoubleSum isMonotonic temporality dps \<Rightarrow>
          if \<not> isMonotonic then Some GAUGE
          else if temporality = AggregationTemporalityDelta then Some COUNTER
          else Some CUMULATIVE_COUNTER
      | IntHistogram temporality dps \<Rightarrow>
          if temporality = AggregationTemporalityDelta then Some COUNTER
          else Some CUMULATIVE_COUNTER
      | DoubleHistogram temporality dps \<Rightarrow>
          if temporality = AggregationTemporalityDelta then Some COUNTER
          else Some CUMULATIVE_COUNTER
      | MetricDataNone \<Rightarrow> None)"

definition makeBaseDataPoint :: "Metric \<Rightarrow> DataPoint" where
  "makeBaseDataPoint m =
     \<lparr>Metric = Name m, Timestamp = 0,
      PointValue = \<lparr>StrValue = None, DoubleValue = None, IntValue = None\<rparr>,
      MetricType = fromMetricDataTypeToMetricType m, Dimensions = nilSlice\<rparr>"

subsection \<open>Histogram data points\<close>

text \<open>
  The loop \<^verbatim>\<open>for j, c := range counts\<close>, which has the same text in
  \<^verbatim>\<open>convertIntHistogram\<close> and \<^verbatim>\<open>convertDoubleHistogram\<close>; \<open>j\<close> is the index of the
  first of the remaining counts. \<^verbatim>\<open>int64(c)\<close> keeps the 64 bits of \<open>c\<close>.
\<close>

fun histogramBuckets ::
  "lib \<Rightarrow> nat \<Rightarrow> uint64 list \<Rightarrow> float64 list \<Rightarrow> StringMap \<Rightarrow> DataPoint \<Rightarrow> int64 \<Rightarrow> slice \<Rightarrow> heap
   \<Rightarrow> DataPoint list \<times> heap" where
  "histogramBuckets L j [] bounds labels basePoint ts extraDims h = ([], h)"
| "histogramBuckets L j (c # counts) bounds labels basePoint ts extraDims h =
     (let bound = (if j < length bounds then float64ToDimValue L (bounds ! j)
                   else infinityBoundSFxDimValue L);
          (dimensions, h1) = labelsToDimensions L labels extraDims h;
          (d, h2) = newDimension \<lparr>Key = upperBoundDimensionKey, Value = bound\<rparr> h1;
          (dimensions', h3) = appendSlice L dimensions d h2;
          dp = basePoint\<lparr>Metric := Metric basePoint @ gostr ''_bucket'',
                         Timestamp := ts,
                         Dimensions := dimensions',
                         PointValue := (PointValue basePoint)\<lparr>IntValue := Some c\<rparr>\<rparr>;
          (out, h4) = histogramBuckets L (j + 1) counts bounds labels basePoint ts extraDims h3
      in (dp # out, h4))"

fun convertIntHistogram ::
  "lib \<Rightarrow> int64 HistogramDataPoint option list \<Rightarrow> DataPoint \<Rightarrow> slice \<Rightarrow> heap \<Rightarrow> DataPoint list \<times> heap" where
  "convertIntHistogram L [] basePoint extraDims h = ([], h)"
| "convertIntHistogram L (None # rest) basePoint extraDims h =
     convertIntHistogram L rest basePoint extraDims h"
| "convertIntHistogram L (Some histDP # rest) basePoint extraDims h =
     (let ts = timestampToSignalFx (hTimestamp histDP);
          (countDims, h1) = labelsToDimensions L (hLabelsMap histDP) extraDims h;
          countDP = basePoint\<lparr>Metric := Metric basePoint @ gostr ''_count'',
                              Timestamp := ts,
                              Dimensions := countDims,
                              PointValue := (PointValue basePoint)\<lparr>IntValue := Some (hCount histDP)\<rparr>\<rparr>;
          (sumDims, h2) = labelsToDimensions L (hLabelsMap histDP) extraDims h1;
          sumDP = basePoint\<lparr>Timestamp := ts,
                            Dimensions := sumDims,
                            PointValue := (PointValue basePoint)\<lparr>IntValue := Some (hSum histDP)\<rparr>\<rparr>;
          bounds = hExplicitBounds histDP;
          counts = hBucketCounts histDP;
          (buckets, h3) =
            (if length counts > 0 \<and> length counts \<noteq> length bounds + 1 then ([], h2)
             else histogramBuckets L 0 counts bounds (hLabelsMap histDP) basePoint ts extraDims h2);
          (out, h4) = convertIntHistogram L rest basePoint extraDims h3
      in (countDP # sumDP # buckets @ out, h4))"

fun convertDoubleHistogram ::
  "lib \<Rightarrow> float64 HistogramDataPoint option list \<Rightarrow> DataPoint \<Rightarrow> slice \<Rightarrow> heap \<Rightarrow> DataPoint list \<times> heap" where
  "convertDoubleHistogram L [] basePoint extraDims h = ([], h)"
| "convertDoubleHistogram L (None # rest) basePoint extraDims h =
     convertDoubleHistogram L rest basePoint extraDims h"
| "convertDoubleHistogram L (Some histDP # rest) basePoint extraDims h =
     (let ts = timestampToSignalFx (hTimestamp histDP);
          (countDims, h1) = labelsToDimensions L (hLabelsMap histDP) extraDims h;
          countDP = basePoint\<lparr>Metric := Metric basePoint @ gostr ''_count'',
                              Timestamp := ts,
                              Dimensions := countDims,
                              PointValue := (PointValue basePoint)\<lparr>IntValue := Some (hCount histDP)\<rparr>\<rparr>;
          (sumDims, h2) = labelsToDimensions L (hLabelsMap histDP) extraDims h1;
          sumDP = basePoint\<lparr>Timestamp := ts,
                            Dimensions := sumDims,
                            PointValue := (PointValue basePoint)\<lparr>DoubleValue := Some (hSum histDP)\<rparr>\<rparr>;
          bounds = hExplicitBounds histDP;
          counts = hBucketCounts histDP;
          (buckets, h3) =
            (if length counts > 0 \<and> length counts \<noteq> length bounds + 1 then ([], h2)
             else histogramBuckets L 0 counts bounds (hLabelsMap histDP) basePoint ts extraDims h2);
          (out, h4) = convertDoubleHistogram L rest basePoint extraDims h3
      in (countDP # sumDP # buckets @ out, h4))"

subsection \<open>Dimensions of the resource\<close>

text \<open>
  The attribute keys of \<^verbatim>\<open>translator/conventions\<close> and the token label of
  \<^verbatim>\<open>internal/splunk\<close>, neither of which is defined in converter.go.
\<close>

definition AttributeCloudAccount :: gostring where
  "AttributeCloudAccount = gostr ''cloud.account.id''"

definition AttributeCloudRegion :: gostring where
  "AttributeCloudRegion = gostr ''cloud.region''"

definition AttributeHostID :: gostring where
  "AttributeHostID = gostr ''host.id''"

definition AttributeCloudProvider :: gostring where
  "AttributeCloudProvider = gostr ''cloud.provider''"

definition AttributeCloudProviderAWS :: gostring where
  "AttributeCloudProviderAWS = gostr ''aws''"

definition AttributeCloudProviderGCP :: gostring where
  "AttributeCloudProviderGCP = gostr ''gcp''"

definition SFxAccessTokenLabel :: gostring where
  \<comment> \<open>Modelled from the spec: the reserved access-token key, a constant of internal/splunk\<close>
  "SFxAccessTokenLabel = gostr ''com.splunk.signalfx.access_token''"

definition StringVal :: "AttributeValue \<Rightarrow> gostring" where
  \<comment> \<open>\<^verbatim>\<open>AttributeValue.StringVal\<close>: the empty string for a value of another type\<close>
  "StringVal a = (case a of AttrString s \<Rightarrow> s | _ \<Rightarrow> [])"

definition getStringAttr :: "AttributeMap \<Rightarrow> gostring \<Rightarrow> gostring" where
  "getStringAttr attrs key = (case map_of attrs key of Some a \<Rightarrow> StringVal a | None \<Rightarrow> [])"

text \<open>The closure passed to \<^verbatim>\<open>resourceAttr.ForEach\<close>, run over the entries in order.\<close>

fun attributesForEach ::
  "lib \<Rightarrow> (gostring \<Rightarrow> bool) \<Rightarrow> AttributeMap \<Rightarrow> slice \<Rightarrow> heap \<Rightarrow> slice \<times> heap" where
  "attributesForEach L keep [] dims h = (dims, h)"
| "attributesForEach L keep ((k, val) # rest) dims h =
     (if k = SFxAccessTokenLabel then attributesForEach L keep rest dims h
      else if \<not> keep k then attributesForEach L keep rest dims h
      else (let (d, h1) = newDimension \<lparr>Key = k, Value = AttributeValueToString L val\<rparr> h;
                (dims', h2) = appendSlice L dims d h1
            in attributesForEach L keep rest dims' h2))"

text \<open>
  The \<^verbatim>\<open>switch provider\<close>: the filter on attribute keys, and \<open>dims\<close> with the synthesized
  cloud dimension, if any.
\<close>

definition cloudDimension ::
  "lib \<Rightarrow> AttributeMap \<Rightarrow> heap \<Rightarrow> (gostring \<Rightarrow> bool) \<times> slice \<times> heap" where
  "cloudDimension L resourceAttr h =
     (let accountID = getStringAttr resourceAttr AttributeCloudAccount;
          region = getStringAttr resourceAttr AttributeCloudRegion;
          instanceID = getStringAttr resourceAttr AttributeHostID;
          provider = getStringAttr resourceAttr AttributeCloudProvider
      in if provider = AttributeCloudProviderAWS then
           (if instanceID = [] \<or> region = [] \<or> accountID = [] then ((\<lambda>k. True), nilSlice, h)
            else (let (d, h1) = newDimension
                        \<lparr>Key = gostr ''AWSUniqueId'',
                         Value = instanceID @ gostr ''_'' @ region @ gostr ''_'' @ accountID\<rparr> h;
                      (dims, h2) = appendSlice L nilSlice d h1
                  in ((\<lambda>k. k \<noteq> AttributeCloudAccount \<and> k \<noteq> AttributeCloudRegion
                            \<and> k \<noteq> AttributeHostID \<and> k \<noteq> AttributeCloudProvider), dims, h2)))
         else if provider = AttributeCloudProviderGCP then
           (if accountID = [] \<or> instanceID = [] then ((\<lambda>k. True), nilSlice, h)
            else (let (d, h1) = newDimension
                        \<lparr>Key = gostr ''gcp_id'',
                         Value = accountID @ gostr ''_'' @ instanceID\<rparr> h;
                      (dims, h2) = appendSlice L nilSlice d h1
                  in ((\<lambda>k. k \<noteq> AttributeCloudAccount \<and> k \<noteq> AttributeHostID
                            \<and> k \<noteq> AttributeCloudProvider), dims, h2)))
         else ((\<lambda>k. True), nilSlice, h))"

definition resourceAttributesToDimensions :: "lib \<Rightarrow> AttributeMap \<Rightarrow> heap \<Rightarrow> slice \<times> heap" where
  "resourceAttributesToDimensions L resourceAttr h =
     (let (keep, dims, h1) = cloudDimension L resourceAttr h
      in attributesForEach L keep resourceAttr dims h1)"

subsection \<open>The key sanitizer on the store\<close>

text \<open>
  \<^verbatim>\<open>d.Key = filterKeyChars(d.Key)\<close> for every pointer \<open>d\<close> of every data point. Writing
  through a nil pointer panics: the result is \<open>None\<close>.
\<close>

fun sanitizeDimensions :: "lib \<Rightarrow> ptr option list \<Rightarrow> heap \<Rightarrow> heap option" where
  "sanitizeDimensions L [] h = Some h"
| "sanitizeDimensions L (d # ds) h =
     (case d of
        None \<Rightarrow> None
      | Some p \<Rightarrow>
          if p < length (dimObjs h) then
            sanitizeDimensions L ds
              (h\<lparr>dimObjs := (dimObjs h)[p := (dimObjs h ! p)\<lparr>Key := filterKeyChars L (Key (dimObjs h ! p))\<rparr>]\<rparr>)
          else None)"

fun sanitizeDataPointDimensions :: "lib \<Rightarrow> DataPoint list \<Rightarrow> heap \<Rightarrow> heap option" where
  "sanitizeDataPointDimensions L [] h = Some h"
| "sanitizeDataPointDimensions L (dp # dps) h =
     (case sanitizeDimensions L (sliceElems h (Dimensions dp)) h of
        None \<Rightarrow> None
      | Some h1 \<Rightarrow> sanitizeDataPointDimensions L dps h1)"

subsection \<open>The converter\<close>

text \<open>
  \<^verbatim>\<open>MetricTranslator.TranslateDataPoints\<close> is not part of converter.go: a translator is any
  function from data points and store to data points and store. The logger of the
  converter has no effect on the result and is left out.
\<close>

type_synonym MetricTranslator = "DataPoint list \<Rightarrow> heap \<Rightarrow> DataPoint list \<times> heap"

record MetricsConverter =
  metricTranslator :: "MetricTranslator option"

definition metricToSfxDataPoints ::
  "lib \<Rightarrow> MetricsConverter \<Rightarrow> Metric \<Rightarrow> slice \<Rightarrow> heap \<Rightarrow> DataPoint list \<times> heap" where
  "metricToSfxDataPoints L c metric extraDimensions h =
     (let basePoint = makeBaseDataPoint metric
      in case Data metric of
           MetricDataNone \<Rightarrow> ([], h)
         | _ \<Rightarrow>
           (let (dps, h1) =
                  (case Data metric of
                     IntGauge dataPoints \<Rightarrow> convertIntDatapoints L dataPoints basePoint extraDimensions h
                   | IntSum m t dataPoints \<Rightarrow> convertIntDatapoints L dataPoints basePoint extraDimensions h
                   | DoubleGauge dataPoints \<Rightarrow> convertDoubleDatapoints L dataPoints basePoint extraDimensions h
                   | DoubleSum m t dataPoints \<Rightarrow> convertDoubleDatapoints L dataPoints basePoint extraDimensions h
                   | IntHistogram t dataPoints \<Rightarrow> convertIntHistogram L dataPoints basePoint extraDimensions h
                   | DoubleHistogram t dataPoints \<Rightarrow> convertDoubleHistogram L dataPoints basePoint extraDimensions h
                   | MetricDataNone \<Rightarrow> ([], h))
            in case metricTranslator c of
                 None \<Rightarrow> (dps, h1)
               | Some t \<Rightarrow> t dps h1))"

text \<open>The loop over the metrics of one instrumentation library, and the loop over the libraries.\<close>

fun convertMetrics ::
  "lib \<Rightarrow> MetricsConverter \<Rightarrow> Metric option list \<Rightarrow> slice \<Rightarrow> heap \<Rightarrow> DataPoint list \<times> heap" where
  "convertMetrics L c [] extraDimensions h = ([], h)"
| "convertMetrics L c (None # ms) extraDimensions h = convertMetrics L c ms extraDimensions h"
| "convertMetrics L c (Some m # ms) extraDimensions h =
     (let (dps, h1) = metricToSfxDataPoints L c m extraDimensions h;
          (rest, h2) = convertMetrics L c ms extraDimensions h1
      in (dps @ rest, h2))"

fun convertLibraries ::
  "lib \<Rightarrow> MetricsConverter \<Rightarrow> Metric option list option list \<Rightarrow> slice \<Rightarrow> heap \<Rightarrow> DataPoint list \<times> heap" where
  "convertLibraries L c [] extraDimensions h = ([], h)"
| "convertLibraries L c (None # ilms) extraDimensions h = convertLibraries L c ilms extraDimensions h"
| "convertLibraries L c (Some ilm # ilms) extraDimensions h =
     (let (dps, h1) = convertMetrics L c ilm extraDimensions h;
          (rest, h2) = convertLibraries L c ilms extraDimensions h1
      in (dps @ rest, h2))"

definition MetricDataToSignalFxV2 ::
  "lib \<Rightarrow> MetricsConverter \<Rightarrow> ResourceMetrics \<Rightarrow> heap \<Rightarrow> (DataPoint list \<times> heap) option" where
  "MetricDataToSignalFxV2 L c rm h =
     (let (extraDimensions, h1) = resourceAttributesToDimensions L (ResourceAttributes rm) h;
          (sfxDatapoints, h2) =
             convertLibraries L c (InstrumentationLibraryMetrics rm) extraDimensions h1
      in case sanitizeDataPointDimensions L sfxDatapoints h2 of
           None \<Rightarrow> None
         | Some h3 \<Rightarrow> Some (sfxDatapoints, h3))"

subsection \<open>Reading the store: notions used to state the properties\<close>

text \<open>
  A slice is well formed in a store when its length is within its capacity, its backing
  array is allocated with at least that capacity, and none of its pointers dangles. Every
  slice of a running Go program is well formed; a nil pointer among its elements is allowed.
\<close>

definition wfSlice :: "heap \<Rightarrow> slice \<Rightarrow> bool" where
  "wfSlice h s = (slen s \<le> scap s \<and> scap s \<le> length (arrayAt h (sarr s))
                  \<and> list_all (\<lambda>e. case e of None \<Rightarrow> True | Some p \<Rightarrow> p < length (dimObjs h))
                        (sliceElems h s))"

text \<open>
  \<open>heapExt h h'\<close>: every \<^verbatim>\<open>Dimension\<close> object and every backing array of \<open>h\<close> is in \<open>h'\<close>
  at the same address with the same content; \<open>h'\<close> may hold more.
\<close>

definition heapExt :: "heap \<Rightarrow> heap \<Rightarrow> bool" where
  "heapExt h h' = (prefix (dimObjs h) (dimObjs h') \<and> prefix (ptrArrays h) (ptrArrays h'))"

definition labelDim :: "gostring \<times> gostring \<Rightarrow> Dimension" where
  \<comment> \<open>the dimension made from one label\<close>
  "labelDim kv = \<lparr>Key = fst kv, Value = snd kv\<rparr>"

definition attrDim :: "lib \<Rightarrow> gostring \<times> AttributeValue \<Rightarrow> Dimension" where
  \<comment> \<open>the dimension made from one resource attribute\<close>
  "attrDim L kv = \<lparr>Key = fst kv, Value = AttributeValueToString L (snd kv)\<rparr>"

definition sanitizeKey :: "lib \<Rightarrow> Dimension \<Rightarrow> Dimension" where
  "sanitizeKey L d = d\<lparr>Key := filterKeyChars L (Key d)\<rparr>"

fun nonNil :: "'a option list \<Rightarrow> 'a list" where
  "nonNil [] = []"
| "nonNil (None # xs) = nonNil xs"
| "nonNil (Some x # xs) = x # nonNil xs"

text \<open>
  \<open>pointIs h dp name ty ts val dims\<close>: the data point \<open>dp\<close> has this metric name, metric
  type, timestamp and value, and its dimension slice, read in the store \<open>h\<close>, is the
  sequence \<open>dims\<close>.
\<close>

definition pointIs ::
  "heap \<Rightarrow> DataPoint \<Rightarrow> gostring \<Rightarrow> MetricType option \<Rightarrow> int64 \<Rightarrow> Datum \<Rightarrow> Dimension option list \<Rightarrow> bool" where
  "pointIs h dp name ty ts val dims =
     (Metric dp = name \<and> MetricType dp = ty \<and> Timestamp dp = ts \<and> PointValue dp = val
      \<and> wfSlice h (Dimensions dp) \<and> sliceDims h (Dimensions dp) = dims)"

text \<open>
  \<open>pointsOver h extra dps\<close>: the dimension slice of every data point of \<open>dps\<close>, read in
  \<open>h\<close>, starts with the sequence \<open>extra\<close> and goes on with non-nil pointers only.
\<close>

definition pointsOver :: "heap \<Rightarrow> Dimension option list \<Rightarrow> DataPoint list \<Rightarrow> bool" where
  "pointsOver h extra dps =
     (\<forall>dp \<in> set dps. wfSlice h (Dimensions dp)
        \<and> (\<exists>ds. sliceDims h (Dimensions dp) = extra @ map Some ds))"

subsection \<open>Translation and sanitization: the order claimed and the order of the code\<close>

text \<open>
  Two descriptions of the whole conversion, to be compared with \<open>MetricDataToSignalFxV2\<close>:
  \<open>claimedPipeline\<close> sanitizes the assembled batch and hands it to the translator
  afterwards; \<open>amendedPipeline\<close> translates the points of each metric and sanitizes the
  concatenation. \<open>noTranslator\<close> is the converter made by \<^verbatim>\<open>NewMetricsConverter(logger, nil)\<close>.
\<close>

definition noTranslator :: MetricsConverter where
  "noTranslator = \<lparr>metricTranslator = None\<rparr>"

definition claimedPipeline ::
  "lib \<Rightarrow> MetricsConverter \<Rightarrow> ResourceMetrics \<Rightarrow> heap \<Rightarrow> (DataPoint list \<times> heap) option" where
  \<comment> \<open>the order the claim C3 states: assemble all points, sanitize every dimension key, then
      apply the Rule Translator to the batch\<close>
  "claimedPipeline L c rm h =
     (let (extraDimensions, h1) = resourceAttributesToDimensions L (ResourceAttributes rm) h;
          (points, h2) = convertLibraries L noTranslator
                            (InstrumentationLibraryMetrics rm) extraDimensions h1
      in case sanitizeDataPointDimensions L points h2 of
           None \<Rightarrow> None
         | Some h3 \<Rightarrow>
             (case metricTranslator c of
                None \<Rightarrow> Some (points, h3)
              | Some t \<Rightarrow> Some (t points h3)))"

fun convertThenTranslate ::
  "lib \<Rightarrow> MetricsConverter \<Rightarrow> Metric list \<Rightarrow> slice \<Rightarrow> heap \<Rightarrow> DataPoint list \<times> heap" where
  \<comment> \<open>the order the code has: metric by metric, convert the data points, then apply the
      Rule Translator, if any, to the points of that metric (a metric of no data type is
      skipped before the translator)\<close>
  "convertThenTranslate L c [] extraDimensions h = ([], h)"
| "convertThenTranslate L c (m # ms) extraDimensions h =
     (let (dps, h1) = metricToSfxDataPoints L noTranslator m extraDimensions h;
          (translated, h2) =
             (case metricTranslator c of
                None \<Rightarrow> (dps, h1)
              | Some t \<Rightarrow> if Data m = MetricDataNone then (dps, h1) else t dps h1);
          (rest, h3) = convertThenTranslate L c ms extraDimensions h2
      in (translated @ rest, h3))"

definition amendedPipeline ::
  "lib \<Rightarrow> MetricsConverter \<Rightarrow> ResourceMetrics \<Rightarrow> heap \<Rightarrow> (DataPoint list \<times> heap) option" where
  "amendedPipeline L c rm h =
     (let (extraDimensions, h1) = resourceAttributesToDimensions L (ResourceAttributes rm) h;
          (points, h2) = convertThenTranslate L c
                            (nonNil (concat (nonNil (InstrumentationLibraryMetrics rm))))
                            extraDimensions h1
      in case sanitizeDataPointDimensions L points h2 of
           None \<Rightarrow> None
         | Some h3 \<Rightarrow> Some (points, h3))"

subsection \<open>Concrete inputs\<close>

text \<open>A library instance, stores, resources and metrics on which the definitions are evaluated.\<close>

definition testLib :: lib where
  "testLib = \<lparr>letterTable = (\<lambda>r. r = 233), digitTable = (\<lambda>r. r = 1633),
              FormatFloat = (\<lambda>f. if f = math_Inf1 then gostr ''+Inf'' else gostr ''1''),
              AttributeValueToString = (\<lambda>v. case v of AttrString s \<Rightarrow> s | _ \<Rightarrow> gostr ''?''),
              growslice = (\<lambda>old needed. 2 * old)\<rparr>"


definition emptyHeap :: heap where
  "emptyHeap = \<lparr>dimObjs = [], ptrArrays = []\<rparr>"

definition sumMetric :: Metric where
  "sumMetric = \<lparr>Name = gostr ''requests_total'',
                Data = IntSum True AggregationTemporalityCumulative
                  [Some \<lparr>dpTimestamp = 1000000000, dpLabelsMap = [(gostr ''path'', gostr ''/a'')],
                         dpValue = 42\<rparr>]\<rparr>"

definition resourceHeap :: heap where
  "resourceHeap = \<lparr>dimObjs = [\<lparr>Key = gostr ''host.name'', Value = gostr ''h1''\<rparr>],
                   ptrArrays = [[Some 0, None]]\<rparr>"

definition resourceDims :: slice where
  "resourceDims = \<lparr>sarr = 0, slen = 1, scap = 2\<rparr>"

definition histPoint :: "float64 HistogramDataPoint" where
  "histPoint = \<lparr>hTimestamp = 5000000, hLabelsMap = [(gostr ''a.b'', gostr ''c'')], hCount = 3,
                hSum = Float64frombits 7, hExplicitBounds = [Float64frombits 1],
                hBucketCounts = [1, 2]\<rparr>"

definition histMetric :: Metric where
  "histMetric = \<lparr>Name = gostr ''m'', Data = DoubleHistogram AggregationTemporalityDelta [Some histPoint]\<rparr>"

definition awsAttrs :: AttributeMap where
  "awsAttrs = [(gostr ''cloud.provider'', AttrString (gostr ''aws'')),
               (gostr ''host.id'', AttrString (gostr ''i-1'')),
               (gostr ''k.x'', AttrString (gostr ''v'')),
               (gostr ''cloud.region'', AttrString (gostr ''us-east-1'')),
               (gostr ''com.splunk.signalfx.access_token'', AttrString (gostr ''tok'')),
               (gostr ''cloud.account.id'', AttrString (gostr ''111''))]"

definition gcpAttrs :: AttributeMap where
  "gcpAttrs = [(gostr ''cloud.provider'', AttrString (gostr ''gcp'')),
               (gostr ''host.id'', AttrString (gostr ''h1'')),
               (gostr ''cloud.region'', AttrString (gostr ''r1'')),
               (gostr ''com.splunk.signalfx.access_token'', AttrString (gostr ''tok'')),
               (gostr ''cloud.account.id'', AttrString (gostr ''acc1''))]"

definition tokenBatch :: ResourceMetrics where
  "tokenBatch = \<lparr>ResourceAttributes = awsAttrs,
     InstrumentationLibraryMetrics = [Some [Some sumMetric], None]\<rparr>"

definition nameFromFirstKey :: MetricTranslator where
  \<comment> \<open>a translator for evaluation: it renames every data point to the key of its first
      dimension, as read in the store it is given\<close>
  "nameFromFirstKey dps h =
     (map (\<lambda>dp. case sliceDims h (Dimensions dp) of
                   Some d # rest \<Rightarrow> dp\<lparr>Metric := Key d\<rparr>
                 | _ \<Rightarrow> dp) dps, h)"

definition renamingConverter :: MetricsConverter where
  "renamingConverter = \<lparr>metricTranslator = Some nameFromFirstKey\<rparr>"

definition gaugeBatch :: ResourceMetrics where
  "gaugeBatch = \<lparr>ResourceAttributes = [],
     InstrumentationLibraryMetrics =
       [Some [Some \<lparr>Name = gostr ''m'',
                     Data = IntGauge [Some \<lparr>dpTimestamp = 0, dpLabelsMap = [(gostr ''a.b'', gostr ''v'')],
                                             dpValue = 1\<rparr>]\<rparr>]]\<rparr>"

definition badHistPoint :: "float64 HistogramDataPoint" where
  "badHistPoint = \<lparr>hTimestamp = 5000000, hLabelsMap = [(gostr ''a.b'', gostr ''c'')], hCount = 3,
                   hSum = Float64frombits 7, hExplicitBounds = [Float64frombits 1],
                   hBucketCounts = [1, 2, 3]\<rparr>"

definition mismatchMetric :: Metric where
  "mismatchMetric = \<lparr>Name = gostr ''m'', Data = DoubleHistogram AggregationTemporalityDelta [Some badHistPoint]\<rparr>"

definition mismatchBatch :: ResourceMetrics where
  "mismatchBatch = \<lparr>ResourceAttributes = awsAttrs,
     InstrumentationLibraryMetrics = [Some [Some mismatchMetric, Some sumMetric]]\<rparr>"

section \<open>Properties of the operations\<close>

subsection \<open>Key sanitization\<close>

lemma filterMap_idem: "filterMap L (filterMap L r) = filterMap L r"
  by (simp add: filterMap_def unicode_IsLetter_def unicode_IsDigit_def)

lemma filterKeyChars_idem: "filterKeyChars L (filterKeyChars L s) = filterKeyChars L s"
  by (simp add: filterKeyChars_def filterMap_idem)

lemma filterMap_ascii: "r < 128 \<Longrightarrow> keyChar (filterMap L r)"
  by (auto simp add: filterMap_def unicode_IsLetter_def unicode_IsDigit_def keyChar_def)

subsection \<open>Slices: append, copy and the labels of a data point\<close>

lemma wfSlice_iff:
  "wfSlice h s \<longleftrightarrow> (slen s \<le> scap s \<and> scap s \<le> length (arrayAt h (sarr s))
                  \<and> (\<forall>p. Some p \<in> set (sliceElems h s) \<longrightarrow> p < length (dimObjs h)))"
  by (auto simp: wfSlice_def list_all_iff split: option.splits)

lemma prefix_update: "prefix A xs \<Longrightarrow> length A \<le> i \<Longrightarrow> prefix A (xs[i := y])"
  by (metis linorder_not_le prefix_def list_update_append)

lemma prefix_snoc: "prefix A xs \<Longrightarrow> prefix A (xs @ ys)"
  by (rule prefix_prefix)

lemma arrayAt_pos: "n < length (arrayAt h a) \<Longrightarrow> a < length (ptrArrays h)"
  by (auto simp: arrayAt_def split: if_splits)

lemma appendSlice_elems:
  assumes "appendSlice L s p h = (s', h')" "slen s \<le> scap s" "scap s \<le> length (arrayAt h (sarr s))"
  shows "sliceElems h' s' = sliceElems h s @ [Some p]"
    and "slen s' = slen s + 1"
    and "slen s' \<le> scap s'"
    and "scap s' \<le> length (arrayAt h' (sarr s'))"
    and "dimObjs h' = dimObjs h"
    and "length (ptrArrays h) \<le> length (ptrArrays h')"
proof -
  show "sliceElems h' s' = sliceElems h s @ [Some p]"
  proof (cases "slen s < scap s")
    case True
    then have a: "sarr s < length (ptrArrays h)" using assms(3) arrayAt_pos [of "slen s" h "sarr s"] by simp
    from True assms(3) have l: "slen s < length (arrayAt h (sarr s))" by simp
    from True assms(1) a l show ?thesis
      by (auto simp: appendSlice_def sliceElems_def arrayAt_def take_Suc_conv_app_nth)
  next
    case False
    with assms(2) have e: "slen s = scap s" by simp
    from False assms(1) assms(3) e show ?thesis
      by (auto simp: appendSlice_def sliceElems_def arrayAt_def Let_def)
  qed
  show "slen s' = slen s + 1" using assms(1) by (auto simp: appendSlice_def Let_def split: if_splits)
  show "slen s' \<le> scap s'" using assms(1) by (auto simp: appendSlice_def Let_def split: if_splits)
  show "scap s' \<le> length (arrayAt h' (sarr s'))"
  proof (cases "slen s < scap s")
    case True
    then have a: "sarr s < length (ptrArrays h)" using assms(3) arrayAt_pos [of "slen s" h "sarr s"] by simp
    from True assms(1) a assms(3) show ?thesis
      by (auto simp: appendSlice_def arrayAt_def)
  next
    case False
    with assms(2) have e: "slen s = scap s" by simp
    from False assms(1) assms(3) e show ?thesis
      by (auto simp: appendSlice_def sliceElems_def arrayAt_def Let_def)
  qed
  show "dimObjs h' = dimObjs h" using assms(1) by (auto simp: appendSlice_def Let_def split: if_splits)
  show "length (ptrArrays h) \<le> length (ptrArrays h')" using assms(1) by (auto simp: appendSlice_def Let_def split: if_splits)
qed

lemma appendSlice_frame:
  assumes "appendSlice L s p h = (s', h')" "prefix A (ptrArrays h)" "length A \<le> sarr s"
  shows "prefix A (ptrArrays h')" and "length A \<le> sarr s'"
  using assms
  by (auto simp: appendSlice_def Let_def prefix_update prefix_snoc prefix_length_le split: if_splits)

lemma arrayAt_dimObjs_update [simp]: "arrayAt (h\<lparr>dimObjs := x\<rparr>) a = arrayAt h a"
  by (simp add: arrayAt_def)

lemma sliceElems_dimObjs_update [simp]: "sliceElems (h\<lparr>dimObjs := x\<rparr>) s = sliceElems h s"
  by (simp add: sliceElems_def)

lemma labelsForEach_elems:
  assumes "labelsForEach L labels dv pos s h = (s', h')"
    and "slen s \<le> scap s" and "scap s \<le> length (arrayAt h (sarr s))"
  shows "sliceElems h' s' = sliceElems h s @ map Some [dv + pos ..< dv + pos + length labels]
       \<and> slen s' \<le> scap s' \<and> scap s' \<le> length (arrayAt h' (sarr s'))
       \<and> length (dimObjs h') = length (dimObjs h)
       \<and> (\<forall>i < length (dimObjs h). dimObjs h' ! i =
             (if dv + pos \<le> i \<and> i < dv + pos + length labels
              then labelDim (labels ! (i - (dv + pos))) else dimObjs h ! i))"
  using assms
proof (induction labels arbitrary: pos s h)
  case Nil
  then show ?case by auto
next
  case (Cons kv labels)
  obtain k v where kv: "kv = (k, v)" by (cases kv)
  define h1 where "h1 = h\<lparr>dimObjs := (dimObjs h)[dv + pos := \<lparr>Key = k, Value = v\<rparr>]\<rparr>"
  obtain s2 h2 where ap: "appendSlice L s (dv + pos) h1 = (s2, h2)" by (cases "appendSlice L s (dv + pos) h1")
  from Cons.prems(1) kv ap have rec: "labelsForEach L labels dv (pos + 1) s2 h2 = (s', h')"
    by (simp add: h1_def)
  have c1: "scap s \<le> length (arrayAt h1 (sarr s))" using Cons.prems(3) by (simp add: h1_def)
  note A = appendSlice_elems [OF ap Cons.prems(2) c1]
  note IH = Cons.IH [OF rec A(3) A(4)]
  have el: "sliceElems h' s' = sliceElems h s @ map Some [dv + pos ..< dv + pos + length (kv # labels)]"
  proof -
    have "sliceElems h' s' = (sliceElems h s @ [Some (dv + pos)]) @ map Some [dv + (pos + 1) ..< dv + (pos + 1) + length labels]"
      using IH A(1) by (simp add: h1_def)
    also have "\<dots> = sliceElems h s @ map Some ((dv + pos) # [Suc (dv + pos) ..< Suc (dv + pos) + length labels])"
      by simp
    also have "(dv + pos) # [Suc (dv + pos) ..< Suc (dv + pos) + length labels] = [dv + pos ..< dv + pos + length (kv # labels)]"
    proof -
      have "[dv + pos ..< dv + pos + length (kv # labels)]
              = (dv + pos) # [Suc (dv + pos) ..< dv + pos + length (kv # labels)]"
        by (rule upt_conv_Cons) simp
      moreover have "dv + pos + length (kv # labels) = Suc (dv + pos) + length labels" by simp
      ultimately show ?thesis by (simp only:)
    qed
    finally show ?thesis .
  qed
  have d2: "dimObjs h2 = (dimObjs h)[dv + pos := \<lparr>Key = k, Value = v\<rparr>]" using A(5) by (simp add: h1_def)
  have len: "length (dimObjs h') = length (dimObjs h)" using IH d2 by simp
  have pt: "\<forall>i < length (dimObjs h). dimObjs h' ! i =
             (if dv + pos \<le> i \<and> i < dv + pos + length (kv # labels)
              then labelDim ((kv # labels) ! (i - (dv + pos))) else dimObjs h ! i)"
  proof (intro allI impI)
    fix i assume i: "i < length (dimObjs h)"
    then have i2: "i < length (dimObjs h2)" by (simp add: d2)
    from IH i2 have e: "dimObjs h' ! i =
             (if dv + (pos + 1) \<le> i \<and> i < dv + (pos + 1) + length labels
              then labelDim (labels ! (i - (dv + (pos + 1)))) else dimObjs h2 ! i)" by blast
    show "dimObjs h' ! i =
             (if dv + pos \<le> i \<and> i < dv + pos + length (kv # labels)
              then labelDim ((kv # labels) ! (i - (dv + pos))) else dimObjs h ! i)"
    proof (cases "i = dv + pos")
      case True
      with e i show ?thesis by (simp add: d2 labelDim_def kv)
    next
      case False
      show ?thesis
      proof (cases "dv + pos < i \<and> i < dv + pos + length (kv # labels)")
        case True
        then have "(kv # labels) ! (i - (dv + pos)) = labels ! (i - (dv + (pos + 1)))"
          by (simp add: nth_Cons')
        with True e show ?thesis by simp
      next
        case F2: False
        with False e show ?thesis by (auto simp: d2)
      qed
    qed
  qed
  from el IH len pt show ?case by blast
qed

lemma labelsForEach_frame:
  assumes "labelsForEach L labels dv pos s h = (s', h')"
    and "prefix A (ptrArrays h)" and "length A \<le> sarr s"
    and "prefix D (dimObjs h)" and "length D \<le> dv"
  shows "prefix A (ptrArrays h') \<and> length A \<le> sarr s' \<and> prefix D (dimObjs h')"
  using assms
proof (induction labels arbitrary: pos s h)
  case Nil
  then show ?case by simp
next
  case (Cons kv labels)
  obtain k v where kv: "kv = (k, v)" by (cases kv)
  define h1 where "h1 = h\<lparr>dimObjs := (dimObjs h)[dv + pos := \<lparr>Key = k, Value = v\<rparr>]\<rparr>"
  obtain s2 h2 where ap: "appendSlice L s (dv + pos) h1 = (s2, h2)" by (cases "appendSlice L s (dv + pos) h1")
  from Cons.prems(1) kv ap have rec: "labelsForEach L labels dv (pos + 1) s2 h2 = (s', h')"
    by (simp add: h1_def)
  have p1: "prefix A (ptrArrays h1)" using Cons.prems(2) by (simp add: h1_def)
  note F = appendSlice_frame [OF ap p1 Cons.prems(3)]
  have "dimObjs h2 = dimObjs h1" using ap by (auto simp: appendSlice_def Let_def split: if_splits)
  then have pd: "prefix D (dimObjs h2)" using Cons.prems(4,5) by (simp add: h1_def prefix_update)
  from Cons.IH [OF rec F(1) F(2) pd Cons.prems(5)] show ?case .
qed

lemma sliceElems_snoc_array:
  assumes "wfSlice h s"
  shows "take (slen s) (arrayAt (h\<lparr>ptrArrays := ptrArrays h @ [x]\<rparr>) (sarr s)) = sliceElems h s"
proof (cases "slen s = 0")
  case True
  then show ?thesis by (simp add: sliceElems_def)
next
  case False
  with assms have "0 < length (arrayAt h (sarr s))" by (auto simp: wfSlice_iff)
  then have "sarr s < length (ptrArrays h)" by (rule arrayAt_pos)
  then show ?thesis by (simp add: sliceElems_def arrayAt_def nth_append)
qed

lemma arrayAt_snoc_new [simp]:
  "arrayAt (h\<lparr>ptrArrays := ptrArrays h @ [x]\<rparr>) (length (ptrArrays h)) = x"
  by (simp add: arrayAt_def)

lemma labelsToDimensions_unfold:
  "labelsToDimensions L labels extra h =
     (let s0 = \<lparr>sarr = length (ptrArrays h), slen = slen extra, scap = length labels + slen extra\<rparr>;
          h2 = h\<lparr>ptrArrays := ptrArrays h @
                 [take (slen extra)
                    (arrayAt (h\<lparr>ptrArrays := ptrArrays h @ [replicate (length labels + slen extra) None]\<rparr>)
                       (sarr extra))
                  @ replicate (length labels) None]\<rparr>
      in if labels = [] then (s0, h2)
         else labelsForEach L labels (length (dimObjs h)) 0 s0
                (h2\<lparr>dimObjs := dimObjs h @ replicate (length labels) \<lparr>Key = [], Value = []\<rparr>\<rparr>))"
  by (simp add: labelsToDimensions_def makeSlice_def copySlice_def makeDimensions_def Let_def)

lemma labelsToDimensions_spec:
  assumes "labelsToDimensions L labels extra h = (s', h')" and "wfSlice h extra"
  shows "sliceElems h' s' = sliceElems h extra
            @ map Some [length (dimObjs h) ..< length (dimObjs h) + length labels]
       \<and> dimObjs h' = dimObjs h @ map labelDim labels
       \<and> slen s' \<le> scap s' \<and> scap s' \<le> length (arrayAt h' (sarr s'))"
proof -
  define s0 where "s0 = \<lparr>sarr = length (ptrArrays h), slen = slen extra, scap = length labels + slen extra\<rparr>"
  define h2 where "h2 = h\<lparr>ptrArrays := ptrArrays h @ [sliceElems h extra @ replicate (length labels) None]\<rparr>"
  have le: "length (sliceElems h extra) = slen extra"
    using assms(2) by (simp add: wfSlice_iff sliceElems_def)
  have e0: "sliceElems h2 s0 = sliceElems h extra"
    using le by (simp add: sliceElems_def s0_def h2_def)
  have w0: "slen s0 \<le> scap s0" "scap s0 \<le> length (arrayAt h2 (sarr s0))"
    using le by (simp_all add: s0_def h2_def)
  show ?thesis
  proof (cases "labels = []")
    case True
    with assms(1) have "s' = s0" "h' = h2"
      by (simp_all add: labelsToDimensions_unfold sliceElems_snoc_array [OF assms(2)] s0_def h2_def)
    with True e0 w0 show ?thesis
      by (simp add: h2_def)
  next
    case False
    define h3 where "h3 = h2\<lparr>dimObjs := dimObjs h @ replicate (length labels) \<lparr>Key = [], Value = []\<rparr>\<rparr>"
    from False assms(1) have lf: "labelsForEach L labels (length (dimObjs h)) 0 s0 h3 = (s', h')"
      by (simp add: labelsToDimensions_unfold sliceElems_snoc_array [OF assms(2)] s0_def h2_def h3_def)
    have w3: "scap s0 \<le> length (arrayAt h3 (sarr s0))" using w0 by (simp add: h3_def)
    note E = labelsForEach_elems [OF lf w0(1) w3]
    have d3: "dimObjs h3 = dimObjs h @ replicate (length labels) \<lparr>Key = [], Value = []\<rparr>"
      by (simp add: h3_def h2_def)
    have dims: "dimObjs h' = dimObjs h @ map labelDim labels"
    proof (rule nth_equalityI)
      show "length (dimObjs h') = length (dimObjs h @ map labelDim labels)"
        using E d3 by simp
    next
      fix i assume "i < length (dimObjs h')"
      then have i: "i < length (dimObjs h3)" using E by simp
      with E have "dimObjs h' ! i =
             (if length (dimObjs h) + 0 \<le> i \<and> i < length (dimObjs h) + 0 + length labels
              then labelDim (labels ! (i - (length (dimObjs h) + 0))) else dimObjs h3 ! i)" by blast
      then show "dimObjs h' ! i = (dimObjs h @ map labelDim labels) ! i"
        using i by (auto simp: d3 nth_append)
    qed
    from E e0 dims show ?thesis
      by (simp add: h3_def)
  qed
qed

lemma labelsToDimensions_frame:
  assumes "labelsToDimensions L labels extra h = (s', h')"
  shows "heapExt h h' \<and> length (ptrArrays h) \<le> sarr s'"
proof (cases "labels = []")
  case True
  with assms show ?thesis
    by (auto simp: labelsToDimensions_unfold heapExt_def)
next
  case False
  with assms obtain s0 h3 where lf: "labelsForEach L labels (length (dimObjs h)) 0 s0 h3 = (s', h')"
    and a0: "sarr s0 = length (ptrArrays h)"
    and p3: "prefix (ptrArrays h) (ptrArrays h3)" and pd: "prefix (dimObjs h) (dimObjs h3)"
    by (simp add: labelsToDimensions_unfold)
  from labelsForEach_frame [OF lf p3 _ pd] a0
  show ?thesis by (simp add: heapExt_def)
qed

subsection \<open>Stores that only grow\<close>

lemma heapExt_refl [simp]: "heapExt h h"
  by (simp add: heapExt_def)

lemma heapExt_trans: "heapExt h1 h2 \<Longrightarrow> heapExt h2 h3 \<Longrightarrow> heapExt h1 h3"
  by (auto simp: heapExt_def)

lemma heapExt_arrayAt:
  assumes "heapExt h h'" and "a < length (ptrArrays h)"
  shows "arrayAt h' a = arrayAt h a"
proof -
  from assms(1) obtain ys where "ptrArrays h' = ptrArrays h @ ys" by (auto simp: heapExt_def prefix_def)
  with assms(2) show ?thesis by (simp add: arrayAt_def nth_append)
qed

lemma heapExt_loadDim:
  assumes "heapExt h h'" and "p < length (dimObjs h)"
  shows "loadDim h' (Some p) = loadDim h (Some p)"
proof -
  from assms(1) obtain ys where "dimObjs h' = dimObjs h @ ys" by (auto simp: heapExt_def prefix_def)
  with assms(2) show ?thesis by (simp add: loadDim_def nth_append)
qed

lemma heapExt_length:
  assumes "heapExt h h'"
  shows "length (dimObjs h) \<le> length (dimObjs h')" and "length (ptrArrays h) \<le> length (ptrArrays h')"
  using assms by (auto simp: heapExt_def prefix_length_le)

lemma wfSlice_elems:
  assumes "heapExt h h'" and "wfSlice h s"
  shows "sliceElems h' s = sliceElems h s"
proof (cases "slen s = 0")
  case True
  then show ?thesis by (simp add: sliceElems_def)
next
  case False
  with assms(2) have "0 < length (arrayAt h (sarr s))" by (auto simp: wfSlice_iff)
  then have "sarr s < length (ptrArrays h)" by (rule arrayAt_pos)
  with assms(1) show ?thesis by (simp add: sliceElems_def heapExt_arrayAt)
qed

lemma wfSlice_stable:
  assumes "heapExt h h'" and "wfSlice h s"
  shows "wfSlice h' s" and "sliceDims h' s = sliceDims h s"
proof -
  note E = wfSlice_elems [OF assms]
  have cap: "scap s \<le> length (arrayAt h' (sarr s))"
  proof (cases "scap s = 0")
    case True
    then show ?thesis by simp
  next
    case False
    with assms(2) have "0 < length (arrayAt h (sarr s))" by (auto simp: wfSlice_iff)
    then have "sarr s < length (ptrArrays h)" by (rule arrayAt_pos)
    with assms show ?thesis by (simp add: heapExt_arrayAt wfSlice_iff)
  qed
  from assms cap E heapExt_length(1) [OF assms(1)] show "wfSlice h' s"
    by (fastforce simp: wfSlice_iff)
  have "map (loadDim h') (sliceElems h s) = map (loadDim h) (sliceElems h s)"
  proof (rule map_cong [OF refl])
    fix e assume e: "e \<in> set (sliceElems h s)"
    show "loadDim h' e = loadDim h e"
    proof (cases e)
      case None
      then show ?thesis by (simp add: loadDim_def)
    next
      case (Some p)
      with e assms(2) have "p < length (dimObjs h)" by (auto simp: wfSlice_iff)
      with Some assms(1) show ?thesis by (simp add: heapExt_loadDim)
    qed
  qed
  with E show "sliceDims h' s = sliceDims h s" by (simp add: sliceDims_def)
qed

lemma loadDim_append_new:
  "i < length ds \<Longrightarrow> loadDim (h\<lparr>dimObjs := dimObjs h @ ds\<rparr>) (Some (length (dimObjs h) + i)) = Some (ds ! i)"
  by (simp add: loadDim_def nth_append)

lemma map_loadDim_new:
  assumes "dimObjs h' = dimObjs h @ ds"
  shows "map (loadDim h') (map Some [length (dimObjs h) ..< length (dimObjs h) + length ds]) = map Some ds"
proof (rule nth_equalityI)
  show "length (map (loadDim h') (map Some [length (dimObjs h) ..< length (dimObjs h) + length ds])) = length (map Some ds)"
    by simp
next
  fix i assume "i < length (map (loadDim h') (map Some [length (dimObjs h) ..< length (dimObjs h) + length ds]))"
  then have i: "i < length ds" by simp
  then show "map (loadDim h') (map Some [length (dimObjs h) ..< length (dimObjs h) + length ds]) ! i = map Some ds ! i"
    using assms by (simp add: loadDim_def nth_append)
qed

lemma map_loadDim_old:
  assumes "dimObjs h' = dimObjs h @ ds" and "\<forall>p. Some p \<in> set es \<longrightarrow> p < length (dimObjs h)"
  shows "map (loadDim h') es = map (loadDim h) es"
proof (rule map_cong [OF refl])
  fix e assume e: "e \<in> set es"
  show "loadDim h' e = loadDim h e"
  proof (cases e)
    case None
    then show ?thesis by (simp add: loadDim_def)
  next
    case (Some p)
    with e assms(2) have "p < length (dimObjs h)" by auto
    with Some assms(1) show ?thesis by (simp add: loadDim_def nth_append)
  qed
qed

lemma labelsToDimensions_ok:
  assumes "labelsToDimensions L labels extra h = (s', h')" and "wfSlice h extra"
  shows "heapExt h h'" and "length (ptrArrays h) \<le> sarr s'" and "wfSlice h' s'"
    and "sliceDims h' s' = sliceDims h extra @ map (\<lambda>kv. Some (labelDim kv)) labels"
    and "None \<notin> set (sliceElems h extra) \<Longrightarrow> None \<notin> set (sliceElems h' s')"
proof -
  note S = labelsToDimensions_spec [OF assms]
  note F = labelsToDimensions_frame [OF assms(1)]
  from F show "heapExt h h'" and "length (ptrArrays h) \<le> sarr s'" by simp_all
  from S assms(2) show "wfSlice h' s'" by (auto simp: wfSlice_iff)
  have "sliceDims h' s' = map (loadDim h') (sliceElems h extra)
          @ map (loadDim h') (map Some [length (dimObjs h) ..< length (dimObjs h) + length (map labelDim labels)])"
    using S by (simp add: sliceDims_def)
  also have "map (loadDim h') (sliceElems h extra) = map (loadDim h) (sliceElems h extra)"
    using S assms(2) by (intro map_loadDim_old [where ds = "map labelDim labels"]) (auto simp: wfSlice_iff)
  also have "map (loadDim h') (map Some [length (dimObjs h) ..< length (dimObjs h) + length (map labelDim labels)])
       = map Some (map labelDim labels)"
    using S by (intro map_loadDim_new) simp
  finally show "sliceDims h' s' = sliceDims h extra @ map (\<lambda>kv. Some (labelDim kv)) labels"
    by (simp add: sliceDims_def)
  show "None \<notin> set (sliceElems h' s')" if "None \<notin> set (sliceElems h extra)"
    using S that by auto
qed

lemma pointIs_stable: "heapExt h h' \<Longrightarrow> pointIs h dp name ty ts val dims \<Longrightarrow> pointIs h' dp name ty ts val dims"
  by (simp add: pointIs_def wfSlice_stable)

lemma pointIs_mk:
  "wfSlice h s \<Longrightarrow> sliceDims h s = dims \<Longrightarrow>
   pointIs h (base\<lparr>Metric := name, Timestamp := ts, Dimensions := s, PointValue := val\<rparr>)
     name (MetricType base) ts val dims"
  by (simp add: pointIs_def)

lemma pointIs_mk2:
  "wfSlice h s \<Longrightarrow> sliceDims h s = dims \<Longrightarrow>
   pointIs h (base\<lparr>Timestamp := ts, Dimensions := s, PointValue := val\<rparr>)
     (Metric base) (MetricType base) ts val dims"
  by (simp add: pointIs_def)

subsection \<open>Gauge and Sum data points\<close>

lemma convertIntDatapoints_ok:
  assumes "convertIntDatapoints L dps base extra h = (out, h')" and "wfSlice h extra"
  shows "heapExt h h' \<and>
         list_all2 (\<lambda>inDp dp. pointIs h' dp (Metric base) (MetricType base)
              (timestampToSignalFx (dpTimestamp inDp))
              ((PointValue base)\<lparr>IntValue := Some (dpValue inDp)\<rparr>)
              (sliceDims h extra @ map (\<lambda>kv. Some (labelDim kv)) (dpLabelsMap inDp)))
           (nonNil dps) out"
  using assms
proof (induction dps arbitrary: h out h')
  case Nil
  then show ?case by simp
next
  case (Cons x dps)
  show ?case
  proof (cases x)
    case None
    with Cons show ?thesis by simp
  next
    case (Some inDp)
    obtain s1 h1 where l: "labelsToDimensions L (dpLabelsMap inDp) extra h = (s1, h1)"
      by (cases "labelsToDimensions L (dpLabelsMap inDp) extra h")
    obtain out2 h2 where r: "convertIntDatapoints L dps base extra h1 = (out2, h2)"
      by (cases "convertIntDatapoints L dps base extra h1")
    from Cons.prems(1) Some l r have o: "out = base\<lparr>Timestamp := timestampToSignalFx (dpTimestamp inDp),
                         Dimensions := s1,
                         PointValue := (PointValue base)\<lparr>IntValue := Some (dpValue inDp)\<rparr>\<rparr> # out2"
      and hh: "h' = h2" by simp_all
    note K = labelsToDimensions_ok [OF l Cons.prems(2)]
    note W1 = wfSlice_stable [OF K(1) Cons.prems(2)]
    from Cons.IH [OF r W1(1)] have IH1: "heapExt h1 h2"
      and IH2: "list_all2 (\<lambda>inDp dp. pointIs h2 dp (Metric base) (MetricType base)
              (timestampToSignalFx (dpTimestamp inDp))
              ((PointValue base)\<lparr>IntValue := Some (dpValue inDp)\<rparr>)
              (sliceDims h1 extra @ map (\<lambda>kv. Some (labelDim kv)) (dpLabelsMap inDp)))
           (nonNil dps) out2" by blast+
    note W2 = wfSlice_stable [OF IH1 K(3)]
    from K(1) IH1 have e: "heapExt h h2" by (rule heapExt_trans)
    have hd: "pointIs h2 (hd out) (Metric base) (MetricType base)
              (timestampToSignalFx (dpTimestamp inDp)) (PointValue (hd out))
              (sliceDims h extra @ map (\<lambda>kv. Some (labelDim kv)) (dpLabelsMap inDp))"
      using W2 K(4) by (simp add: o pointIs_def)
    from IH2 W1(2) hd e show ?thesis
      by (simp add: o hh Some)
  qed
qed

lemma convertDoubleDatapoints_ok:
  assumes "convertDoubleDatapoints L dps base extra h = (out, h')" and "wfSlice h extra"
  shows "heapExt h h' \<and>
         list_all2 (\<lambda>inDp dp. pointIs h' dp (Metric base) (MetricType base)
              (timestampToSignalFx (dpTimestamp inDp))
              ((PointValue base)\<lparr>DoubleValue := Some (dpValue inDp)\<rparr>)
              (sliceDims h extra @ map (\<lambda>kv. Some (labelDim kv)) (dpLabelsMap inDp)))
           (nonNil dps) out"
  using assms
proof (induction dps arbitrary: h out h')
  case Nil
  then show ?case by simp
next
  case (Cons x dps)
  show ?case
  proof (cases x)
    case None
    with Cons show ?thesis by simp
  next
    case (Some inDp)
    obtain s1 h1 where l: "labelsToDimensions L (dpLabelsMap inDp) extra h = (s1, h1)"
      by (cases "labelsToDimensions L (dpLabelsMap inDp) extra h")
    obtain out2 h2 where r: "convertDoubleDatapoints L dps base extra h1 = (out2, h2)"
      by (cases "convertDoubleDatapoints L dps base extra h1")
    from Cons.prems(1) Some l r have o: "out = base\<lparr>Timestamp := timestampToSignalFx (dpTimestamp inDp),
                         Dimensions := s1,
                         PointValue := (PointValue base)\<lparr>DoubleValue := Some (dpValue inDp)\<rparr>\<rparr> # out2"
      and hh: "h' = h2" by simp_all
    note K = labelsToDimensions_ok [OF l Cons.prems(2)]
    note W1 = wfSlice_stable [OF K(1) Cons.prems(2)]
    from Cons.IH [OF r W1(1)] have IH1: "heapExt h1 h2"
      and IH2: "list_all2 (\<lambda>inDp dp. pointIs h2 dp (Metric base) (MetricType base)
              (timestampToSignalFx (dpTimestamp inDp))
              ((PointValue base)\<lparr>DoubleValue := Some (dpValue inDp)\<rparr>)
              (sliceDims h1 extra @ map (\<lambda>kv. Some (labelDim kv)) (dpLabelsMap inDp)))
           (nonNil dps) out2" by blast+
    note W2 = wfSlice_stable [OF IH1 K(3)]
    from K(1) IH1 have e: "heapExt h h2" by (rule heapExt_trans)
    have hd: "pointIs h2 (hd out) (Metric base) (MetricType base)
              (timestampToSignalFx (dpTimestamp inDp)) (PointValue (hd out))
              (sliceDims h extra @ map (\<lambda>kv. Some (labelDim kv)) (dpLabelsMap inDp))"
      using W2 K(4) by (simp add: o pointIs_def)
    from IH2 W1(2) hd e show ?thesis
      by (simp add: o hh Some)
  qed
qed

subsection \<open>Histogram buckets\<close>

lemma newDimension_append:
  assumes nd: "newDimension d h = (p, h1)" and ap: "appendSlice L s p h1 = (s', h')"
    and wf: "wfSlice h s"
  shows "sliceDims h' s' = sliceDims h s @ [Some d]"
    and "wfSlice h' s'"
    and "dimObjs h' = dimObjs h @ [d]"
    and "prefix A (ptrArrays h) \<Longrightarrow> length A \<le> sarr s \<Longrightarrow> prefix A (ptrArrays h') \<and> length A \<le> sarr s'"
proof -
  from nd have p: "p = length (dimObjs h)" and h1: "h1 = h\<lparr>dimObjs := dimObjs h @ [d]\<rparr>"
    by (auto simp: newDimension_def)
  from wf have c: "slen s \<le> scap s" "scap s \<le> length (arrayAt h1 (sarr s))"
    by (simp_all add: wfSlice_iff h1)
  note A = appendSlice_elems [OF ap c]
  from A(5) show d': "dimObjs h' = dimObjs h @ [d]" by (simp add: h1)
  have el: "sliceElems h' s' = sliceElems h s @ [Some (length (dimObjs h))]"
    using A(1) by (simp add: h1 p)
  have old: "map (loadDim h') (sliceElems h s) = map (loadDim h) (sliceElems h s)"
    using d' wf by (intro map_loadDim_old [where ds = "[d]"]) (auto simp: wfSlice_iff)
  from el old d' show "sliceDims h' s' = sliceDims h s @ [Some d]"
    by (simp add: sliceDims_def loadDim_def)
  from A(3,4) el d' wf show "wfSlice h' s'"
    by (auto simp: wfSlice_iff)
  show "prefix A (ptrArrays h) \<Longrightarrow> length A \<le> sarr s \<Longrightarrow> prefix A (ptrArrays h') \<and> length A \<le> sarr s'"
    using appendSlice_frame [OF ap, of A] by (simp add: h1)
qed

lemma histogramBuckets_ok:
  assumes "histogramBuckets L j counts bounds labels base ts extra h = (out, h')" and "wfSlice h extra"
  shows "heapExt h h' \<and>
         list_all2 (\<lambda>jc dp. pointIs h' dp (Metric base @ gostr ''_bucket'') (MetricType base) ts
              ((PointValue base)\<lparr>IntValue := Some (snd jc)\<rparr>)
              (sliceDims h extra @ map (\<lambda>kv. Some (labelDim kv)) labels
                 @ [Some \<lparr>Key = upperBoundDimensionKey,
                           Value = (if fst jc < length bounds then float64ToDimValue L (bounds ! fst jc)
                                    else infinityBoundSFxDimValue L)\<rparr>]))
           (List.enumerate j counts) out"
  using assms
proof (induction counts arbitrary: j h out h')
  case Nil
  then show ?case by simp
next
  case (Cons c counts)
  define ub where "ub = \<lparr>Key = upperBoundDimensionKey,
       Value = (if j < length bounds then float64ToDimValue L (bounds ! j) else infinityBoundSFxDimValue L)\<rparr>"
  obtain s1 h1 where l: "labelsToDimensions L labels extra h = (s1, h1)"
    by (cases "labelsToDimensions L labels extra h")
  obtain d h2 where n: "newDimension ub h1 = (d, h2)" by (cases "newDimension ub h1")
  obtain s3 h3 where a: "appendSlice L s1 d h2 = (s3, h3)" by (cases "appendSlice L s1 d h2")
  obtain out4 h4 where r: "histogramBuckets L (j + 1) counts bounds labels base ts extra h3 = (out4, h4)"
    by (cases "histogramBuckets L (j + 1) counts bounds labels base ts extra h3")
  from Cons.prems(1) l n a r have o: "out = base\<lparr>Metric := Metric base @ gostr ''_bucket'',
                         Timestamp := ts, Dimensions := s3,
                         PointValue := (PointValue base)\<lparr>IntValue := Some c\<rparr>\<rparr> # out4"
    and hh: "h' = h4" by (simp_all add: ub_def)
  note K = labelsToDimensions_ok [OF l Cons.prems(2)]
  note N = newDimension_append [OF n a K(3)]
  from K(1) have "prefix (ptrArrays h) (ptrArrays h1)" by (simp add: heapExt_def)
  with N(4) [of "ptrArrays h"] K(2) have "prefix (ptrArrays h) (ptrArrays h3)" by simp
  moreover from K(1) N(3) have "prefix (dimObjs h) (dimObjs h3)" by (simp add: heapExt_def)
  ultimately have e3: "heapExt h h3" by (simp add: heapExt_def)
  note W3 = wfSlice_stable [OF e3 Cons.prems(2)]
  from Cons.IH [OF r W3(1)] have IH1: "heapExt h3 h4"
    and IH2: "list_all2 (\<lambda>jc dp. pointIs h4 dp (Metric base @ gostr ''_bucket'') (MetricType base) ts
              ((PointValue base)\<lparr>IntValue := Some (snd jc)\<rparr>)
              (sliceDims h3 extra @ map (\<lambda>kv. Some (labelDim kv)) labels
                 @ [Some \<lparr>Key = upperBoundDimensionKey,
                           Value = (if fst jc < length bounds then float64ToDimValue L (bounds ! fst jc)
                                    else infinityBoundSFxDimValue L)\<rparr>]))
           (List.enumerate (j + 1) counts) out4" by blast+
  note W4 = wfSlice_stable [OF IH1 N(2)]
  from e3 IH1 have e: "heapExt h h4" by (rule heapExt_trans)
  have hd: "pointIs h4 (hd out) (Metric base @ gostr ''_bucket'') (MetricType base) ts
              ((PointValue base)\<lparr>IntValue := Some c\<rparr>)
              (sliceDims h extra @ map (\<lambda>kv. Some (labelDim kv)) labels @ [Some ub])"
    using W4 N(1) K(4) by (simp add: o pointIs_def)
  from IH2 W3(2) hd e show ?case
    by (auto simp: o hh ub_def)
qed

subsection \<open>Histogram data points\<close>

lemma list_all2_pointIs_stable:
  assumes "heapExt h h'" and "list_all2 (\<lambda>x dp. pointIs h dp (n x) (ty x) (t x) (v x) (d x)) xs out"
  shows "list_all2 (\<lambda>x dp. pointIs h' dp (n x) (ty x) (t x) (v x) (d x)) xs out"
  using assms(2) by (rule list_all2_mono) (rule pointIs_stable [OF assms(1)])

lemma convertIntHistogram_head:
  assumes "convertIntHistogram L (Some histDP # rest) base extra h = (out, h')" and "wfSlice h extra"
  shows "\<exists>cnt sm buckets h3 out'.
           out = cnt # sm # buckets @ out'
         \<and> convertIntHistogram L rest base extra h3 = (out', h')
         \<and> heapExt h h3
         \<and> pointIs h3 cnt (Metric base @ gostr ''_count'') (MetricType base)
              (timestampToSignalFx (hTimestamp histDP))
              ((PointValue base)\<lparr>IntValue := Some (hCount histDP)\<rparr>)
              (sliceDims h extra @ map (\<lambda>kv. Some (labelDim kv)) (hLabelsMap histDP))
         \<and> pointIs h3 sm (Metric base) (MetricType base)
              (timestampToSignalFx (hTimestamp histDP))
              ((PointValue base)\<lparr>IntValue := Some (hSum histDP)\<rparr>)
              (sliceDims h extra @ map (\<lambda>kv. Some (labelDim kv)) (hLabelsMap histDP))
         \<and> (if 0 < length (hBucketCounts histDP)
                  \<and> length (hBucketCounts histDP) \<noteq> length (hExplicitBounds histDP) + 1
             then buckets = []
             else list_all2 (\<lambda>jc dp. pointIs h3 dp (Metric base @ gostr ''_bucket'') (MetricType base)
                    (timestampToSignalFx (hTimestamp histDP))
                    ((PointValue base)\<lparr>IntValue := Some (snd jc)\<rparr>)
                    (sliceDims h extra @ map (\<lambda>kv. Some (labelDim kv)) (hLabelsMap histDP)
                       @ [Some \<lparr>Key = upperBoundDimensionKey,
                                 Value = (if fst jc < length (hExplicitBounds histDP)
                                          then float64ToDimValue L (hExplicitBounds histDP ! fst jc)
                                          else infinityBoundSFxDimValue L)\<rparr>]))
                   (List.enumerate 0 (hBucketCounts histDP)) buckets)"
proof -
  let ?ts = "timestampToSignalFx (hTimestamp histDP)"
  let ?skip = "0 < length (hBucketCounts histDP)
                  \<and> length (hBucketCounts histDP) \<noteq> length (hExplicitBounds histDP) + 1"
  obtain s1 h1 where l1: "labelsToDimensions L (hLabelsMap histDP) extra h = (s1, h1)"
    by (cases "labelsToDimensions L (hLabelsMap histDP) extra h")
  obtain s2 h2 where l2: "labelsToDimensions L (hLabelsMap histDP) extra h1 = (s2, h2)"
    by (cases "labelsToDimensions L (hLabelsMap histDP) extra h1")
  obtain buckets h3 where b: "(if ?skip then ([], h2)
       else histogramBuckets L 0 (hBucketCounts histDP) (hExplicitBounds histDP) (hLabelsMap histDP)
              base ?ts extra h2) = (buckets, h3)"
    by (cases "(if ?skip then ([], h2)
       else histogramBuckets L 0 (hBucketCounts histDP) (hExplicitBounds histDP) (hLabelsMap histDP)
              base ?ts extra h2)")
  obtain out4 h4 where r: "convertIntHistogram L rest base extra h3 = (out4, h4)"
    by (cases "convertIntHistogram L rest base extra h3")
  define cnt where "cnt = base\<lparr>Metric := Metric base @ gostr ''_count'', Timestamp := ?ts,
        Dimensions := s1, PointValue := (PointValue base)\<lparr>IntValue := Some (hCount histDP)\<rparr>\<rparr>"
  define sm where "sm = base\<lparr>Timestamp := ?ts,
        Dimensions := s2, PointValue := (PointValue base)\<lparr>IntValue := Some (hSum histDP)\<rparr>\<rparr>"
  from assms(1) l1 l2 b r have o: "out = cnt # sm # buckets @ out4" and hh: "h' = h4"
    by (simp_all add: Let_def cnt_def sm_def)
  note K1 = labelsToDimensions_ok [OF l1 assms(2)]
  note W1 = wfSlice_stable [OF K1(1) assms(2)]
  note K2 = labelsToDimensions_ok [OF l2 W1(1)]
  from K1(1) K2(1) have e2: "heapExt h h2" by (rule heapExt_trans)
  note W2 = wfSlice_stable [OF e2 assms(2)]
  have p1: "pointIs h1 cnt (Metric base @ gostr ''_count'') (MetricType base) ?ts
              ((PointValue base)\<lparr>IntValue := Some (hCount histDP)\<rparr>)
              (sliceDims h extra @ map (\<lambda>kv. Some (labelDim kv)) (hLabelsMap histDP))"
    unfolding cnt_def using K1(3,4) by (rule pointIs_mk)
  have p2: "pointIs h2 sm (Metric base) (MetricType base) ?ts
              ((PointValue base)\<lparr>IntValue := Some (hSum histDP)\<rparr>)
              (sliceDims h extra @ map (\<lambda>kv. Some (labelDim kv)) (hLabelsMap histDP))"
    unfolding sm_def using K2(3) K2(4) [unfolded W1(2)] by (rule pointIs_mk2)
  have e23: "heapExt h2 h3"
    and bk: "if ?skip then buckets = []
             else list_all2 (\<lambda>jc dp. pointIs h3 dp (Metric base @ gostr ''_bucket'') (MetricType base) ?ts
                    ((PointValue base)\<lparr>IntValue := Some (snd jc)\<rparr>)
                    (sliceDims h extra @ map (\<lambda>kv. Some (labelDim kv)) (hLabelsMap histDP)
                       @ [Some \<lparr>Key = upperBoundDimensionKey,
                                 Value = (if fst jc < length (hExplicitBounds histDP)
                                          then float64ToDimValue L (hExplicitBounds histDP ! fst jc)
                                          else infinityBoundSFxDimValue L)\<rparr>]))
                   (List.enumerate 0 (hBucketCounts histDP)) buckets"
  proof (atomize (full), cases ?skip)
    case True
    with b show "heapExt h2 h3 \<and> (if ?skip then buckets = []
             else list_all2 (\<lambda>jc dp. pointIs h3 dp (Metric base @ gostr ''_bucket'') (MetricType base) ?ts
                    ((PointValue base)\<lparr>IntValue := Some (snd jc)\<rparr>)
                    (sliceDims h extra @ map (\<lambda>kv. Some (labelDim kv)) (hLabelsMap histDP)
                       @ [Some \<lparr>Key = upperBoundDimensionKey,
                                 Value = (if fst jc < length (hExplicitBounds histDP)
                                          then float64ToDimValue L (hExplicitBounds histDP ! fst jc)
                                          else infinityBoundSFxDimValue L)\<rparr>]))
                   (List.enumerate 0 (hBucketCounts histDP)) buckets)" by auto
  next
    case False
    with b have "histogramBuckets L 0 (hBucketCounts histDP) (hExplicitBounds histDP) (hLabelsMap histDP)
              base ?ts extra h2 = (buckets, h3)" by (auto split: if_splits)
    from histogramBuckets_ok [OF this W2(1)] False W2(2)
    show "heapExt h2 h3 \<and> (if ?skip then buckets = []
             else list_all2 (\<lambda>jc dp. pointIs h3 dp (Metric base @ gostr ''_bucket'') (MetricType base) ?ts
                    ((PointValue base)\<lparr>IntValue := Some (snd jc)\<rparr>)
                    (sliceDims h extra @ map (\<lambda>kv. Some (labelDim kv)) (hLabelsMap histDP)
                       @ [Some \<lparr>Key = upperBoundDimensionKey,
                                 Value = (if fst jc < length (hExplicitBounds histDP)
                                          then float64ToDimValue L (hExplicitBounds histDP ! fst jc)
                                          else infinityBoundSFxDimValue L)\<rparr>]))
                   (List.enumerate 0 (hBucketCounts histDP)) buckets)" by auto
  qed
  from K2(1) e23 have e13: "heapExt h1 h3" by (rule heapExt_trans)
  from e2 e23 have e3: "heapExt h h3" by (rule heapExt_trans)
  note q1 = pointIs_stable [OF e13 p1]
  note q2 = pointIs_stable [OF e23 p2]
  from o r hh e3 q1 q2 bk show ?thesis
    by blast
qed

lemma convertDoubleHistogram_head:
  assumes "convertDoubleHistogram L (Some histDP # rest) base extra h = (out, h')" and "wfSlice h extra"
  shows "\<exists>cnt sm buckets h3 out'.
           out = cnt # sm # buckets @ out'
         \<and> convertDoubleHistogram L rest base extra h3 = (out', h')
         \<and> heapExt h h3
         \<and> pointIs h3 cnt (Metric base @ gostr ''_count'') (MetricType base)
              (timestampToSignalFx (hTimestamp histDP))
              ((PointValue base)\<lparr>IntValue := Some (hCount histDP)\<rparr>)
              (sliceDims h extra @ map (\<lambda>kv. Some (labelDim kv)) (hLabelsMap histDP))
         \<and> pointIs h3 sm (Metric base) (MetricType base)
              (timestampToSignalFx (hTimestamp histDP))
              ((PointValue base)\<lparr>DoubleValue := Some (hSum histDP)\<rparr>)
              (sliceDims h extra @ map (\<lambda>kv. Some (labelDim kv)) (hLabelsMap histDP))
         \<and> (if 0 < length (hBucketCounts histDP)
                  \<and> length (hBucketCounts histDP) \<noteq> length (hExplicitBounds histDP) + 1
             then buckets = []
             else list_all2 (\<lambda>jc dp. pointIs h3 dp (Metric base @ gostr ''_bucket'') (MetricType base)
                    (timestampToSignalFx (hTimestamp histDP))
                    ((PointValue base)\<lparr>IntValue := Some (snd jc)\<rparr>)
                    (sliceDims h extra @ map (\<lambda>kv. Some (labelDim kv)) (hLabelsMap histDP)
                       @ [Some \<lparr>Key = upperBoundDimensionKey,
                                 Value = (if fst jc < length (hExplicitBounds histDP)
                                          then float64ToDimValue L (hExplicitBounds histDP ! fst jc)
                                          else infinityBoundSFxDimValue L)\<rparr>]))
                   (List.enumerate 0 (hBucketCounts histDP)) buckets)"
proof -
  let ?ts = "timestampToSignalFx (hTimestamp histDP)"
  let ?skip = "0 < length (hBucketCounts histDP)
                  \<and> length (hBucketCounts histDP) \<noteq> length (hExplicitBounds histDP) + 1"
  obtain s1 h1 where l1: "labelsToDimensions L (hLabelsMap histDP) extra h = (s1, h1)"
    by (cases "labelsToDimensions L (hLabelsMap histDP) extra h")
  obtain s2 h2 where l2: "labelsToDimensions L (hLabelsMap histDP) extra h1 = (s2, h2)"
    by (cases "labelsToDimensions L (hLabelsMap histDP) extra h1")
  obtain buckets h3 where b: "(if ?skip then ([], h2)
       else histogramBuckets L 0 (hBucketCounts histDP) (hExplicitBounds histDP) (hLabelsMap histDP)
              base ?ts extra h2) = (buckets, h3)"
    by (cases "(if ?skip then ([], h2)
       else histogramBuckets L 0 (hBucketCounts histDP) (hExplicitBounds histDP) (hLabelsMap histDP)
              base ?ts extra h2)")
  obtain out4 h4 where r: "convertDoubleHistogram L rest base extra h3 = (out4, h4)"
    by (cases "convertDoubleHistogram L rest base extra h3")
  define cnt where "cnt = base\<lparr>Metric := Metric base @ gostr ''_count'', Timestamp := ?ts,
        Dimensions := s1, PointValue := (PointValue base)\<lparr>IntValue := Some (hCount histDP)\<rparr>\<rparr>"
  define sm where "sm = base\<lparr>Timestamp := ?ts,
        Dimensions := s2, PointValue := (PointValue base)\<lparr>DoubleValue := Some (hSum histDP)\<rparr>\<rparr>"
  from assms(1) l1 l2 b r have o: "out = cnt # sm # buckets @ out4" and hh: "h' = h4"
    by (simp_all add: Let_def cnt_def sm_def)
  note K1 = labelsToDimensions_ok [OF l1 assms(2)]
  note W1 = wfSlice_stable [OF K1(1) assms(2)]
  note K2 = labelsToDimensions_ok [OF l2 W1(1)]
  from K1(1) K2(1) have e2: "heapExt h h2" by (rule heapExt_trans)
  note W2 = wfSlice_stable [OF e2 assms(2)]
  have p1: "pointIs h1 cnt (Metric base @ gostr ''_count'') (MetricType base) ?ts
              ((PointValue base)\<lparr>IntValue := Some (hCount histDP)\<rparr>)
              (sliceDims h extra @ map (\<lambda>kv. Some (labelDim kv)) (hLabelsMap histDP))"
    unfolding cnt_def using K1(3,4) by (rule pointIs_mk)
  have p2: "pointIs h2 sm (Metric base) (MetricType base) ?ts
              ((PointValue base)\<lparr>DoubleValue := Some (hSum histDP)\<rparr>)
              (sliceDims h extra @ map (\<lambda>kv. Some (labelDim kv)) (hLabelsMap histDP))"
    unfolding sm_def using K2(3) K2(4) [unfolded W1(2)] by (rule pointIs_mk2)
  have e23: "heapExt h2 h3"
    and bk: "if ?skip then buckets = []
             else list_all2 (\<lambda>jc dp. pointIs h3 dp (Metric base @ gostr ''_bucket'') (MetricType base) ?ts
                    ((PointValue base)\<lparr>IntValue := Some (snd jc)\<rparr>)
                    (sliceDims h extra @ map (\<lambda>kv. Some (labelDim kv)) (hLabelsMap histDP)
                       @ [Some \<lparr>Key = upperBoundDimensionKey,
                                 Value = (if fst jc < length (hExplicitBounds histDP)
                                          then float64ToDimValue L (hExplicitBounds histDP ! fst jc)
                                          else infinityBoundSFxDimValue L)\<rparr>]))
                   (List.enumerate 0 (hBucketCounts histDP)) buckets"
  proof (atomize (full), cases ?skip)
    case True
    with b show "heapExt h2 h3 \<and> (if ?skip then buckets = []
             else list_all2 (\<lambda>jc dp. pointIs h3 dp (Metric base @ gostr ''_bucket'') (MetricType base) ?ts
                    ((PointValue base)\<lparr>IntValue := Some (snd jc)\<rparr>)
                    (sliceDims h extra @ map (\<lambda>kv. Some (labelDim kv)) (hLabelsMap histDP)
                       @ [Some \<lparr>Key = upperBoundDimensionKey,
                                 Value = (if fst jc < length (hExplicitBounds histDP)
                                          then float64ToDimValue L (hExplicitBounds histDP ! fst jc)
                                          else infinityBoundSFxDimValue L)\<rparr>]))
                   (List.enumerate 0 (hBucketCounts histDP)) buckets)" by auto
  next
    case False
    with b have "histogramBuckets L 0 (hBucketCounts histDP) (hExplicitBounds histDP) (hLabelsMap histDP)
              base ?ts extra h2 = (buckets, h3)" by (auto split: if_splits)
    from histogramBuckets_ok [OF this W2(1)] False W2(2)
    show "heapExt h2 h3 \<and> (if ?skip then buckets = []
             else list_all2 (\<lambda>jc dp. pointIs h3 dp (Metric base @ gostr ''_bucket'') (MetricType base) ?ts
                    ((PointValue base)\<lparr>IntValue := Some (snd jc)\<rparr>)
                    (sliceDims h extra @ map (\<lambda>kv. Some (labelDim kv)) (hLabelsMap histDP)
                       @ [Some \<lparr>Key = upperBoundDimensionKey,
                                 Value = (if fst jc < length (hExplicitBounds histDP)
                                          then float64ToDimValue L (hExplicitBounds histDP ! fst jc)
                                          else infinityBoundSFxDimValue L)\<rparr>]))
                   (List.enumerate 0 (hBucketCounts histDP)) buckets)" by auto
  qed
  from K2(1) e23 have e13: "heapExt h1 h3" by (rule heapExt_trans)
  from e2 e23 have e3: "heapExt h h3" by (rule heapExt_trans)
  note q1 = pointIs_stable [OF e13 p1]
  note q2 = pointIs_stable [OF e23 p2]
  from o r hh e3 q1 q2 bk show ?thesis
    by blast
qed

lemma histogramBuckets_frame:
  assumes "histogramBuckets L j counts bounds labels base ts extra h = (out, h')"
  shows "heapExt h h' \<and> (\<forall>dp \<in> set out. length (ptrArrays h) \<le> sarr (Dimensions dp))"
  using assms
proof (induction counts arbitrary: j h out h')
  case Nil
  then show ?case by simp
next
  case (Cons c counts)
  let ?ub = "\<lparr>Key = upperBoundDimensionKey,
       Value = (if j < length bounds then float64ToDimValue L (bounds ! j) else infinityBoundSFxDimValue L)\<rparr>"
  obtain s1 h1 where l: "labelsToDimensions L labels extra h = (s1, h1)"
    by (cases "labelsToDimensions L labels extra h")
  obtain s3 h3 where a: "appendSlice L s1 (length (dimObjs h1)) (h1\<lparr>dimObjs := dimObjs h1 @ [?ub]\<rparr>) = (s3, h3)"
    by (cases "appendSlice L s1 (length (dimObjs h1)) (h1\<lparr>dimObjs := dimObjs h1 @ [?ub]\<rparr>)")
  obtain out4 h4 where r: "histogramBuckets L (j + 1) counts bounds labels base ts extra h3 = (out4, h4)"
    by (cases "histogramBuckets L (j + 1) counts bounds labels base ts extra h3")
  from Cons.prems l a r have o: "out = base\<lparr>Metric := Metric base @ gostr ''_bucket'',
                         Timestamp := ts, Dimensions := s3,
                         PointValue := (PointValue base)\<lparr>IntValue := Some c\<rparr>\<rparr> # out4"
    and hh: "h' = h4" by (simp_all add: newDimension_def)
  note F = labelsToDimensions_frame [OF l]
  from F have p1: "prefix (ptrArrays h) (ptrArrays (h1\<lparr>dimObjs := dimObjs h1 @ [?ub]\<rparr>))"
    by (simp add: heapExt_def)
  from F have l1: "length (ptrArrays h) \<le> sarr s1" by simp
  note A = appendSlice_frame [OF a p1 l1]
  have "dimObjs h3 = dimObjs h1 @ [?ub]"
    using a by (auto simp: appendSlice_def Let_def split: if_splits)
  with F have "prefix (dimObjs h) (dimObjs h3)" by (simp add: heapExt_def)
  with A(1) have e3: "heapExt h h3" by (simp add: heapExt_def)
  from Cons.IH [OF r] have IH1: "heapExt h3 h4"
    and IH2: "\<forall>dp \<in> set out4. length (ptrArrays h3) \<le> sarr (Dimensions dp)" by blast+
  from e3 IH1 have e: "heapExt h h4" by (rule heapExt_trans)
  from heapExt_length(2) [OF e3] IH2 have "\<forall>dp \<in> set out4. length (ptrArrays h) \<le> sarr (Dimensions dp)"
    by fastforce
  with A(2) e show ?case by (simp add: o hh)
qed

lemma convertIntDatapoints_frame:
  assumes "convertIntDatapoints L dps base extra h = (out, h')"
  shows "heapExt h h' \<and> (\<forall>dp \<in> set out. length (ptrArrays h) \<le> sarr (Dimensions dp))"
  using assms
proof (induction dps arbitrary: h out h')
  case Nil
  then show ?case by simp
next
  case (Cons x dps)
  show ?case
  proof (cases x)
    case None
    with Cons show ?thesis by simp
  next
    case (Some inDp)
    obtain s1 h1 where l: "labelsToDimensions L (dpLabelsMap inDp) extra h = (s1, h1)"
      by (cases "labelsToDimensions L (dpLabelsMap inDp) extra h")
    obtain out2 h2 where r: "convertIntDatapoints L dps base extra h1 = (out2, h2)"
      by (cases "convertIntDatapoints L dps base extra h1")
    from Cons.prems Some l r have o: "Dimensions (hd out) = s1" "tl out = out2" "out \<noteq> []"
      and hh: "h' = h2" by auto
    note F = labelsToDimensions_frame [OF l]
    from Cons.IH [OF r] have IH1: "heapExt h1 h2"
      and IH2: "\<forall>dp \<in> set out2. length (ptrArrays h1) \<le> sarr (Dimensions dp)" by blast+
    from F IH1 have e: "heapExt h h2" by (blast intro: heapExt_trans)
    from F heapExt_length(2) [of h h1] IH2
    have "\<forall>dp \<in> set out2. length (ptrArrays h) \<le> sarr (Dimensions dp)" by fastforce
    with F o have "\<forall>dp \<in> set out. length (ptrArrays h) \<le> sarr (Dimensions dp)"
      by (cases out) auto
    with e show ?thesis by (simp add: hh)
  qed
qed

lemma convertDoubleDatapoints_frame:
  assumes "convertDoubleDatapoints L dps base extra h = (out, h')"
  shows "heapExt h h' \<and> (\<forall>dp \<in> set out. length (ptrArrays h) \<le> sarr (Dimensions dp))"
  using assms
proof (induction dps arbitrary: h out h')
  case Nil
  then show ?case by simp
next
  case (Cons x dps)
  show ?case
  proof (cases x)
    case None
    with Cons show ?thesis by simp
  next
    case (Some inDp)
    obtain s1 h1 where l: "labelsToDimensions L (dpLabelsMap inDp) extra h = (s1, h1)"
      by (cases "labelsToDimensions L (dpLabelsMap inDp) extra h")
    obtain out2 h2 where r: "convertDoubleDatapoints L dps base extra h1 = (out2, h2)"
      by (cases "convertDoubleDatapoints L dps base extra h1")
    from Cons.prems Some l r have o: "Dimensions (hd out) = s1" "tl out = out2" "out \<noteq> []"
      and hh: "h' = h2" by auto
    note F = labelsToDimensions_frame [OF l]
    from Cons.IH [OF r] have IH1: "heapExt h1 h2"
      and IH2: "\<forall>dp \<in> set out2. length (ptrArrays h1) \<le> sarr (Dimensions dp)" by blast+
    from F IH1 have e: "heapExt h h2" by (blast intro: heapExt_trans)
    from F heapExt_length(2) [of h h1] IH2
    have "\<forall>dp \<in> set out2. length (ptrArrays h) \<le> sarr (Dimensions dp)" by fastforce
    with F o have "\<forall>dp \<in> set out. length (ptrArrays h) \<le> sarr (Dimensions dp)"
      by (cases out) auto
    with e show ?thesis by (simp add: hh)
  qed
qed

subsection \<open>Histogram conversion keeps the store and composes\<close>

lemma fresh_mono:
  assumes "heapExt h h1" and "\<forall>dp \<in> set out. length (ptrArrays h1) \<le> sarr (Dimensions dp)"
  shows "\<forall>dp \<in> set out. length (ptrArrays h) \<le> sarr (Dimensions dp)"
  using heapExt_length(2) [OF assms(1)] assms(2) by fastforce

lemma convertIntHistogram_frame:
  assumes "convertIntHistogram L dps base extra h = (out, h')"
  shows "heapExt h h' \<and> (\<forall>dp \<in> set out. length (ptrArrays h) \<le> sarr (Dimensions dp))"
  using assms
proof (induction dps arbitrary: h out h')
  case Nil
  then show ?case by simp
next
  case (Cons x dps)
  show ?case
  proof (cases x)
    case None
    with Cons show ?thesis by simp
  next
    case (Some histDP)
    let ?ts = "timestampToSignalFx (hTimestamp histDP)"
    let ?skip = "0 < length (hBucketCounts histDP)
                  \<and> length (hBucketCounts histDP) \<noteq> length (hExplicitBounds histDP) + 1"
    obtain s1 h1 where l1: "labelsToDimensions L (hLabelsMap histDP) extra h = (s1, h1)"
      by (cases "labelsToDimensions L (hLabelsMap histDP) extra h")
    obtain s2 h2 where l2: "labelsToDimensions L (hLabelsMap histDP) extra h1 = (s2, h2)"
      by (cases "labelsToDimensions L (hLabelsMap histDP) extra h1")
    obtain buckets h3 where b: "(if ?skip then ([], h2)
       else histogramBuckets L 0 (hBucketCounts histDP) (hExplicitBounds histDP) (hLabelsMap histDP)
              base ?ts extra h2) = (buckets, h3)"
      by (cases "(if ?skip then ([], h2)
       else histogramBuckets L 0 (hBucketCounts histDP) (hExplicitBounds histDP) (hLabelsMap histDP)
              base ?ts extra h2)")
    obtain out4 h4 where r: "convertIntHistogram L dps base extra h3 = (out4, h4)"
      by (cases "convertIntHistogram L dps base extra h3")
    define cnt where "cnt = base\<lparr>Metric := Metric base @ gostr ''_count'', Timestamp := ?ts,
        Dimensions := s1, PointValue := (PointValue base)\<lparr>IntValue := Some (hCount histDP)\<rparr>\<rparr>"
    define sm where "sm = base\<lparr>Timestamp := ?ts,
        Dimensions := s2, PointValue := (PointValue base)\<lparr>IntValue := Some (hSum histDP)\<rparr>\<rparr>"
    from Cons.prems Some l1 l2 b r have o: "out = cnt # sm # buckets @ out4" and hh: "h' = h4"
      by (simp_all add: Let_def cnt_def sm_def)
    have c: "Dimensions cnt = s1" and s: "Dimensions sm = s2" by (simp_all add: cnt_def sm_def)
    note F1 = labelsToDimensions_frame [OF l1]
    note F2 = labelsToDimensions_frame [OF l2]
    have F3: "heapExt h2 h3 \<and> (\<forall>dp \<in> set buckets. length (ptrArrays h2) \<le> sarr (Dimensions dp))"
    proof (cases ?skip)
      case True
      with b show ?thesis by auto
    next
      case False
      with b have "histogramBuckets L 0 (hBucketCounts histDP) (hExplicitBounds histDP) (hLabelsMap histDP)
              base ?ts extra h2 = (buckets, h3)" by (auto split: if_splits)
      then show ?thesis by (rule histogramBuckets_frame)
    qed
    note F4 = Cons.IH [OF r]
    from F1 F2 have e2: "heapExt h h2" by (blast intro: heapExt_trans)
    from e2 F3 have e3: "heapExt h h3" by (blast intro: heapExt_trans)
    from e3 F4 have e4: "heapExt h h4" by (blast intro: heapExt_trans)
    from F1 c have f1: "length (ptrArrays h) \<le> sarr (Dimensions cnt)" by simp
    from F1 F2 s heapExt_length(2) [of h h1] have f2: "length (ptrArrays h) \<le> sarr (Dimensions sm)" by simp
    from F3 have f3: "\<forall>dp \<in> set buckets. length (ptrArrays h) \<le> sarr (Dimensions dp)"
      using fresh_mono [OF e2] by blast
    from F4 have f4: "\<forall>dp \<in> set out4. length (ptrArrays h) \<le> sarr (Dimensions dp)"
      using fresh_mono [OF e3] by blast
    from e4 f1 f2 f3 f4 show ?thesis by (auto simp: o hh)
  qed
qed

lemma convertDoubleHistogram_frame:
  assumes "convertDoubleHistogram L dps base extra h = (out, h')"
  shows "heapExt h h' \<and> (\<forall>dp \<in> set out. length (ptrArrays h) \<le> sarr (Dimensions dp))"
  using assms
proof (induction dps arbitrary: h out h')
  case Nil
  then show ?case by simp
next
  case (Cons x dps)
  show ?case
  proof (cases x)
    case None
    with Cons show ?thesis by simp
  next
    case (Some histDP)
    let ?ts = "timestampToSignalFx (hTimestamp histDP)"
    let ?skip = "0 < length (hBucketCounts histDP)
                  \<and> length (hBucketCounts histDP) \<noteq> length (hExplicitBounds histDP) + 1"
    obtain s1 h1 where l1: "labelsToDimensions L (hLabelsMap histDP) extra h = (s1, h1)"
      by (cases "labelsToDimensions L (hLabelsMap histDP) extra h")
    obtain s2 h2 where l2: "labelsToDimensions L (hLabelsMap histDP) extra h1 = (s2, h2)"
      by (cases "labelsToDimensions L (hLabelsMap histDP) extra h1")
    obtain buckets h3 where b: "(if ?skip then ([], h2)
       else histogramBuckets L 0 (hBucketCounts histDP) (hExplicitBounds histDP) (hLabelsMap histDP)
              base ?ts extra h2) = (buckets, h3)"
      by (cases "(if ?skip then ([], h2)
       else histogramBuckets L 0 (hBucketCounts histDP) (hExplicitBounds histDP) (hLabelsMap histDP)
              base ?ts extra h2)")
    obtain out4 h4 where r: "convertDoubleHistogram L dps base extra h3 = (out4, h4)"
      by (cases "convertDoubleHistogram L dps base extra h3")
    define cnt where "cnt = base\<lparr>Metric := Metric base @ gostr ''_count'', Timestamp := ?ts,
        Dimensions := s1, PointValue := (PointValue base)\<lparr>IntValue := Some (hCount histDP)\<rparr>\<rparr>"
    define sm where "sm = base\<lparr>Timestamp := ?ts,
        Dimensions := s2, PointValue := (PointValue base)\<lparr>DoubleValue := Some (hSum histDP)\<rparr>\<rparr>"
    from Cons.prems Some l1 l2 b r have o: "out = cnt # sm # buckets @ out4" and hh: "h' = h4"
      by (simp_all add: Let_def cnt_def sm_def)
    have c: "Dimensions cnt = s1" and s: "Dimensions sm = s2" by (simp_all add: cnt_def sm_def)
    note F1 = labelsToDimensions_frame [OF l1]
    note F2 = labelsToDimensions_frame [OF l2]
    have F3: "heapExt h2 h3 \<and> (\<forall>dp \<in> set buckets. length (ptrArrays h2) \<le> sarr (Dimensions dp))"
    proof (cases ?skip)
      case True
      with b show ?thesis by auto
    next
      case False
      with b have "histogramBuckets L 0 (hBucketCounts histDP) (hExplicitBounds histDP) (hLabelsMap histDP)
              base ?ts extra h2 = (buckets, h3)" by (auto split: if_splits)
      then show ?thesis by (rule histogramBuckets_frame)
    qed
    note F4 = Cons.IH [OF r]
    from F1 F2 have e2: "heapExt h h2" by (blast intro: heapExt_trans)
    from e2 F3 have e3: "heapExt h h3" by (blast intro: heapExt_trans)
    from e3 F4 have e4: "heapExt h h4" by (blast intro: heapExt_trans)
    from F1 c have f1: "length (ptrArrays h) \<le> sarr (Dimensions cnt)" by simp
    from F1 F2 s heapExt_length(2) [of h h1] have f2: "length (ptrArrays h) \<le> sarr (Dimensions sm)" by simp
    from F3 have f3: "\<forall>dp \<in> set buckets. length (ptrArrays h) \<le> sarr (Dimensions dp)"
      using fresh_mono [OF e2] by blast
    from F4 have f4: "\<forall>dp \<in> set out4. length (ptrArrays h) \<le> sarr (Dimensions dp)"
      using fresh_mono [OF e3] by blast
    from e4 f1 f2 f3 f4 show ?thesis by (auto simp: o hh)
  qed
qed

lemma convertIntHistogram_append:
  "convertIntHistogram L (xs @ ys) base extra h =
     (case convertIntHistogram L xs base extra h of
        (o1, h1) \<Rightarrow> (case convertIntHistogram L ys base extra h1 of (o2, h2) \<Rightarrow> (o1 @ o2, h2)))"
proof (induction xs arbitrary: h)
  case Nil
  then show ?case by simp
next
  case (Cons x xs)
  show ?case
  proof (cases x)
    case None
    with Cons show ?thesis by simp
  next
    case (Some histDP)
    with Cons show ?thesis by (simp add: Let_def split: prod.splits)
  qed
qed

lemma convertDoubleHistogram_append:
  "convertDoubleHistogram L (xs @ ys) base extra h =
     (case convertDoubleHistogram L xs base extra h of
        (o1, h1) \<Rightarrow> (case convertDoubleHistogram L ys base extra h1 of (o2, h2) \<Rightarrow> (o1 @ o2, h2)))"
proof (induction xs arbitrary: h)
  case Nil
  then show ?case by simp
next
  case (Cons x xs)
  show ?case
  proof (cases x)
    case None
    with Cons show ?thesis by simp
  next
    case (Some histDP)
    with Cons show ?thesis by (simp add: Let_def split: prod.splits)
  qed
qed

subsection \<open>Dimensions of the resource\<close>

lemma wfSlice_nil [simp]: "wfSlice h nilSlice"
  by (simp add: wfSlice_iff nilSlice_def sliceElems_def)

lemma sliceDims_nil [simp]: "sliceDims h nilSlice = []"
  by (simp add: sliceDims_def nilSlice_def sliceElems_def)

lemma attributesForEach_ok:
  assumes "attributesForEach L keep attrs s h = (s', h')" and "wfSlice h s"
  shows "wfSlice h' s' \<and>
         sliceDims h' s' = sliceDims h s
            @ map (\<lambda>kv. Some (attrDim L kv))
                (filter (\<lambda>kv. fst kv \<noteq> SFxAccessTokenLabel \<and> keep (fst kv)) attrs)"
  using assms
proof (induction attrs arbitrary: s h)
  case Nil
  then show ?case by simp
next
  case (Cons kv attrs)
  obtain k v where kv: "kv = (k, v)" by (cases kv)
  show ?case
  proof (cases "k \<noteq> SFxAccessTokenLabel \<and> keep k")
    case False
    with Cons.prems kv have "attributesForEach L keep attrs s h = (s', h')" by (auto split: if_splits)
    from Cons.IH [OF this Cons.prems(2)] False kv show ?thesis by auto
  next
    case True
    obtain d h1 where n: "newDimension (attrDim L kv) h = (d, h1)"
      by (cases "newDimension (attrDim L kv) h")
    obtain s2 h2 where a: "appendSlice L s d h1 = (s2, h2)" by (cases "appendSlice L s d h1")
    from Cons.prems(1) True kv n a have r: "attributesForEach L keep attrs s2 h2 = (s', h')"
      by (simp add: attrDim_def)
    note N = newDimension_append [OF n a Cons.prems(2)]
    from Cons.IH [OF r N(2)] N(1) True kv show ?thesis by simp
  qed
qed

lemma key_consts_distinct:
  "AttributeCloudProviderAWS \<noteq> AttributeCloudProviderGCP"
  "AttributeCloudRegion \<noteq> AttributeCloudAccount"
  "AttributeCloudRegion \<noteq> AttributeHostID"
  "AttributeCloudRegion \<noteq> AttributeCloudProvider"
  "AttributeCloudRegion \<noteq> SFxAccessTokenLabel"
  "gostr ''AWSUniqueId'' \<noteq> SFxAccessTokenLabel"
  "gostr ''gcp_id'' \<noteq> SFxAccessTokenLabel"
  by (simp_all add: AttributeCloudProviderAWS_def AttributeCloudProviderGCP_def AttributeCloudRegion_def
      AttributeCloudAccount_def AttributeHostID_def AttributeCloudProvider_def SFxAccessTokenLabel_def gostr_def)

lemma cloudDimension_aws:
  assumes "cloudDimension L attrs h = (keep, s, h1)"
    and "getStringAttr attrs AttributeCloudProvider = AttributeCloudProviderAWS"
    and "getStringAttr attrs AttributeCloudAccount \<noteq> []"
    and "getStringAttr attrs AttributeCloudRegion \<noteq> []"
    and "getStringAttr attrs AttributeHostID \<noteq> []"
  shows "wfSlice h1 s"
    and "sliceDims h1 s = [Some \<lparr>Key = gostr ''AWSUniqueId'',
            Value = getStringAttr attrs AttributeHostID @ gostr ''_''
                    @ getStringAttr attrs AttributeCloudRegion @ gostr ''_''
                    @ getStringAttr attrs AttributeCloudAccount\<rparr>]"
    and "keep = (\<lambda>k. k \<noteq> AttributeCloudAccount \<and> k \<noteq> AttributeCloudRegion
                      \<and> k \<noteq> AttributeHostID \<and> k \<noteq> AttributeCloudProvider)"
proof -
  let ?d = "\<lparr>Key = gostr ''AWSUniqueId'',
            Value = getStringAttr attrs AttributeHostID @ gostr ''_''
                    @ getStringAttr attrs AttributeCloudRegion @ gostr ''_''
                    @ getStringAttr attrs AttributeCloudAccount\<rparr>"
  obtain p h0 where n: "newDimension ?d h = (p, h0)" by (cases "newDimension ?d h")
  obtain s2 h2 where a: "appendSlice L nilSlice p h0 = (s2, h2)" by (cases "appendSlice L nilSlice p h0")
  from assms n a have e: "s = s2" "h1 = h2"
    and k: "keep = (\<lambda>k. k \<noteq> AttributeCloudAccount \<and> k \<noteq> AttributeCloudRegion
                      \<and> k \<noteq> AttributeHostID \<and> k \<noteq> AttributeCloudProvider)"
    by (simp_all add: cloudDimension_def Let_def)
  note N = newDimension_append [OF n a wfSlice_nil]
  from N e show "wfSlice h1 s" by simp
  from N e show "sliceDims h1 s = [Some ?d]" by simp
  from k show "keep = (\<lambda>k. k \<noteq> AttributeCloudAccount \<and> k \<noteq> AttributeCloudRegion
                      \<and> k \<noteq> AttributeHostID \<and> k \<noteq> AttributeCloudProvider)" .
qed

lemma cloudDimension_gcp:
  assumes "cloudDimension L attrs h = (keep, s, h1)"
    and "getStringAttr attrs AttributeCloudProvider = AttributeCloudProviderGCP"
    and "getStringAttr attrs AttributeCloudAccount \<noteq> []"
    and "getStringAttr attrs AttributeHostID \<noteq> []"
  shows "wfSlice h1 s"
    and "sliceDims h1 s = [Some \<lparr>Key = gostr ''gcp_id'',
            Value = getStringAttr attrs AttributeCloudAccount @ gostr ''_''
                    @ getStringAttr attrs AttributeHostID\<rparr>]"
    and "keep = (\<lambda>k. k \<noteq> AttributeCloudAccount \<and> k \<noteq> AttributeHostID \<and> k \<noteq> AttributeCloudProvider)"
proof -
  let ?d = "\<lparr>Key = gostr ''gcp_id'',
            Value = getStringAttr attrs AttributeCloudAccount @ gostr ''_''
                    @ getStringAttr attrs AttributeHostID\<rparr>"
  obtain p h0 where n: "newDimension ?d h = (p, h0)" by (cases "newDimension ?d h")
  obtain s2 h2 where a: "appendSlice L nilSlice p h0 = (s2, h2)" by (cases "appendSlice L nilSlice p h0")
  from assms n a key_consts_distinct(1) have e: "s = s2" "h1 = h2"
    and k: "keep = (\<lambda>k. k \<noteq> AttributeCloudAccount \<and> k \<noteq> AttributeHostID \<and> k \<noteq> AttributeCloudProvider)"
    by (simp_all add: cloudDimension_def Let_def)
  note N = newDimension_append [OF n a wfSlice_nil]
  from N e show "wfSlice h1 s" by simp
  from N e show "sliceDims h1 s = [Some ?d]" by simp
  from k show "keep = (\<lambda>k. k \<noteq> AttributeCloudAccount \<and> k \<noteq> AttributeHostID \<and> k \<noteq> AttributeCloudProvider)" .
qed

lemma cloudDimension_any:
  assumes "cloudDimension L attrs h = (keep, s, h1)"
  shows "wfSlice h1 s \<and>
         (sliceDims h1 s = []
          \<or> (\<exists>v. sliceDims h1 s = [Some \<lparr>Key = gostr ''AWSUniqueId'', Value = v\<rparr>])
          \<or> (\<exists>v. sliceDims h1 s = [Some \<lparr>Key = gostr ''gcp_id'', Value = v\<rparr>]))"
proof -
  let ?aws = "getStringAttr attrs AttributeCloudProvider = AttributeCloudProviderAWS
      \<and> getStringAttr attrs AttributeCloudAccount \<noteq> []
      \<and> getStringAttr attrs AttributeCloudRegion \<noteq> []
      \<and> getStringAttr attrs AttributeHostID \<noteq> []"
  let ?gcp = "getStringAttr attrs AttributeCloudProvider = AttributeCloudProviderGCP
      \<and> getStringAttr attrs AttributeCloudAccount \<noteq> []
      \<and> getStringAttr attrs AttributeHostID \<noteq> []"
  consider (aws) ?aws | (gcp) ?gcp | (none) "\<not> ?aws \<and> \<not> ?gcp" by blast
  then show ?thesis
  proof cases
    case aws
    with cloudDimension_aws [OF assms] show ?thesis by simp
  next
    case gcp
    with cloudDimension_gcp [OF assms] show ?thesis by simp
  next
    case none
    with assms have "s = nilSlice" by (auto simp: cloudDimension_def Let_def split: if_splits)
    then show ?thesis by simp
  qed
qed

lemma resourceAttributesToDimensions_ok:
  assumes "resourceAttributesToDimensions L attrs h = (s', h')"
  shows "wfSlice h' s'"
    and "None \<notin> set (sliceDims h' s')"
    and "\<forall>d. Some d \<in> set (sliceDims h' s') \<longrightarrow> Key d \<noteq> SFxAccessTokenLabel"
proof -
  obtain keep s h1 where c: "cloudDimension L attrs h = (keep, s, h1)"
    by (cases "cloudDimension L attrs h")
  with assms have a: "attributesForEach L keep attrs s h1 = (s', h')"
    by (simp add: resourceAttributesToDimensions_def)
  note C = cloudDimension_any [OF c]
  from C have w: "wfSlice h1 s" by simp
  note A = attributesForEach_ok [OF a w]
  from A show "wfSlice h' s'" by simp
  from A C show "None \<notin> set (sliceDims h' s')" by auto
  from A C key_consts_distinct(6,7)
  show "\<forall>d. Some d \<in> set (sliceDims h' s') \<longrightarrow> Key d \<noteq> SFxAccessTokenLabel"
    by (auto simp: attrDim_def)
qed

subsection \<open>The key sanitizer on the store\<close>

lemma sanitizeKey_idem: "sanitizeKey L (sanitizeKey L d) = sanitizeKey L d"
  by (simp add: sanitizeKey_def filterKeyChars_idem)

lemma sanitizeDimensions_aux:
  assumes "sanitizeDimensions L ps h = Some h'"
  shows "ptrArrays h' = ptrArrays h \<and> length (dimObjs h') = length (dimObjs h)
       \<and> (\<forall>e \<in> set ps. \<exists>p. e = Some p \<and> p < length (dimObjs h))
       \<and> (\<forall>i < length (dimObjs h). dimObjs h' ! i =
             (if Some i \<in> set ps then sanitizeKey L (dimObjs h ! i) else dimObjs h ! i))"
  using assms
proof (induction ps arbitrary: h)
  case Nil
  then show ?case by simp
next
  case (Cons e ps)
  from Cons.prems obtain p where e: "e = Some p" and p: "p < length (dimObjs h)"
    by (auto split: option.splits if_splits)
  define h1 where "h1 = h\<lparr>dimObjs := (dimObjs h)[p := sanitizeKey L (dimObjs h ! p)]\<rparr>"
  from Cons.prems e p have r: "sanitizeDimensions L ps h1 = Some h'"
    by (simp add: h1_def sanitizeKey_def)
  note IH = Cons.IH [OF r, THEN conjunct1] Cons.IH [OF r, THEN conjunct2, THEN conjunct1]
     Cons.IH [OF r, THEN conjunct2, THEN conjunct2, THEN conjunct1]
     Cons.IH [OF r, THEN conjunct2, THEN conjunct2, THEN conjunct2]
  have "\<forall>i < length (dimObjs h). dimObjs h' ! i =
             (if Some i \<in> set (e # ps) then sanitizeKey L (dimObjs h ! i) else dimObjs h ! i)"
  proof (intro allI impI)
    fix i assume i: "i < length (dimObjs h)"
    then have "i < length (dimObjs h1)" by (simp add: h1_def)
    with IH(4) have s: "dimObjs h' ! i =
             (if Some i \<in> set ps then sanitizeKey L (dimObjs h1 ! i) else dimObjs h1 ! i)" by blast
    show "dimObjs h' ! i =
             (if Some i \<in> set (e # ps) then sanitizeKey L (dimObjs h ! i) else dimObjs h ! i)"
    proof (cases "i = p")
      case True
      with s i show ?thesis by (simp add: h1_def e sanitizeKey_idem)
    next
      case False
      with s i show ?thesis by (simp add: h1_def e)
    qed
  qed
  moreover from IH(1,2) have "ptrArrays h' = ptrArrays h" "length (dimObjs h') = length (dimObjs h)"
    by (simp_all add: h1_def)
  moreover from IH(3) have "\<forall>e \<in> set ps. \<exists>p. e = Some p \<and> p < length (dimObjs h)"
    by (simp add: h1_def)
  ultimately show ?case using e p by simp
qed

lemma sanitizeDimensions_spec:
  assumes "sanitizeDimensions L ps h = Some h'"
  shows "ptrArrays h' = ptrArrays h" and "length (dimObjs h') = length (dimObjs h)"
    and "\<forall>e \<in> set ps. \<exists>p. e = Some p \<and> p < length (dimObjs h)"
    and "\<forall>i < length (dimObjs h). dimObjs h' ! i =
             (if Some i \<in> set ps then sanitizeKey L (dimObjs h ! i) else dimObjs h ! i)"
  using sanitizeDimensions_aux [OF assms] by blast+

lemma sanitizeDimensions_total:
  assumes "\<forall>e \<in> set ps. \<exists>p. e = Some p \<and> p < length (dimObjs h)"
  shows "\<exists>h'. sanitizeDimensions L ps h = Some h'"
  using assms
proof (induction ps arbitrary: h)
  case Nil
  then show ?case by simp
next
  case (Cons e ps)
  from Cons.prems obtain p where e: "e = Some p" and p: "p < length (dimObjs h)" by auto
  let ?h1 = "h\<lparr>dimObjs := (dimObjs h)[p := (dimObjs h ! p)\<lparr>Key := filterKeyChars L (Key (dimObjs h ! p))\<rparr>]\<rparr>"
  from Cons.prems have "\<forall>e \<in> set ps. \<exists>p. e = Some p \<and> p < length (dimObjs ?h1)" by simp
  from Cons.IH [OF this] e p show ?case by simp
qed

lemma sliceDims_valid:
  "None \<notin> set (sliceDims h s) \<longleftrightarrow> (\<forall>e \<in> set (sliceElems h s). \<exists>p. e = Some p \<and> p < length (dimObjs h))"
  by (auto simp: sliceDims_def loadDim_def image_iff split: option.splits if_splits)

lemma sliceElems_cong: "ptrArrays h' = ptrArrays h \<Longrightarrow> sliceElems h' s = sliceElems h s"
  by (simp add: sliceElems_def arrayAt_def)

lemma sliceDims_valid_cong:
  "ptrArrays h' = ptrArrays h \<Longrightarrow> length (dimObjs h') = length (dimObjs h) \<Longrightarrow>
   None \<notin> set (sliceDims h' s) \<longleftrightarrow> None \<notin> set (sliceDims h s)"
  using sliceElems_cong [of h' h s] by (simp add: sliceDims_valid)

lemma sanitizeDataPointDimensions_aux:
  assumes "sanitizeDataPointDimensions L dps h = Some h'"
  shows "ptrArrays h' = ptrArrays h \<and> length (dimObjs h') = length (dimObjs h)
       \<and> (\<forall>dp \<in> set dps. None \<notin> set (sliceDims h (Dimensions dp)))
       \<and> (\<forall>i < length (dimObjs h). dimObjs h' ! i =
             (if \<exists>dp \<in> set dps. Some i \<in> set (sliceElems h (Dimensions dp))
              then sanitizeKey L (dimObjs h ! i) else dimObjs h ! i))"
  using assms
proof (induction dps arbitrary: h)
  case Nil
  then show ?case by simp
next
  case (Cons dp dps)
  from Cons.prems obtain h1 where s1: "sanitizeDimensions L (sliceElems h (Dimensions dp)) h = Some h1"
    and r: "sanitizeDataPointDimensions L dps h1 = Some h'"
    by (auto split: option.splits)
  note S = sanitizeDimensions_spec [OF s1]
  note IH = Cons.IH [OF r, THEN conjunct1] Cons.IH [OF r, THEN conjunct2, THEN conjunct1]
     Cons.IH [OF r, THEN conjunct2, THEN conjunct2, THEN conjunct1]
     Cons.IH [OF r, THEN conjunct2, THEN conjunct2, THEN conjunct2]
  from S have a: "ptrArrays h1 = ptrArrays h" and l: "length (dimObjs h1) = length (dimObjs h)" by simp_all
  have el: "\<And>s. sliceElems h1 s = sliceElems h s" using a by (rule sliceElems_cong)
  have v0: "None \<notin> set (sliceDims h (Dimensions dp))" using S(3) by (simp add: sliceDims_valid)
  have v: "\<forall>dp \<in> set dps. None \<notin> set (sliceDims h (Dimensions dp))"
    using IH(3) sliceDims_valid_cong [OF a l] by simp
  have "\<forall>i < length (dimObjs h). dimObjs h' ! i =
             (if \<exists>dp' \<in> set (dp # dps). Some i \<in> set (sliceElems h (Dimensions dp'))
              then sanitizeKey L (dimObjs h ! i) else dimObjs h ! i)"
  proof (intro allI impI)
    fix i assume i: "i < length (dimObjs h)"
    with IH(4) l have s: "dimObjs h' ! i =
             (if \<exists>dp' \<in> set dps. Some i \<in> set (sliceElems h (Dimensions dp'))
              then sanitizeKey L (dimObjs h1 ! i) else dimObjs h1 ! i)" by (simp add: el)
    from S(4) i have t: "dimObjs h1 ! i =
             (if Some i \<in> set (sliceElems h (Dimensions dp)) then sanitizeKey L (dimObjs h ! i) else dimObjs h ! i)"
      by blast
    from s t show "dimObjs h' ! i =
             (if \<exists>dp' \<in> set (dp # dps). Some i \<in> set (sliceElems h (Dimensions dp'))
              then sanitizeKey L (dimObjs h ! i) else dimObjs h ! i)"
      by (auto simp: sanitizeKey_idem)
  qed
  moreover from IH(1,2) a l have "ptrArrays h' = ptrArrays h" "length (dimObjs h') = length (dimObjs h)"
    by simp_all
  ultimately show ?case using v0 v by simp
qed

lemma sanitizeDataPointDimensions_spec:
  assumes "sanitizeDataPointDimensions L dps h = Some h'"
  shows "ptrArrays h' = ptrArrays h" and "length (dimObjs h') = length (dimObjs h)"
    and "\<forall>dp \<in> set dps. None \<notin> set (sliceDims h (Dimensions dp))"
    and "\<forall>i < length (dimObjs h). dimObjs h' ! i =
             (if \<exists>dp \<in> set dps. Some i \<in> set (sliceElems h (Dimensions dp))
              then sanitizeKey L (dimObjs h ! i) else dimObjs h ! i)"
  using sanitizeDataPointDimensions_aux [OF assms] by blast+

lemma sanitizeDataPointDimensions_total:
  assumes "\<forall>dp \<in> set dps. None \<notin> set (sliceDims h (Dimensions dp))"
  shows "\<exists>h'. sanitizeDataPointDimensions L dps h = Some h'"
  using assms
proof (induction dps arbitrary: h)
  case Nil
  then show ?case by simp
next
  case (Cons dp dps)
  from Cons.prems have "\<forall>e \<in> set (sliceElems h (Dimensions dp)). \<exists>p. e = Some p \<and> p < length (dimObjs h)"
    by (simp add: sliceDims_valid)
  from sanitizeDimensions_total [OF this]
  obtain h1 where s1: "sanitizeDimensions L (sliceElems h (Dimensions dp)) h = Some h1" by blast
  note S = sanitizeDimensions_spec [OF s1]
  from S(1,2) have a: "ptrArrays h1 = ptrArrays h" and l: "length (dimObjs h1) = length (dimObjs h)" by simp_all
  from Cons.prems sliceDims_valid_cong [OF a l]
  have "\<forall>dp \<in> set dps. None \<notin> set (sliceDims h1 (Dimensions dp))" by simp
  from Cons.IH [OF this] s1 show ?case by simp
qed

lemma sanitizeDataPointDimensions_dims:
  assumes "sanitizeDataPointDimensions L dps h = Some h'" and "dp \<in> set dps"
  shows "sliceDims h' (Dimensions dp) = map (map_option (sanitizeKey L)) (sliceDims h (Dimensions dp))"
proof -
  note S = sanitizeDataPointDimensions_spec [OF assms(1)]
  from S(1) have el: "sliceElems h' (Dimensions dp) = sliceElems h (Dimensions dp)"
    by (rule sliceElems_cong)
  from S(3) assms(2) have v: "\<forall>e \<in> set (sliceElems h (Dimensions dp)). \<exists>p. e = Some p \<and> p < length (dimObjs h)"
    by (simp add: sliceDims_valid)
  have "map (loadDim h') (sliceElems h (Dimensions dp))
        = map (\<lambda>e. map_option (sanitizeKey L) (loadDim h e)) (sliceElems h (Dimensions dp))"
  proof (rule map_cong [OF refl])
    fix e assume e: "e \<in> set (sliceElems h (Dimensions dp))"
    with v obtain p where p: "e = Some p" "p < length (dimObjs h)" by blast
    from S(4) p(2) have "dimObjs h' ! p =
             (if \<exists>dp \<in> set dps. Some p \<in> set (sliceElems h (Dimensions dp))
              then sanitizeKey L (dimObjs h ! p) else dimObjs h ! p)" by blast
    moreover from e p(1) assms(2) have "\<exists>dp \<in> set dps. Some p \<in> set (sliceElems h (Dimensions dp))"
      by blast
    ultimately have "dimObjs h' ! p = sanitizeKey L (dimObjs h ! p)" by simp
    with p S(2) show "loadDim h' e = map_option (sanitizeKey L) (loadDim h e)"
      by (simp add: loadDim_def)
  qed
  with el show ?thesis by (simp add: sliceDims_def)
qed

subsection \<open>The points of a whole batch\<close>

lemma pointsOver_Nil [simp]: "pointsOver h extra []"
  by (simp add: pointsOver_def)

lemma pointsOver_append [simp]:
  "pointsOver h extra (xs @ ys) \<longleftrightarrow> pointsOver h extra xs \<and> pointsOver h extra ys"
  by (auto simp: pointsOver_def)

lemma pointsOver_Cons:
  "pointsOver h extra (x # xs) \<longleftrightarrow> pointsOver h extra [x] \<and> pointsOver h extra xs"
  by (auto simp: pointsOver_def)

lemma pointsOver_stable: "heapExt h h' \<Longrightarrow> pointsOver h extra dps \<Longrightarrow> pointsOver h' extra dps"
  by (auto simp: pointsOver_def wfSlice_stable)

lemma pointIs_over_labels:
  assumes "pointIs h dp n ty t v (extra @ map (\<lambda>kv. Some (labelDim kv)) ls)"
  shows "pointsOver h extra [dp]"
proof -
  have "map (\<lambda>kv. Some (labelDim kv)) ls = map Some (map labelDim ls)" by simp
  with assms show ?thesis unfolding pointsOver_def pointIs_def by (metis empty_iff empty_set set_ConsD)
qed

lemma pointIs_over_bucket:
  assumes "pointIs h dp n ty t v (extra @ map (\<lambda>kv. Some (labelDim kv)) ls @ [Some ub])"
  shows "pointsOver h extra [dp]"
proof -
  have "map (\<lambda>kv. Some (labelDim kv)) ls @ [Some ub] = map Some (map labelDim ls @ [ub])" by simp
  with assms show ?thesis unfolding pointsOver_def pointIs_def by (metis empty_iff empty_set set_ConsD)
qed

lemma list_all2_over_labels:
  assumes "list_all2 (\<lambda>x dp. pointIs h dp (n x) (ty x) (t x) (v x)
              (extra @ map (\<lambda>kv. Some (labelDim kv)) (ls x))) xs out"
  shows "pointsOver h extra out"
  using assms
proof (induction xs out rule: list_all2_induct)
  case Nil
  then show ?case by simp
next
  case (Cons x xs y ys)
  from pointIs_over_labels [OF Cons.hyps(1)] Cons.IH show ?case by (subst pointsOver_Cons) simp
qed

lemma list_all2_over_bucket:
  assumes "list_all2 (\<lambda>x dp. pointIs h dp (n x) (ty x) (t x) (v x)
              (extra @ map (\<lambda>kv. Some (labelDim kv)) ls @ [Some (ub x)])) xs out"
  shows "pointsOver h extra out"
  using assms
proof (induction xs out rule: list_all2_induct)
  case Nil
  then show ?case by simp
next
  case (Cons x xs y ys)
  from pointIs_over_bucket [OF Cons.hyps(1)] Cons.IH show ?case by (subst pointsOver_Cons) simp
qed

lemma convertIntDatapoints_over:
  assumes "convertIntDatapoints L dps base extra h = (out, h')" and "wfSlice h extra"
  shows "pointsOver h' (sliceDims h extra) out"
  using convertIntDatapoints_ok [OF assms, THEN conjunct2] by (rule list_all2_over_labels)

lemma convertDoubleDatapoints_over:
  assumes "convertDoubleDatapoints L dps base extra h = (out, h')" and "wfSlice h extra"
  shows "pointsOver h' (sliceDims h extra) out"
  using convertDoubleDatapoints_ok [OF assms, THEN conjunct2] by (rule list_all2_over_labels)

lemma convertIntHistogram_over:
  assumes "convertIntHistogram L dps base extra h = (out, h')" and "wfSlice h extra"
  shows "pointsOver h' (sliceDims h extra) out"
  using assms
proof (induction dps arbitrary: h out h')
  case Nil
  then show ?case by simp
next
  case (Cons x dps)
  show ?case
  proof (cases x)
    case None
    with Cons show ?thesis by simp
  next
    case (Some histDP)
    from convertIntHistogram_head [OF Cons.prems(1) [unfolded Some] Cons.prems(2)]
    obtain cnt sm buckets h3 out' where o: "out = cnt # sm # buckets @ out'"
      and r: "convertIntHistogram L dps base extra h3 = (out', h')"
      and e3: "heapExt h h3"
      and qc: "pointIs h3 cnt (Metric base @ gostr ''_count'') (MetricType base)
              (timestampToSignalFx (hTimestamp histDP))
              ((PointValue base)\<lparr>IntValue := Some (hCount histDP)\<rparr>)
              (sliceDims h extra @ map (\<lambda>kv. Some (labelDim kv)) (hLabelsMap histDP))"
      and qs: "pointIs h3 sm (Metric base) (MetricType base)
              (timestampToSignalFx (hTimestamp histDP))
              ((PointValue base)\<lparr>IntValue := Some (hSum histDP)\<rparr>)
              (sliceDims h extra @ map (\<lambda>kv. Some (labelDim kv)) (hLabelsMap histDP))"
      and qb: "if 0 < length (hBucketCounts histDP)
                  \<and> length (hBucketCounts histDP) \<noteq> length (hExplicitBounds histDP) + 1
             then buckets = []
             else list_all2 (\<lambda>jc dp. pointIs h3 dp (Metric base @ gostr ''_bucket'') (MetricType base)
                    (timestampToSignalFx (hTimestamp histDP))
                    ((PointValue base)\<lparr>IntValue := Some (snd jc)\<rparr>)
                    (sliceDims h extra @ map (\<lambda>kv. Some (labelDim kv)) (hLabelsMap histDP)
                       @ [Some \<lparr>Key = upperBoundDimensionKey,
                                 Value = (if fst jc < length (hExplicitBounds histDP)
                                          then float64ToDimValue L (hExplicitBounds histDP ! fst jc)
                                          else infinityBoundSFxDimValue L)\<rparr>]))
                   (List.enumerate 0 (hBucketCounts histDP)) buckets"
      by blast
    from qc have pc: "pointsOver h3 (sliceDims h extra) [cnt]" by (rule pointIs_over_labels)
    from qs have ps: "pointsOver h3 (sliceDims h extra) [sm]" by (rule pointIs_over_labels)
    have pb: "pointsOver h3 (sliceDims h extra) buckets"
    proof (cases "0 < length (hBucketCounts histDP)
                  \<and> length (hBucketCounts histDP) \<noteq> length (hExplicitBounds histDP) + 1")
      case True
      with qb show ?thesis by simp
    next
      case False
      with qb have "list_all2 (\<lambda>jc dp. pointIs h3 dp (Metric base @ gostr ''_bucket'') (MetricType base)
                    (timestampToSignalFx (hTimestamp histDP))
                    ((PointValue base)\<lparr>IntValue := Some (snd jc)\<rparr>)
                    (sliceDims h extra @ map (\<lambda>kv. Some (labelDim kv)) (hLabelsMap histDP)
                       @ [Some \<lparr>Key = upperBoundDimensionKey,
                                 Value = (if fst jc < length (hExplicitBounds histDP)
                                          then float64ToDimValue L (hExplicitBounds histDP ! fst jc)
                                          else infinityBoundSFxDimValue L)\<rparr>]))
                   (List.enumerate 0 (hBucketCounts histDP)) buckets" by (simp only: if_False)
      then show ?thesis by (rule list_all2_over_bucket)
    qed
    note W3 = wfSlice_stable [OF e3 Cons.prems(2)]
    from Cons.IH [OF r W3(1)] W3(2) have po: "pointsOver h' (sliceDims h extra) out'" by simp
    from convertIntHistogram_frame [OF r] have e: "heapExt h3 h'" by simp
    from pointsOver_stable [OF e pc] pointsOver_stable [OF e ps] pointsOver_stable [OF e pb] po
    have "pointsOver h' (sliceDims h extra) ([cnt] @ [sm] @ buckets @ out')"
      by (simp only: pointsOver_append)
    then show ?thesis by (simp add: o)
  qed
qed

lemma convertDoubleHistogram_over:
  assumes "convertDoubleHistogram L dps base extra h = (out, h')" and "wfSlice h extra"
  shows "pointsOver h' (sliceDims h extra) out"
  using assms
proof (induction dps arbitrary: h out h')
  case Nil
  then show ?case by simp
next
  case (Cons x dps)
  show ?case
  proof (cases x)
    case None
    with Cons show ?thesis by simp
  next
    case (Some histDP)
    from convertDoubleHistogram_head [OF Cons.prems(1) [unfolded Some] Cons.prems(2)]
    obtain cnt sm buckets h3 out' where o: "out = cnt # sm # buckets @ out'"
      and r: "convertDoubleHistogram L dps base extra h3 = (out', h')"
      and e3: "heapExt h h3"
      and qc: "pointIs h3 cnt (Metric base @ gostr ''_count'') (MetricType base)
              (timestampToSignalFx (hTimestamp histDP))
              ((PointValue base)\<lparr>IntValue := Some (hCount histDP)\<rparr>)
              (sliceDims h extra @ map (\<lambda>kv. Some (labelDim kv)) (hLabelsMap histDP))"
      and qs: "pointIs h3 sm (Metric base) (MetricType base)
              (timestampToSignalFx (hTimestamp histDP))
              ((PointValue base)\<lparr>DoubleValue := Some (hSum histDP)\<rparr>)
              (sliceDims h extra @ map (\<lambda>kv. Some (labelDim kv)) (hLabelsMap histDP))"
      and qb: "if 0 < length (hBucketCounts histDP)
                  \<and> length (hBucketCounts histDP) \<noteq> length (hExplicitBounds histDP) + 1
             then buckets = []
             else list_all2 (\<lambda>jc dp. pointIs h3 dp (Metric base @ gostr ''_bucket'') (MetricType base)
                    (timestampToSignalFx (hTimestamp histDP))
                    ((PointValue base)\<lparr>IntValue := Some (snd jc)\<rparr>)
                    (sliceDims h extra @ map (\<lambda>kv. Some (labelDim kv)) (hLabelsMap histDP)
                       @ [Some \<lparr>Key = upperBoundDimensionKey,
                                 Value = (if fst jc < length (hExplicitBounds histDP)
                                          then float64ToDimValue L (hExplicitBounds histDP ! fst jc)
                                          else infinityBoundSFxDimValue L)\<rparr>]))
                   (List.enumerate 0 (hBucketCounts histDP)) buckets"
      by blast
    from qc have pc: "pointsOver h3 (sliceDims h extra) [cnt]" by (rule pointIs_over_labels)
    from qs have ps: "pointsOver h3 (sliceDims h extra) [sm]" by (rule pointIs_over_labels)
    have pb: "pointsOver h3 (sliceDims h extra) buckets"
    proof (cases "0 < length (hBucketCounts histDP)
                  \<and> length (hBucketCounts histDP) \<noteq> length (hExplicitBounds histDP) + 1")
      case True
      with qb show ?thesis by simp
    next
      case False
      with qb have "list_all2 (\<lambda>jc dp. pointIs h3 dp (Metric base @ gostr ''_bucket'') (MetricType base)
                    (timestampToSignalFx (hTimestamp histDP))
                    ((PointValue base)\<lparr>IntValue := Some (snd jc)\<rparr>)
                    (sliceDims h extra @ map (\<lambda>kv. Some (labelDim kv)) (hLabelsMap histDP)
                       @ [Some \<lparr>Key = upperBoundDimensionKey,
                                 Value = (if fst jc < length (hExplicitBounds histDP)
                                          then float64ToDimValue L (hExplicitBounds histDP ! fst jc)
                                          else infinityBoundSFxDimValue L)\<rparr>]))
                   (List.enumerate 0 (hBucketCounts histDP)) buckets" by (simp only: if_False)
      then show ?thesis by (rule list_all2_over_bucket)
    qed
    note W3 = wfSlice_stable [OF e3 Cons.prems(2)]
    from Cons.IH [OF r W3(1)] W3(2) have po: "pointsOver h' (sliceDims h extra) out'" by simp
    from convertDoubleHistogram_frame [OF r] have e: "heapExt h3 h'" by simp
    from pointsOver_stable [OF e pc] pointsOver_stable [OF e ps] pointsOver_stable [OF e pb] po
    have "pointsOver h' (sliceDims h extra) ([cnt] @ [sm] @ buckets @ out')"
      by (simp only: pointsOver_append)
    then show ?thesis by (simp add: o)
  qed
qed

lemma metricToSfxDataPoints_ok:
  assumes "metricToSfxDataPoints L c m extra h = (out, h')" and "metricTranslator c = None"
    and "wfSlice h extra"
  shows "heapExt h h'" and "pointsOver h' (sliceDims h extra) out"
proof -
  show "heapExt h h'"
    using assms(1,2)
    by (cases "Data m")
      (auto simp: metricToSfxDataPoints_def Let_def
            dest: convertIntDatapoints_frame convertDoubleDatapoints_frame
                  convertIntHistogram_frame convertDoubleHistogram_frame
            split: prod.splits)
  show "pointsOver h' (sliceDims h extra) out"
    using assms
    by (cases "Data m")
      (auto simp: metricToSfxDataPoints_def Let_def
            dest: convertIntDatapoints_over convertDoubleDatapoints_over
                  convertIntHistogram_over convertDoubleHistogram_over
            split: prod.splits)
qed

lemma convertMetrics_ok:
  assumes "convertMetrics L c ms extra h = (out, h')" and "metricTranslator c = None"
    and "wfSlice h extra"
  shows "heapExt h h' \<and> pointsOver h' (sliceDims h extra) out"
  using assms
proof (induction ms arbitrary: h out h')
  case Nil
  then show ?case by simp
next
  case (Cons x ms)
  show ?case
  proof (cases x)
    case None
    with Cons show ?thesis by simp
  next
    case (Some m)
    obtain dps h1 where a: "metricToSfxDataPoints L c m extra h = (dps, h1)"
      by (cases "metricToSfxDataPoints L c m extra h")
    obtain rest h2 where r: "convertMetrics L c ms extra h1 = (rest, h2)"
      by (cases "convertMetrics L c ms extra h1")
    from Cons.prems(1) Some a r have o: "out = dps @ rest" and hh: "h' = h2" by simp_all
    note M = metricToSfxDataPoints_ok [OF a Cons.prems(2,3)]
    note W = wfSlice_stable [OF M(1) Cons.prems(3)]
    from Cons.IH [OF r Cons.prems(2) W(1)] W(2)
    have e: "heapExt h1 h2" and p: "pointsOver h2 (sliceDims h extra) rest" by simp_all
    from M(1) e have "heapExt h h2" by (rule heapExt_trans)
    with pointsOver_stable [OF e M(2)] p show ?thesis by (simp add: o hh)
  qed
qed

lemma convertLibraries_ok:
  assumes "convertLibraries L c ilms extra h = (out, h')" and "metricTranslator c = None"
    and "wfSlice h extra"
  shows "heapExt h h' \<and> pointsOver h' (sliceDims h extra) out"
  using assms
proof (induction ilms arbitrary: h out h')
  case Nil
  then show ?case by simp
next
  case (Cons x ilms)
  show ?case
  proof (cases x)
    case None
    with Cons show ?thesis by simp
  next
    case (Some ilm)
    obtain dps h1 where a: "convertMetrics L c ilm extra h = (dps, h1)"
      by (cases "convertMetrics L c ilm extra h")
    obtain rest h2 where r: "convertLibraries L c ilms extra h1 = (rest, h2)"
      by (cases "convertLibraries L c ilms extra h1")
    from Cons.prems(1) Some a r have o: "out = dps @ rest" and hh: "h' = h2" by simp_all
    from convertMetrics_ok [OF a Cons.prems(2,3)]
    have M: "heapExt h h1" "pointsOver h1 (sliceDims h extra) dps" by simp_all
    note W = wfSlice_stable [OF M(1) Cons.prems(3)]
    from Cons.IH [OF r Cons.prems(2) W(1)] W(2)
    have e: "heapExt h1 h2" and p: "pointsOver h2 (sliceDims h extra) rest" by simp_all
    from M(1) e have "heapExt h h2" by (rule heapExt_trans)
    with pointsOver_stable [OF e M(2)] p show ?thesis by (simp add: o hh)
  qed
qed

lemma pointsOver_valid:
  assumes "pointsOver h extra dps" and "None \<notin> set extra"
  shows "\<forall>dp \<in> set dps. None \<notin> set (sliceDims h (Dimensions dp))"
  using assms by (auto simp: pointsOver_def)

section \<open>The claims\<close>

text \<open>
  C8, as stated, fails on the empty key: \<open>filterKeyChars\<close> maps the empty string (an ASCII
  input) to the empty string, which \<^verbatim>\<open>[A-Za-z0-9_-]+\<close> does not match.
\<close>

theorem C8_empty_key_counterexample:
  "isASCII [] \<and> \<not> matchesKeyRegex (filterKeyChars testLib [])"
  by (simp add: isASCII_def matchesKeyRegex_def filterKeyChars_def)

text \<open>
  C8, amended: \<open>filterKeyChars\<close> keeps the length and works rune by rune, sending every rune
  that is not a Unicode letter, a Unicode digit, underscore or hyphen to underscore and
  leaving the others unchanged; it is idempotent; and for every non-empty ASCII input the
  result matches \<^verbatim>\<open>[A-Za-z0-9_-]+\<close> (every rune of the result of any ASCII input is in the
  class).
\<close>

theorem C8_filterKeyChars:
  "length (filterKeyChars L s) = length s
   \<and> (\<forall>i < length s.
        filterKeyChars L s ! i =
          (if unicode_IsLetter L (s ! i) \<or> unicode_IsDigit L (s ! i) \<or> s ! i = 95 \<or> s ! i = 45
           then s ! i else 95))
   \<and> filterKeyChars L (filterKeyChars L s) = filterKeyChars L s
   \<and> (isASCII s \<longrightarrow> list_all keyChar (filterKeyChars L s))
   \<and> (isASCII s \<and> s \<noteq> [] \<longrightarrow> matchesKeyRegex (filterKeyChars L s))"
proof -
  have len: "length (filterKeyChars L s) = length s"
    by (simp add: filterKeyChars_def)
  have pointwise: "\<forall>i < length s.
        filterKeyChars L s ! i =
          (if unicode_IsLetter L (s ! i) \<or> unicode_IsDigit L (s ! i) \<or> s ! i = 95 \<or> s ! i = 45
           then s ! i else 95)"
    by (simp add: filterKeyChars_def filterMap_def)
  have cls: "list_all keyChar (filterKeyChars L s)" if "isASCII s"
    using that by (simp add: filterKeyChars_def isASCII_def list_all_iff filterMap_ascii)
  have re: "matchesKeyRegex (filterKeyChars L s)" if "isASCII s" "s \<noteq> []"
    using cls [OF that(1)] that(2) by (simp add: matchesKeyRegex_def filterKeyChars_def)
  from len pointwise filterKeyChars_idem cls re show ?thesis by blast
qed

theorem C8_filterKeyChars_witness:
  "filterKeyChars testLib (gostr ''a.b c-d_9'') = gostr ''a_b_c-d_9''
   \<and> isASCII (gostr ''a.b c-d_9'') \<and> gostr ''a.b c-d_9'' \<noteq> []
   \<and> matchesKeyRegex (filterKeyChars testLib (gostr ''a.b c-d_9''))
   \<and> filterKeyChars testLib (filterKeyChars testLib (gostr ''a.b c-d_9''))
       = filterKeyChars testLib (gostr ''a.b c-d_9'')"
proof -
  have a: "isASCII (gostr ''a.b c-d_9'')" by (simp add: isASCII_def gostr_def)
  have n: "gostr ''a.b c-d_9'' \<noteq> []" by (simp add: gostr_def)
  have v: "filterKeyChars testLib (gostr ''a.b c-d_9'') = gostr ''a_b_c-d_9''"
    by (simp add: filterKeyChars_def filterMap_def unicode_IsLetter_def unicode_IsDigit_def
        gostr_def testLib_def)
  from C8_filterKeyChars [of testLib "gostr ''a.b c-d_9''"] a n v show ?thesis by simp
qed

lemma convertIntDatapoints_type:
  "convertIntDatapoints L dps base extra h = (out, h') \<Longrightarrow> \<forall>dp \<in> set out. MetricType dp = MetricType base"
proof (induction dps arbitrary: h out h')
  case Nil
  then show ?case by simp
next
  case (Cons x dps)
  then show ?case by (cases x) (auto split: prod.splits)
qed

lemma convertDoubleDatapoints_type:
  "convertDoubleDatapoints L dps base extra h = (out, h') \<Longrightarrow> \<forall>dp \<in> set out. MetricType dp = MetricType base"
proof (induction dps arbitrary: h out h')
  case Nil
  then show ?case by simp
next
  case (Cons x dps)
  then show ?case by (cases x) (auto split: prod.splits)
qed

text \<open>
  C1. For every Sum metric, integer-valued or floating-point-valued, every data point that
  \<open>metricToSfxDataPoints\<close> emits (before any translation rule) has the metric type given by
  the classification: Gauge when the Sum is not monotonic, whatever the temporality;
  Counter when it is monotonic with Delta temporality; CumulativeCounter when it is
  monotonic with Cumulative temporality.
\<close>

theorem C1_sum_metric_type:
  assumes "metricTranslator c = None"
    and "metricToSfxDataPoints L c metric extraDims h = (out, h')"
    and "Data metric = IntSum isMonotonic temporality intPoints
         \<or> Data metric = DoubleSum isMonotonic temporality doublePoints"
  shows "(\<not> isMonotonic \<longrightarrow> (\<forall>dp \<in> set out. MetricType dp = Some GAUGE))
       \<and> (isMonotonic \<and> temporality = AggregationTemporalityDelta
            \<longrightarrow> (\<forall>dp \<in> set out. MetricType dp = Some COUNTER))
       \<and> (isMonotonic \<and> temporality = AggregationTemporalityCumulative
            \<longrightarrow> (\<forall>dp \<in> set out. MetricType dp = Some CUMULATIVE_COUNTER))"
proof -
  have ty: "\<forall>dp \<in> set out. MetricType dp = fromMetricDataTypeToMetricType metric"
    using assms(3)
  proof
    assume d: "Data metric = IntSum isMonotonic temporality intPoints"
    with assms(1,2) have "convertIntDatapoints L intPoints (makeBaseDataPoint metric) extraDims h = (out, h')"
      by (simp add: metricToSfxDataPoints_def split: prod.splits)
    from convertIntDatapoints_type [OF this] show ?thesis by (simp add: makeBaseDataPoint_def)
  next
    assume d: "Data metric = DoubleSum isMonotonic temporality doublePoints"
    with assms(1,2) have "convertDoubleDatapoints L doublePoints (makeBaseDataPoint metric) extraDims h = (out, h')"
      by (simp add: metricToSfxDataPoints_def split: prod.splits)
    from convertDoubleDatapoints_type [OF this] show ?thesis by (simp add: makeBaseDataPoint_def)
  qed
  have cl: "fromMetricDataTypeToMetricType metric =
              (if \<not> isMonotonic then Some GAUGE
               else if temporality = AggregationTemporalityDelta then Some COUNTER
               else Some CUMULATIVE_COUNTER)"
    using assms(3) by (auto simp: fromMetricDataTypeToMetricType_def)
  from ty cl show ?thesis by simp
qed

theorem C1_sum_metric_type_witness:
  "metricTranslator noTranslator = None
   \<and> Data sumMetric = IntSum True AggregationTemporalityCumulative
        [Some \<lparr>dpTimestamp = 1000000000, dpLabelsMap = [(gostr ''path'', gostr ''/a'')], dpValue = 42\<rparr>]
   \<and> map MetricType (fst (metricToSfxDataPoints testLib noTranslator sumMetric nilSlice emptyHeap))
       = [Some CUMULATIVE_COUNTER]"
proof -
  have t: "metricTranslator noTranslator = None" by (simp add: noTranslator_def)
  have d: "Data sumMetric = IntSum True AggregationTemporalityCumulative
        [Some \<lparr>dpTimestamp = 1000000000, dpLabelsMap = [(gostr ''path'', gostr ''/a'')], dpValue = 42\<rparr>]"
    by (simp add: sumMetric_def)
  have l: "length (fst (metricToSfxDataPoints testLib noTranslator sumMetric nilSlice emptyHeap)) = 1"
    by code_simp
  from C1_sum_metric_type [OF t surjective_pairing disjI1, OF d]
  have "\<forall>dp \<in> set (fst (metricToSfxDataPoints testLib noTranslator sumMetric nilSlice emptyHeap)).
          MetricType dp = Some CUMULATIVE_COUNTER" by simp
  with l have "map MetricType (fst (metricToSfxDataPoints testLib noTranslator sumMetric nilSlice emptyHeap))
       = [Some CUMULATIVE_COUNTER]"
    by (cases "fst (metricToSfxDataPoints testLib noTranslator sumMetric nilSlice emptyHeap)") auto
  with t d show ?thesis by simp
qed

text \<open>
  C7. For every Gauge or Sum data point, the dimension sequence of the emitted data point
  is the resource-level dimension list first, followed by the labels of the data point in
  their order; it contains every resource-level dimension and every label. (One point
  is emitted per non-nil data point, in order.)
\<close>

theorem C7_dimension_order:
  assumes "metricTranslator c = None"
    and "wfSlice h extraDims"
    and "metricToSfxDataPoints L c metric extraDims h = (out, h')"
  shows "(Data metric = IntGauge intPoints \<or> Data metric = IntSum isMonotonic temporality intPoints
            \<longrightarrow> list_all2 (\<lambda>inDp dp.
                    sliceDims h' (Dimensions dp)
                      = sliceDims h extraDims @ map (\<lambda>kv. Some (labelDim kv)) (dpLabelsMap inDp)
                    \<and> set (sliceDims h extraDims) \<subseteq> set (sliceDims h' (Dimensions dp))
                    \<and> (\<forall>kv \<in> set (dpLabelsMap inDp). Some (labelDim kv) \<in> set (sliceDims h' (Dimensions dp))))
                  (nonNil intPoints) out)
       \<and> (Data metric = DoubleGauge doublePoints \<or> Data metric = DoubleSum isMonotonic temporality doublePoints
            \<longrightarrow> list_all2 (\<lambda>inDp dp.
                    sliceDims h' (Dimensions dp)
                      = sliceDims h extraDims @ map (\<lambda>kv. Some (labelDim kv)) (dpLabelsMap inDp)
                    \<and> set (sliceDims h extraDims) \<subseteq> set (sliceDims h' (Dimensions dp))
                    \<and> (\<forall>kv \<in> set (dpLabelsMap inDp). Some (labelDim kv) \<in> set (sliceDims h' (Dimensions dp))))
                  (nonNil doublePoints) out)"
proof (intro conjI impI)
  assume "Data metric = IntGauge intPoints \<or> Data metric = IntSum isMonotonic temporality intPoints"
  with assms(1,3) have "convertIntDatapoints L intPoints (makeBaseDataPoint metric) extraDims h = (out, h')"
    by (auto simp: metricToSfxDataPoints_def split: prod.splits)
  from convertIntDatapoints_ok [OF this assms(2), THEN conjunct2]
  show "list_all2 (\<lambda>inDp dp.
                    sliceDims h' (Dimensions dp)
                      = sliceDims h extraDims @ map (\<lambda>kv. Some (labelDim kv)) (dpLabelsMap inDp)
                    \<and> set (sliceDims h extraDims) \<subseteq> set (sliceDims h' (Dimensions dp))
                    \<and> (\<forall>kv \<in> set (dpLabelsMap inDp). Some (labelDim kv) \<in> set (sliceDims h' (Dimensions dp))))
                  (nonNil intPoints) out"
    by (rule list_all2_mono) (auto simp: pointIs_def)
next
  assume "Data metric = DoubleGauge doublePoints \<or> Data metric = DoubleSum isMonotonic temporality doublePoints"
  with assms(1,3) have "convertDoubleDatapoints L doublePoints (makeBaseDataPoint metric) extraDims h = (out, h')"
    by (auto simp: metricToSfxDataPoints_def split: prod.splits)
  from convertDoubleDatapoints_ok [OF this assms(2), THEN conjunct2]
  show "list_all2 (\<lambda>inDp dp.
                    sliceDims h' (Dimensions dp)
                      = sliceDims h extraDims @ map (\<lambda>kv. Some (labelDim kv)) (dpLabelsMap inDp)
                    \<and> set (sliceDims h extraDims) \<subseteq> set (sliceDims h' (Dimensions dp))
                    \<and> (\<forall>kv \<in> set (dpLabelsMap inDp). Some (labelDim kv) \<in> set (sliceDims h' (Dimensions dp))))
                  (nonNil doublePoints) out"
    by (rule list_all2_mono) (auto simp: pointIs_def)
qed

theorem C7_dimension_order_witness:
  "metricTranslator noTranslator = None \<and> wfSlice resourceHeap resourceDims
   \<and> Data sumMetric = IntSum True AggregationTemporalityCumulative
        [Some \<lparr>dpTimestamp = 1000000000, dpLabelsMap = [(gostr ''path'', gostr ''/a'')], dpValue = 42\<rparr>]
   \<and> map (\<lambda>dp. sliceDims (snd (metricToSfxDataPoints testLib noTranslator sumMetric resourceDims resourceHeap))
                  (Dimensions dp))
         (fst (metricToSfxDataPoints testLib noTranslator sumMetric resourceDims resourceHeap))
       = [[Some \<lparr>Key = gostr ''host.name'', Value = gostr ''h1''\<rparr>,
           Some \<lparr>Key = gostr ''path'', Value = gostr ''/a''\<rparr>]]"
proof (intro conjI)
  let ?R = "metricToSfxDataPoints testLib noTranslator sumMetric resourceDims resourceHeap"
  show t: "metricTranslator noTranslator = None" by (simp add: noTranslator_def)
  show w: "wfSlice resourceHeap resourceDims" by code_simp
  show d: "Data sumMetric = IntSum True AggregationTemporalityCumulative
        [Some \<lparr>dpTimestamp = 1000000000, dpLabelsMap = [(gostr ''path'', gostr ''/a'')], dpValue = 42\<rparr>]"
    by (simp add: sumMetric_def)
  have e: "sliceDims resourceHeap resourceDims @ map (\<lambda>kv. Some (labelDim kv)) [(gostr ''path'', gostr ''/a'')]
           = [Some \<lparr>Key = gostr ''host.name'', Value = gostr ''h1''\<rparr>,
              Some \<lparr>Key = gostr ''path'', Value = gostr ''/a''\<rparr>]"
    by code_simp
  from C7_dimension_order [OF t w surjective_pairing, THEN conjunct1, rule_format, OF disjI2, OF d]
  obtain dp where o: "fst ?R = [dp]"
    and p: "sliceDims (snd ?R) (Dimensions dp)
            = sliceDims resourceHeap resourceDims @ map (\<lambda>kv. Some (labelDim kv)) [(gostr ''path'', gostr ''/a'')]"
    by (auto simp: list_all2_Cons1)
  have "map (\<lambda>dp. sliceDims (snd ?R) (Dimensions dp)) [dp]
       = [[Some \<lparr>Key = gostr ''host.name'', Value = gostr ''h1''\<rparr>,
           Some \<lparr>Key = gostr ''path'', Value = gostr ''/a''\<rparr>]]"
    using p e by simp
  with o show "map (\<lambda>dp. sliceDims (snd ?R) (Dimensions dp)) (fst ?R)
       = [[Some \<lparr>Key = gostr ''host.name'', Value = gostr ''h1''\<rparr>,
           Some \<lparr>Key = gostr ''path'', Value = gostr ''/a''\<rparr>]]"
    by (simp only:)
qed

text \<open>
  C10. Converting the data points of a metric does not modify the resource-level
  dimension list passed in. For each of \<open>convertIntDatapoints\<close>, \<open>convertDoubleDatapoints\<close>,
  \<open>convertIntHistogram\<close> and \<open>convertDoubleHistogram\<close>: every object and every backing array
  of the store before the call is unchanged after it; so the elements of \<open>extraDims\<close> and
  the dimensions behind them are the same, and so is its whole backing array, spare capacity
  included (its length is part of the slice header, which is passed by value). The
  dimension slice of every emitted data point, the one the histogram \<open>upper_bound\<close>
  dimension is appended to, has a backing array that was allocated during the call.
\<close>

theorem C10_extraDims_unchanged:
  assumes "convertIntDatapoints L intPoints basePoint extraDims h = (out, h')
         \<or> convertDoubleDatapoints L doublePoints basePoint extraDims h = (out, h')
         \<or> convertIntHistogram L intHistPoints basePoint extraDims h = (out, h')
         \<or> convertDoubleHistogram L doubleHistPoints basePoint extraDims h = (out, h')"
    and "wfSlice h extraDims"
  shows "heapExt h h'
       \<and> sliceElems h' extraDims = sliceElems h extraDims
       \<and> sliceDims h' extraDims = sliceDims h extraDims
       \<and> (sarr extraDims < length (ptrArrays h) \<longrightarrow> arrayAt h' (sarr extraDims) = arrayAt h (sarr extraDims))
       \<and> (\<forall>dp \<in> set out. length (ptrArrays h) \<le> sarr (Dimensions dp))"
proof -
  from assms(1) have f: "heapExt h h' \<and> (\<forall>dp \<in> set out. length (ptrArrays h) \<le> sarr (Dimensions dp))"
  proof (elim disjE)
    assume "convertIntDatapoints L intPoints basePoint extraDims h = (out, h')"
    then show ?thesis by (rule convertIntDatapoints_frame)
  next
    assume "convertDoubleDatapoints L doublePoints basePoint extraDims h = (out, h')"
    then show ?thesis by (rule convertDoubleDatapoints_frame)
  next
    assume "convertIntHistogram L intHistPoints basePoint extraDims h = (out, h')"
    then show ?thesis by (rule convertIntHistogram_frame)
  next
    assume "convertDoubleHistogram L doubleHistPoints basePoint extraDims h = (out, h')"
    then show ?thesis by (rule convertDoubleHistogram_frame)
  qed
  then have e: "heapExt h h'" by simp
  from wfSlice_elems [OF e assms(2)] wfSlice_stable(2) [OF e assms(2)] heapExt_arrayAt [OF e] f
  show ?thesis by simp
qed

theorem C10_extraDims_unchanged_witness:
  "wfSlice resourceHeap resourceDims
   \<and> arrayAt (snd (convertDoubleHistogram testLib [Some histPoint] (makeBaseDataPoint histMetric)
                      resourceDims resourceHeap)) (sarr resourceDims)
       = [Some 0, None]
   \<and> sliceDims (snd (convertDoubleHistogram testLib [Some histPoint] (makeBaseDataPoint histMetric)
                      resourceDims resourceHeap)) resourceDims
       = [Some \<lparr>Key = gostr ''host.name'', Value = gostr ''h1''\<rparr>]"
proof (intro conjI)
  let ?R = "convertDoubleHistogram testLib [Some histPoint] (makeBaseDataPoint histMetric)
              resourceDims resourceHeap"
  show w: "wfSlice resourceHeap resourceDims" by code_simp
  have a: "sarr resourceDims < length (ptrArrays resourceHeap)" by code_simp
  have b: "arrayAt resourceHeap (sarr resourceDims) = [Some 0, None]" by code_simp
  have e: "sliceDims resourceHeap resourceDims = [Some \<lparr>Key = gostr ''host.name'', Value = gostr ''h1''\<rparr>]"
    by code_simp
  have c: "?R = (fst ?R, snd ?R)" by (rule surjective_pairing)
  note T = C10_extraDims_unchanged [OF disjI2 [OF disjI2 [OF disjI2 [OF c]]] w]
  from T have "arrayAt (snd ?R) (sarr resourceDims) = arrayAt resourceHeap (sarr resourceDims)"
    using a by blast
  with b show "arrayAt (snd ?R) (sarr resourceDims) = [Some 0, None]" by (simp only:)
  from T have "sliceDims (snd ?R) resourceDims = sliceDims resourceHeap resourceDims" by blast
  with e show "sliceDims (snd ?R) resourceDims = [Some \<lparr>Key = gostr ''host.name'', Value = gostr ''h1''\<rparr>]"
    by (simp only:)
qed

lemma enumerate_all2_nth:
  assumes "list_all2 (\<lambda>jc dp. P (fst jc) (snd jc) dp) (List.enumerate 0 cs) bs"
  shows "length bs = length cs \<and> (\<forall>j < length cs. P j (cs ! j) (bs ! j))"
proof -
  from assms have l: "length bs = length cs" by (auto dest: list_all2_lengthD)
  have "\<forall>j < length cs. P j (cs ! j) (bs ! j)"
  proof (intro allI impI)
    fix j assume j: "j < length cs"
    then have "j < length (List.enumerate 0 cs)" by simp
    from list_all2_nthD [OF assms this] j show "P j (cs ! j) (bs ! j)"
      by (simp add: nth_enumerate_eq)
  qed
  with l show ?thesis by simp
qed

lemma convertIntHistogram_block:
  assumes conv: "convertIntHistogram L (pre @ Some histDP # post) base extra h = (out, h')"
    and wf: "wfSlice h extra"
  shows "\<exists>cnt sm buckets h3 out2.
      out = fst (convertIntHistogram L pre base extra h) @ cnt # sm # buckets @ out2
    \<and> convertIntHistogram L post base extra h3 = (out2, h')
    \<and> pointIs h' cnt (Metric base @ gostr ''_count'') (MetricType base)
              (timestampToSignalFx (hTimestamp histDP))
              ((PointValue base)\<lparr>IntValue := Some (hCount histDP)\<rparr>)
              (sliceDims h extra @ map (\<lambda>kv. Some (labelDim kv)) (hLabelsMap histDP))
    \<and> pointIs h' sm (Metric base) (MetricType base)
              (timestampToSignalFx (hTimestamp histDP))
              ((PointValue base)\<lparr>IntValue := Some (hSum histDP)\<rparr>)
              (sliceDims h extra @ map (\<lambda>kv. Some (labelDim kv)) (hLabelsMap histDP))
    \<and> (0 < length (hBucketCounts histDP)
           \<and> length (hBucketCounts histDP) \<noteq> length (hExplicitBounds histDP) + 1 \<longrightarrow> buckets = [])
    \<and> (\<not> (0 < length (hBucketCounts histDP)
           \<and> length (hBucketCounts histDP) \<noteq> length (hExplicitBounds histDP) + 1) \<longrightarrow>
         length buckets = length (hBucketCounts histDP)
         \<and> (\<forall>j < length (hBucketCounts histDP).
              pointIs h' (buckets ! j) (Metric base @ gostr ''_bucket'') (MetricType base)
                (timestampToSignalFx (hTimestamp histDP))
                ((PointValue base)\<lparr>IntValue := Some (hBucketCounts histDP ! j)\<rparr>)
                (sliceDims h extra @ map (\<lambda>kv. Some (labelDim kv)) (hLabelsMap histDP)
                   @ [Some \<lparr>Key = upperBoundDimensionKey,
                             Value = (if j < length (hExplicitBounds histDP)
                                      then float64ToDimValue L (hExplicitBounds histDP ! j)
                                      else infinityBoundSFxDimValue L)\<rparr>])))"
proof -
  let ?skip = "0 < length (hBucketCounts histDP)
           \<and> length (hBucketCounts histDP) \<noteq> length (hExplicitBounds histDP) + 1"
  obtain o1 h1 where c1: "convertIntHistogram L pre base extra h = (o1, h1)"
    by (cases "convertIntHistogram L pre base extra h")
  obtain o2 h2 where c2: "convertIntHistogram L (Some histDP # post) base extra h1 = (o2, h2)"
    by (cases "convertIntHistogram L (Some histDP # post) base extra h1")
  from conv c1 c2 have o: "out = o1 @ o2" and hh: "h2 = h'"
    by (simp_all add: convertIntHistogram_append)
  from convertIntHistogram_frame [OF c1] have e1: "heapExt h h1" by simp
  note W1 = wfSlice_stable [OF e1 wf]
  from convertIntHistogram_head [OF c2 W1(1)]
  obtain cnt sm buckets h3 out' where o2: "o2 = cnt # sm # buckets @ out'"
      and r: "convertIntHistogram L post base extra h3 = (out', h2)"
      and qc: "pointIs h3 cnt (Metric base @ gostr ''_count'') (MetricType base)
              (timestampToSignalFx (hTimestamp histDP))
              ((PointValue base)\<lparr>IntValue := Some (hCount histDP)\<rparr>)
              (sliceDims h1 extra @ map (\<lambda>kv. Some (labelDim kv)) (hLabelsMap histDP))"
      and qs: "pointIs h3 sm (Metric base) (MetricType base)
              (timestampToSignalFx (hTimestamp histDP))
              ((PointValue base)\<lparr>IntValue := Some (hSum histDP)\<rparr>)
              (sliceDims h1 extra @ map (\<lambda>kv. Some (labelDim kv)) (hLabelsMap histDP))"
      and qb: "if ?skip then buckets = []
             else list_all2 (\<lambda>jc dp. pointIs h3 dp (Metric base @ gostr ''_bucket'') (MetricType base)
                    (timestampToSignalFx (hTimestamp histDP))
                    ((PointValue base)\<lparr>IntValue := Some (snd jc)\<rparr>)
                    (sliceDims h1 extra @ map (\<lambda>kv. Some (labelDim kv)) (hLabelsMap histDP)
                       @ [Some \<lparr>Key = upperBoundDimensionKey,
                                 Value = (if fst jc < length (hExplicitBounds histDP)
                                          then float64ToDimValue L (hExplicitBounds histDP ! fst jc)
                                          else infinityBoundSFxDimValue L)\<rparr>]))
                   (List.enumerate 0 (hBucketCounts histDP)) buckets"
    by blast
  from convertIntHistogram_frame [OF r] have e3: "heapExt h3 h2" by simp
  have A: "out = fst (convertIntHistogram L pre base extra h) @ cnt # sm # buckets @ out'"
    by (simp add: o o2 c1)
  have B: "convertIntHistogram L post base extra h3 = (out', h')" using r hh by simp
  note C = pointIs_stable [OF e3 qc, unfolded W1(2) hh]
  note D = pointIs_stable [OF e3 qs, unfolded W1(2) hh]
  have E: "?skip \<Longrightarrow> buckets = []" using qb by simp
  have F: "length buckets = length (hBucketCounts histDP)
         \<and> (\<forall>j < length (hBucketCounts histDP).
              pointIs h' (buckets ! j) (Metric base @ gostr ''_bucket'') (MetricType base)
                (timestampToSignalFx (hTimestamp histDP))
                ((PointValue base)\<lparr>IntValue := Some (hBucketCounts histDP ! j)\<rparr>)
                (sliceDims h extra @ map (\<lambda>kv. Some (labelDim kv)) (hLabelsMap histDP)
                   @ [Some \<lparr>Key = upperBoundDimensionKey,
                             Value = (if j < length (hExplicitBounds histDP)
                                      then float64ToDimValue L (hExplicitBounds histDP ! j)
                                      else infinityBoundSFxDimValue L)\<rparr>]))"
    if ns: "\<not> ?skip"
  proof -
    from qb ns have "list_all2 (\<lambda>jc dp. pointIs h3 dp (Metric base @ gostr ''_bucket'') (MetricType base)
                    (timestampToSignalFx (hTimestamp histDP))
                    ((PointValue base)\<lparr>IntValue := Some (snd jc)\<rparr>)
                    (sliceDims h1 extra @ map (\<lambda>kv. Some (labelDim kv)) (hLabelsMap histDP)
                       @ [Some \<lparr>Key = upperBoundDimensionKey,
                                 Value = (if fst jc < length (hExplicitBounds histDP)
                                          then float64ToDimValue L (hExplicitBounds histDP ! fst jc)
                                          else infinityBoundSFxDimValue L)\<rparr>]))
                   (List.enumerate 0 (hBucketCounts histDP)) buckets" by (simp only: if_False)
    from list_all2_pointIs_stable [OF e3 this, unfolded W1(2) hh]
    have "list_all2 (\<lambda>jc dp. (\<lambda>j c dp. pointIs h' dp (Metric base @ gostr ''_bucket'') (MetricType base)
                    (timestampToSignalFx (hTimestamp histDP))
                    ((PointValue base)\<lparr>IntValue := Some c\<rparr>)
                    (sliceDims h extra @ map (\<lambda>kv. Some (labelDim kv)) (hLabelsMap histDP)
                       @ [Some \<lparr>Key = upperBoundDimensionKey,
                                 Value = (if j < length (hExplicitBounds histDP)
                                          then float64ToDimValue L (hExplicitBounds histDP ! j)
                                          else infinityBoundSFxDimValue L)\<rparr>])) (fst jc) (snd jc) dp)
                   (List.enumerate 0 (hBucketCounts histDP)) buckets" by simp
    from enumerate_all2_nth [OF this] show ?thesis by simp
  qed
  from A B C D E F show ?thesis by blast
qed

lemma convertDoubleHistogram_block:
  assumes conv: "convertDoubleHistogram L (pre @ Some histDP # post) base extra h = (out, h')"
    and wf: "wfSlice h extra"
  shows "\<exists>cnt sm buckets h3 out2.
      out = fst (convertDoubleHistogram L pre base extra h) @ cnt # sm # buckets @ out2
    \<and> convertDoubleHistogram L post base extra h3 = (out2, h')
    \<and> pointIs h' cnt (Metric base @ gostr ''_count'') (MetricType base)
              (timestampToSignalFx (hTimestamp histDP))
              ((PointValue base)\<lparr>IntValue := Some (hCount histDP)\<rparr>)
              (sliceDims h extra @ map (\<lambda>kv. Some (labelDim kv)) (hLabelsMap histDP))
    \<and> pointIs h' sm (Metric base) (MetricType base)
              (timestampToSignalFx (hTimestamp histDP))
              ((PointValue base)\<lparr>DoubleValue := Some (hSum histDP)\<rparr>)
              (sliceDims h extra @ map (\<lambda>kv. Some (labelDim kv)) (hLabelsMap histDP))
    \<and> (0 < length (hBucketCounts histDP)
           \<and> length (hBucketCounts histDP) \<noteq> length (hExplicitBounds histDP) + 1 \<longrightarrow> buckets = [])
    \<and> (\<not> (0 < length (hBucketCounts histDP)
           \<and> length (hBucketCounts histDP) \<noteq> length (hExplicitBounds histDP) + 1) \<longrightarrow>
         length buckets = length (hBucketCounts histDP)
         \<and> (\<forall>j < length (hBucketCounts histDP).
              pointIs h' (buckets ! j) (Metric base @ gostr ''_bucket'') (MetricType base)
                (timestampToSignalFx (hTimestamp histDP))
                ((PointValue base)\<lparr>IntValue := Some (hBucketCounts histDP ! j)\<rparr>)
                (sliceDims h extra @ map (\<lambda>kv. Some (labelDim kv)) (hLabelsMap histDP)
                   @ [Some \<lparr>Key = upperBoundDimensionKey,
                             Value = (if j < length (hExplicitBounds histDP)
                                      then float64ToDimValue L (hExplicitBounds histDP ! j)
                                      else infinityBoundSFxDimValue L)\<rparr>])))"
proof -
  let ?skip = "0 < length (hBucketCounts histDP)
           \<and> length (hBucketCounts histDP) \<noteq> length (hExplicitBounds histDP) + 1"
  obtain o1 h1 where c1: "convertDoubleHistogram L pre base extra h = (o1, h1)"
    by (cases "convertDoubleHistogram L pre base extra h")
  obtain o2 h2 where c2: "convertDoubleHistogram L (Some histDP # post) base extra h1 = (o2, h2)"
    by (cases "convertDoubleHistogram L (Some histDP # post) base extra h1")
  from conv c1 c2 have o: "out = o1 @ o2" and hh: "h2 = h'"
    by (simp_all add: convertDoubleHistogram_append)
  from convertDoubleHistogram_frame [OF c1] have e1: "heapExt h h1" by simp
  note W1 = wfSlice_stable [OF e1 wf]
  from convertDoubleHistogram_head [OF c2 W1(1)]
  obtain cnt sm buckets h3 out' where o2: "o2 = cnt # sm # buckets @ out'"
      and r: "convertDoubleHistogram L post base extra h3 = (out', h2)"
      and qc: "pointIs h3 cnt (Metric base @ gostr ''_count'') (MetricType base)
              (timestampToSignalFx (hTimestamp histDP))
              ((PointValue base)\<lparr>IntValue := Some (hCount histDP)\<rparr>)
              (sliceDims h1 extra @ map (\<lambda>kv. Some (labelDim kv)) (hLabelsMap histDP))"
      and qs: "pointIs h3 sm (Metric base) (MetricType base)
              (timestampToSignalFx (hTimestamp histDP))
              ((PointValue base)\<lparr>DoubleValue := Some (hSum histDP)\<rparr>)
              (sliceDims h1 extra @ map (\<lambda>kv. Some (labelDim kv)) (hLabelsMap histDP))"
      and qb: "if ?skip then buckets = []
             else list_all2 (\<lambda>jc dp. pointIs h3 dp (Metric base @ gostr ''_bucket'') (MetricType base)
                    (timestampToSignalFx (hTimestamp histDP))
                    ((PointValue base)\<lparr>IntValue := Some (snd jc)\<rparr>)
                    (sliceDims h1 extra @ map (\<lambda>kv. Some (labelDim kv)) (hLabelsMap histDP)
                       @ [Some \<lparr>Key = upperBoundDimensionKey,
                                 Value = (if fst jc < length (hExplicitBounds histDP)
                                          then float64ToDimValue L (hExplicitBounds histDP ! fst jc)
                                          else infinityBoundSFxDimValue L)\<rparr>]))
                   (List.enumerate 0 (hBucketCounts histDP)) buckets"
    by blast
  from convertDoubleHistogram_frame [OF r] have e3: "heapExt h3 h2" by simp
  have A: "out = fst (convertDoubleHistogram L pre base extra h) @ cnt # sm # buckets @ out'"
    by (simp add: o o2 c1)
  have B: "convertDoubleHistogram L post base extra h3 = (out', h')" using r hh by simp
  note C = pointIs_stable [OF e3 qc, unfolded W1(2) hh]
  note D = pointIs_stable [OF e3 qs, unfolded W1(2) hh]
  have E: "?skip \<Longrightarrow> buckets = []" using qb by simp
  have F: "length buckets = length (hBucketCounts histDP)
         \<and> (\<forall>j < length (hBucketCounts histDP).
              pointIs h' (buckets ! j) (Metric base @ gostr ''_bucket'') (MetricType base)
                (timestampToSignalFx (hTimestamp histDP))
                ((PointValue base)\<lparr>IntValue := Some (hBucketCounts histDP ! j)\<rparr>)
                (sliceDims h extra @ map (\<lambda>kv. Some (labelDim kv)) (hLabelsMap histDP)
                   @ [Some \<lparr>Key = upperBoundDimensionKey,
                             Value = (if j < length (hExplicitBounds histDP)
                                      then float64ToDimValue L (hExplicitBounds histDP ! j)
                                      else infinityBoundSFxDimValue L)\<rparr>]))"
    if ns: "\<not> ?skip"
  proof -
    from qb ns have "list_all2 (\<lambda>jc dp. pointIs h3 dp (Metric base @ gostr ''_bucket'') (MetricType base)
                    (timestampToSignalFx (hTimestamp histDP))
                    ((PointValue base)\<lparr>IntValue := Some (snd jc)\<rparr>)
                    (sliceDims h1 extra @ map (\<lambda>kv. Some (labelDim kv)) (hLabelsMap histDP)
                       @ [Some \<lparr>Key = upperBoundDimensionKey,
                                 Value = (if fst jc < length (hExplicitBounds histDP)
                                          then float64ToDimValue L (hExplicitBounds histDP ! fst jc)
                                          else infinityBoundSFxDimValue L)\<rparr>]))
                   (List.enumerate 0 (hBucketCounts histDP)) buckets" by (simp only: if_False)
    from list_all2_pointIs_stable [OF e3 this, unfolded W1(2) hh]
    have "list_all2 (\<lambda>jc dp. (\<lambda>j c dp. pointIs h' dp (Metric base @ gostr ''_bucket'') (MetricType base)
                    (timestampToSignalFx (hTimestamp histDP))
                    ((PointValue base)\<lparr>IntValue := Some c\<rparr>)
                    (sliceDims h extra @ map (\<lambda>kv. Some (labelDim kv)) (hLabelsMap histDP)
                       @ [Some \<lparr>Key = upperBoundDimensionKey,
                                 Value = (if j < length (hExplicitBounds histDP)
                                          then float64ToDimValue L (hExplicitBounds histDP ! j)
                                          else infinityBoundSFxDimValue L)\<rparr>])) (fst jc) (snd jc) dp)
                   (List.enumerate 0 (hBucketCounts histDP)) buckets" by simp
    from enumerate_all2_nth [OF this] show ?thesis by simp
  qed
  from A B C D E F show ?thesis by blast
qed

lemma makeBaseDataPoint_fields:
  "Metric (makeBaseDataPoint m) = Name m"
  "MetricType (makeBaseDataPoint m) = fromMetricDataTypeToMetricType m"
  "(PointValue (makeBaseDataPoint m))\<lparr>IntValue := Some c\<rparr>
     = \<lparr>StrValue = None, DoubleValue = None, IntValue = Some c\<rparr>"
  "(PointValue (makeBaseDataPoint m))\<lparr>DoubleValue := Some d\<rparr>
     = \<lparr>StrValue = None, DoubleValue = Some d, IntValue = None\<rparr>"
  by (simp_all add: makeBaseDataPoint_def)

text \<open>
  C2. For every Histogram data point whose bucket counts have length N, one more than the
  explicit bounds, the converter emits for it, in order and between the points of the data
  points before and after it, exactly 2 + N data points: a count point named
  \<^verbatim>\<open><metric name>_count\<close> with the count as integer value, a sum point with the metric
  name unsuffixed (integer value for an integer histogram, double value for a double
  histogram), and N bucket points named \<^verbatim>\<open><metric name>_bucket\<close> whose value is the bucket
  count as integer value (no double value, also for a double histogram) and whose last
  dimension is \<^verbatim>\<open>upper_bound\<close>, rendering the j-th bound, and positive infinity for the last
  bucket.
\<close>

theorem C2_histogram_points:
  assumes "wfSlice h extraDims"
  shows "(convertIntHistogram L (preI @ Some histI # postI) (makeBaseDataPoint metric) extraDims h = (out, h')
          \<and> length (hBucketCounts histI) = length (hExplicitBounds histI) + 1
          \<longrightarrow>
          (\<exists>cnt sm buckets h3 out2.
              out = fst (convertIntHistogram L preI (makeBaseDataPoint metric) extraDims h)
                      @ cnt # sm # buckets @ out2
            \<and> convertIntHistogram L postI (makeBaseDataPoint metric) extraDims h3 = (out2, h')
            \<and> length buckets = length (hBucketCounts histI)
            \<and> pointIs h' cnt (Name metric @ gostr ''_count'') (fromMetricDataTypeToMetricType metric)
                  (timestampToSignalFx (hTimestamp histI))
                  \<lparr>StrValue = None, DoubleValue = None, IntValue = Some (hCount histI)\<rparr>
                  (sliceDims h extraDims @ map (\<lambda>kv. Some (labelDim kv)) (hLabelsMap histI))
            \<and> pointIs h' sm (Name metric) (fromMetricDataTypeToMetricType metric)
                  (timestampToSignalFx (hTimestamp histI))
                  \<lparr>StrValue = None, DoubleValue = None, IntValue = Some (hSum histI)\<rparr>
                  (sliceDims h extraDims @ map (\<lambda>kv. Some (labelDim kv)) (hLabelsMap histI))
            \<and> (\<forall>j < length (hBucketCounts histI).
                  pointIs h' (buckets ! j) (Name metric @ gostr ''_bucket'')
                    (fromMetricDataTypeToMetricType metric)
                    (timestampToSignalFx (hTimestamp histI))
                    \<lparr>StrValue = None, DoubleValue = None, IntValue = Some (hBucketCounts histI ! j)\<rparr>
                    (sliceDims h extraDims @ map (\<lambda>kv. Some (labelDim kv)) (hLabelsMap histI)
                       @ [Some \<lparr>Key = upperBoundDimensionKey,
                                 Value = (if j < length (hExplicitBounds histI)
                                          then FormatFloat L (hExplicitBounds histI ! j)
                                          else FormatFloat L math_Inf1)\<rparr>]))
            \<and> last (sliceDims h' (Dimensions (last buckets)))
                  = Some \<lparr>Key = upperBoundDimensionKey, Value = FormatFloat L math_Inf1\<rparr>))
       \<and> (convertDoubleHistogram L (preD @ Some histD # postD) (makeBaseDataPoint metric) extraDims h = (out, h')
          \<and> length (hBucketCounts histD) = length (hExplicitBounds histD) + 1
          \<longrightarrow>
          (\<exists>cnt sm buckets h3 out2.
              out = fst (convertDoubleHistogram L preD (makeBaseDataPoint metric) extraDims h)
                      @ cnt # sm # buckets @ out2
            \<and> convertDoubleHistogram L postD (makeBaseDataPoint metric) extraDims h3 = (out2, h')
            \<and> length buckets = length (hBucketCounts histD)
            \<and> pointIs h' cnt (Name metric @ gostr ''_count'') (fromMetricDataTypeToMetricType metric)
                  (timestampToSignalFx (hTimestamp histD))
                  \<lparr>StrValue = None, DoubleValue = None, IntValue = Some (hCount histD)\<rparr>
                  (sliceDims h extraDims @ map (\<lambda>kv. Some (labelDim kv)) (hLabelsMap histD))
            \<and> pointIs h' sm (Name metric) (fromMetricDataTypeToMetricType metric)
                  (timestampToSignalFx (hTimestamp histD))
                  \<lparr>StrValue = None, DoubleValue = Some (hSum histD), IntValue = None\<rparr>
                  (sliceDims h extraDims @ map (\<lambda>kv. Some (labelDim kv)) (hLabelsMap histD))
            \<and> (\<forall>j < length (hBucketCounts histD).
                  pointIs h' (buckets ! j) (Name metric @ gostr ''_bucket'')
                    (fromMetricDataTypeToMetricType metric)
                    (timestampToSignalFx (hTimestamp histD))
                    \<lparr>StrValue = None, DoubleValue = None, IntValue = Some (hBucketCounts histD ! j)\<rparr>
                    (sliceDims h extraDims @ map (\<lambda>kv. Some (labelDim kv)) (hLabelsMap histD)
                       @ [Some \<lparr>Key = upperBoundDimensionKey,
                                 Value = (if j < length (hExplicitBounds histD)
                                          then FormatFloat L (hExplicitBounds histD ! j)
                                          else FormatFloat L math_Inf1)\<rparr>]))
            \<and> last (sliceDims h' (Dimensions (last buckets)))
                  = Some \<lparr>Key = upperBoundDimensionKey, Value = FormatFloat L math_Inf1\<rparr>))"
proof (rule conjI)
  show "(convertIntHistogram L (preI @ Some histI # postI) (makeBaseDataPoint metric) extraDims h = (out, h')
          \<and> length (hBucketCounts histI) = length (hExplicitBounds histI) + 1
          \<longrightarrow>
          (\<exists>cnt sm buckets h3 out2.
              out = fst (convertIntHistogram L preI (makeBaseDataPoint metric) extraDims h)
                      @ cnt # sm # buckets @ out2
            \<and> convertIntHistogram L postI (makeBaseDataPoint metric) extraDims h3 = (out2, h')
            \<and> length buckets = length (hBucketCounts histI)
            \<and> pointIs h' cnt (Name metric @ gostr ''_count'') (fromMetricDataTypeToMetricType metric)
                  (timestampToSignalFx (hTimestamp histI))
                  \<lparr>StrValue = None, DoubleValue = None, IntValue = Some (hCount histI)\<rparr>
                  (sliceDims h extraDims @ map (\<lambda>kv. Some (labelDim kv)) (hLabelsMap histI))
            \<and> pointIs h' sm (Name metric) (fromMetricDataTypeToMetricType metric)
                  (timestampToSignalFx (hTimestamp histI))
                  \<lparr>StrValue = None, DoubleValue = None, IntValue = Some (hSum histI)\<rparr>
                  (sliceDims h extraDims @ map (\<lambda>kv. Some (labelDim kv)) (hLabelsMap histI))
            \<and> (\<forall>j < length (hBucketCounts histI).
                  pointIs h' (buckets ! j) (Name metric @ gostr ''_bucket'')
                    (fromMetricDataTypeToMetricType metric)
                    (timestampToSignalFx (hTimestamp histI))
                    \<lparr>StrValue = None, DoubleValue = None, IntValue = Some (hBucketCounts histI ! j)\<rparr>
                    (sliceDims h extraDims @ map (\<lambda>kv. Some (labelDim kv)) (hLabelsMap histI)
                       @ [Some \<lparr>Key = upperBoundDimensionKey,
                                 Value = (if j < length (hExplicitBounds histI)
                                          then FormatFloat L (hExplicitBounds histI ! j)
                                          else FormatFloat L math_Inf1)\<rparr>]))
            \<and> last (sliceDims h' (Dimensions (last buckets)))
                  = Some \<lparr>Key = upperBoundDimensionKey, Value = FormatFloat L math_Inf1\<rparr>))"
  proof (intro impI, elim conjE)
    assume conv: "convertIntHistogram L (preI @ Some histI # postI) (makeBaseDataPoint metric) extraDims h = (out, h')"
      and N: "length (hBucketCounts histI) = length (hExplicitBounds histI) + 1"
    from N have ns: "\<not> (0 < length (hBucketCounts histI)
           \<and> length (hBucketCounts histI) \<noteq> length (hExplicitBounds histI) + 1)" by simp
    note BL = convertIntHistogram_block [OF conv assms,
        unfolded makeBaseDataPoint_fields float64ToDimValue_def infinityBoundSFxDimValue_def]
    from BL obtain cnt sm buckets h3 out2 where
        A: "out = fst (convertIntHistogram L preI (makeBaseDataPoint metric) extraDims h) @ cnt # sm # buckets @ out2"
      and B: "convertIntHistogram L postI (makeBaseDataPoint metric) extraDims h3 = (out2, h')"
      and C: "pointIs h' cnt (Name metric @ gostr ''_count'') (fromMetricDataTypeToMetricType metric)
                  (timestampToSignalFx (hTimestamp histI))
                  \<lparr>StrValue = None, DoubleValue = None, IntValue = Some (hCount histI)\<rparr>
                  (sliceDims h extraDims @ map (\<lambda>kv. Some (labelDim kv)) (hLabelsMap histI))"
      and D: "pointIs h' sm (Name metric) (fromMetricDataTypeToMetricType metric)
                  (timestampToSignalFx (hTimestamp histI))
                  \<lparr>StrValue = None, DoubleValue = None, IntValue = Some (hSum histI)\<rparr>
                  (sliceDims h extraDims @ map (\<lambda>kv. Some (labelDim kv)) (hLabelsMap histI))"
      and F0: "\<not> (0 < length (hBucketCounts histI)
           \<and> length (hBucketCounts histI) \<noteq> length (hExplicitBounds histI) + 1) \<longrightarrow>
         length buckets = length (hBucketCounts histI)
         \<and> (\<forall>j < length (hBucketCounts histI).
              pointIs h' (buckets ! j) (Name metric @ gostr ''_bucket'') (fromMetricDataTypeToMetricType metric)
                (timestampToSignalFx (hTimestamp histI))
                \<lparr>StrValue = None, DoubleValue = None, IntValue = Some (hBucketCounts histI ! j)\<rparr>
                (sliceDims h extraDims @ map (\<lambda>kv. Some (labelDim kv)) (hLabelsMap histI)
                   @ [Some \<lparr>Key = upperBoundDimensionKey,
                             Value = (if j < length (hExplicitBounds histI)
                                      then FormatFloat L (hExplicitBounds histI ! j)
                                      else FormatFloat L math_Inf1)\<rparr>]))"
      by blast
    note F = F0 [rule_format, OF ns]
    from F have len: "length buckets = length (hBucketCounts histI)" by simp
    have lastb: "last (sliceDims h' (Dimensions (last buckets)))
                  = Some \<lparr>Key = upperBoundDimensionKey, Value = FormatFloat L math_Inf1\<rparr>"
    proof -
      from N len have ne: "buckets \<noteq> []" by auto
      then have lb: "last buckets = buckets ! length (hExplicitBounds histI)"
        using N len by (simp add: last_conv_nth)
      from N have "length (hExplicitBounds histI) < length (hBucketCounts histI)" by simp
      with F have "pointIs h' (buckets ! length (hExplicitBounds histI)) (Name metric @ gostr ''_bucket'')
                (fromMetricDataTypeToMetricType metric)
                (timestampToSignalFx (hTimestamp histI))
                \<lparr>StrValue = None, DoubleValue = None,
                   IntValue = Some (hBucketCounts histI ! length (hExplicitBounds histI))\<rparr>
                (sliceDims h extraDims @ map (\<lambda>kv. Some (labelDim kv)) (hLabelsMap histI)
                   @ [Some \<lparr>Key = upperBoundDimensionKey, Value = FormatFloat L math_Inf1\<rparr>])"
        by fastforce
      with lb show ?thesis by (simp add: pointIs_def)
    qed
    from A B len C D F lastb
    show "(\<exists>cnt sm buckets h3 out2.
              out = fst (convertIntHistogram L preI (makeBaseDataPoint metric) extraDims h)
                      @ cnt # sm # buckets @ out2
            \<and> convertIntHistogram L postI (makeBaseDataPoint metric) extraDims h3 = (out2, h')
            \<and> length buckets = length (hBucketCounts histI)
            \<and> pointIs h' cnt (Name metric @ gostr ''_count'') (fromMetricDataTypeToMetricType metric)
                  (timestampToSignalFx (hTimestamp histI))
                  \<lparr>StrValue = None, DoubleValue = None, IntValue = Some (hCount histI)\<rparr>
                  (sliceDims h extraDims @ map (\<lambda>kv. Some (labelDim kv)) (hLabelsMap histI))
            \<and> pointIs h' sm (Name metric) (fromMetricDataTypeToMetricType metric)
                  (timestampToSignalFx (hTimestamp histI))
                  \<lparr>StrValue = None, DoubleValue = None, IntValue = Some (hSum histI)\<rparr>
                  (sliceDims h extraDims @ map (\<lambda>kv. Some (labelDim kv)) (hLabelsMap histI))
            \<and> (\<forall>j < length (hBucketCounts histI).
                  pointIs h' (buckets ! j) (Name metric @ gostr ''_bucket'')
                    (fromMetricDataTypeToMetricType metric)
                    (timestampToSignalFx (hTimestamp histI))
                    \<lparr>StrValue = None, DoubleValue = None, IntValue = Some (hBucketCounts histI ! j)\<rparr>
                    (sliceDims h extraDims @ map (\<lambda>kv. Some (labelDim kv)) (hLabelsMap histI)
                       @ [Some \<lparr>Key = upperBoundDimensionKey,
                                 Value = (if j < length (hExplicitBounds histI)
                                          then FormatFloat L (hExplicitBounds histI ! j)
                                          else FormatFloat L math_Inf1)\<rparr>]))
            \<and> last (sliceDims h' (Dimensions (last buckets)))
                  = Some \<lparr>Key = upperBoundDimensionKey, Value = FormatFloat L math_Inf1\<rparr>)"
      by blast
  qed
next
  show "(convertDoubleHistogram L (preD @ Some histD # postD) (makeBaseDataPoint metric) extraDims h = (out, h')
          \<and> length (hBucketCounts histD) = length (hExplicitBounds histD) + 1
          \<longrightarrow>
          (\<exists>cnt sm buckets h3 out2.
              out = fst (convertDoubleHistogram L preD (makeBaseDataPoint metric) extraDims h)
                      @ cnt # sm # buckets @ out2
            \<and> convertDoubleHistogram L postD (makeBaseDataPoint metric) extraDims h3 = (out2, h')
            \<and> length buckets = length (hBucketCounts histD)
            \<and> pointIs h' cnt (Name metric @ gostr ''_count'') (fromMetricDataTypeToMetricType metric)
                  (timestampToSignalFx (hTimestamp histD))
                  \<lparr>StrValue = None, DoubleValue = None, IntValue = Some (hCount histD)\<rparr>
                  (sliceDims h extraDims @ map (\<lambda>kv. Some (labelDim kv)) (hLabelsMap histD))
            \<and> pointIs h' sm (Name metric) (fromMetricDataTypeToMetricType metric)
                  (timestampToSignalFx (hTimestamp histD))
                  \<lparr>StrValue = None, DoubleValue = Some (hSum histD), IntValue = None\<rparr>
                  (sliceDims h extraDims @ map (\<lambda>kv. Some (labelDim kv)) (hLabelsMap histD))
            \<and> (\<forall>j < length (hBucketCounts histD).
                  pointIs h' (buckets ! j) (Name metric @ gostr ''_bucket'')
                    (fromMetricDataTypeToMetricType metric)
                    (timestampToSignalFx (hTimestamp histD))
                    \<lparr>StrValue = None, DoubleValue = None, IntValue = Some (hBucketCounts histD ! j)\<rparr>
                    (sliceDims h extraDims @ map (\<lambda>kv. Some (labelDim kv)) (hLabelsMap histD)
                       @ [Some \<lparr>Key = upperBoundDimensionKey,
                                 Value = (if j < length (hExplicitBounds histD)
                                          then FormatFloat L (hExplicitBounds histD ! j)
                                          else FormatFloat L math_Inf1)\<rparr>]))
            \<and> last (sliceDims h' (Dimensions (last buckets)))
                  = Some \<lparr>Key = upperBoundDimensionKey, Value = FormatFloat L math_Inf1\<rparr>))"
  proof (intro impI, elim conjE)
    assume conv: "convertDoubleHistogram L (preD @ Some histD # postD) (makeBaseDataPoint metric) extraDims h = (out, h')"
      and N: "length (hBucketCounts histD) = length (hExplicitBounds histD) + 1"
    from N have ns: "\<not> (0 < length (hBucketCounts histD)
           \<and> length (hBucketCounts histD) \<noteq> length (hExplicitBounds histD) + 1)" by simp
    note BL = convertDoubleHistogram_block [OF conv assms,
        unfolded makeBaseDataPoint_fields float64ToDimValue_def infinityBoundSFxDimValue_def]
    from BL obtain cnt sm buckets h3 out2 where
        A: "out = fst (convertDoubleHistogram L preD (makeBaseDataPoint metric) extraDims h) @ cnt # sm # buckets @ out2"
      and B: "convertDoubleHistogram L postD (makeBaseDataPoint metric) extraDims h3 = (out2, h')"
      and C: "pointIs h' cnt (Name metric @ gostr ''_count'') (fromMetricDataTypeToMetricType metric)
                  (timestampToSignalFx (hTimestamp histD))
                  \<lparr>StrValue = None, DoubleValue = None, IntValue = Some (hCount histD)\<rparr>
                  (sliceDims h extraDims @ map (\<lambda>kv. Some (labelDim kv)) (hLabelsMap histD))"
      and D: "pointIs h' sm (Name metric) (fromMetricDataTypeToMetricType metric)
                  (timestampToSignalFx (hTimestamp histD))
                  \<lparr>StrValue = None, DoubleValue = Some (hSum histD), IntValue = None\<rparr>
                  (sliceDims h extraDims @ map (\<lambda>kv. Some (labelDim kv)) (hLabelsMap histD))"
      and F0: "\<not> (0 < length (hBucketCounts histD)
           \<and> length (hBucketCounts histD) \<noteq> length (hExplicitBounds histD) + 1) \<longrightarrow>
         length buckets = length (hBucketCounts histD)
         \<and> (\<forall>j < length (hBucketCounts histD).
              pointIs h' (buckets ! j) (Name metric @ gostr ''_bucket'') (fromMetricDataTypeToMetricType metric)
                (timestampToSignalFx (hTimestamp histD))
                \<lparr>StrValue = None, DoubleValue = None, IntValue = Some (hBucketCounts histD ! j)\<rparr>
                (sliceDims h extraDims @ map (\<lambda>kv. Some (labelDim kv)) (hLabelsMap histD)
                   @ [Some \<lparr>Key = upperBoundDimensionKey,
                             Value = (if j < length (hExplicitBounds histD)
                                      then FormatFloat L (hExplicitBounds histD ! j)
                                      else FormatFloat L math_Inf1)\<rparr>]))"
      by blast
    note F = F0 [rule_format, OF ns]
    from F have len: "length buckets = length (hBucketCounts histD)" by simp
    have lastb: "last (sliceDims h' (Dimensions (last buckets)))
                  = Some \<lparr>Key = upperBoundDimensionKey, Value = FormatFloat L math_Inf1\<rparr>"
    proof -
      from N len have ne: "buckets \<noteq> []" by auto
      then have lb: "last buckets = buckets ! length (hExplicitBounds histD)"
        using N len by (simp add: last_conv_nth)
      from N have "length (hExplicitBounds histD) < length (hBucketCounts histD)" by simp
      with F have "pointIs h' (buckets ! length (hExplicitBounds histD)) (Name metric @ gostr ''_bucket'')
                (fromMetricDataTypeToMetricType metric)
                (timestampToSignalFx (hTimestamp histD))
                \<lparr>StrValue = None, DoubleValue = None,
                   IntValue = Some (hBucketCounts histD ! length (hExplicitBounds histD))\<rparr>
                (sliceDims h extraDims @ map (\<lambda>kv. Some (labelDim kv)) (hLabelsMap histD)
                   @ [Some \<lparr>Key = upperBoundDimensionKey, Value = FormatFloat L math_Inf1\<rparr>])"
        by fastforce
      with lb show ?thesis by (simp add: pointIs_def)
    qed
    from A B len C D F lastb
    show "(\<exists>cnt sm buckets h3 out2.
              out = fst (convertDoubleHistogram L preD (makeBaseDataPoint metric) extraDims h)
                      @ cnt # sm # buckets @ out2
            \<and> convertDoubleHistogram L postD (makeBaseDataPoint metric) extraDims h3 = (out2, h')
            \<and> length buckets = length (hBucketCounts histD)
            \<and> pointIs h' cnt (Name metric @ gostr ''_count'') (fromMetricDataTypeToMetricType metric)
                  (timestampToSignalFx (hTimestamp histD))
                  \<lparr>StrValue = None, DoubleValue = None, IntValue = Some (hCount histD)\<rparr>
                  (sliceDims h extraDims @ map (\<lambda>kv. Some (labelDim kv)) (hLabelsMap histD))
            \<and> pointIs h' sm (Name metric) (fromMetricDataTypeToMetricType metric)
                  (timestampToSignalFx (hTimestamp histD))
                  \<lparr>StrValue = None, DoubleValue = Some (hSum histD), IntValue = None\<rparr>
                  (sliceDims h extraDims @ map (\<lambda>kv. Some (labelDim kv)) (hLabelsMap histD))
            \<and> (\<forall>j < length (hBucketCounts histD).
                  pointIs h' (buckets ! j) (Name metric @ gostr ''_bucket'')
                    (fromMetricDataTypeToMetricType metric)
                    (timestampToSignalFx (hTimestamp histD))
                    \<lparr>StrValue = None, DoubleValue = None, IntValue = Some (hBucketCounts histD ! j)\<rparr>
                    (sliceDims h extraDims @ map (\<lambda>kv. Some (labelDim kv)) (hLabelsMap histD)
                       @ [Some \<lparr>Key = upperBoundDimensionKey,
                                 Value = (if j < length (hExplicitBounds histD)
                                          then FormatFloat L (hExplicitBounds histD ! j)
                                          else FormatFloat L math_Inf1)\<rparr>]))
            \<and> last (sliceDims h' (Dimensions (last buckets)))
                  = Some \<lparr>Key = upperBoundDimensionKey, Value = FormatFloat L math_Inf1\<rparr>)"
      by blast
  qed
qed

lemma convertIntHistogram_mismatch:
  assumes conv: "convertIntHistogram L (preI @ Some histI # postI) (makeBaseDataPoint metric) extraDims h = (out, h')"
    and wf: "wfSlice h extraDims"
    and ne: "hBucketCounts histI \<noteq> []"
    and N: "length (hBucketCounts histI) \<noteq> length (hExplicitBounds histI) + 1"
  shows "\<exists>cnt sm h3 out2.
              out = fst (convertIntHistogram L preI (makeBaseDataPoint metric) extraDims h)
                      @ cnt # sm # out2
            \<and> convertIntHistogram L postI (makeBaseDataPoint metric) extraDims h3 = (out2, h')
            \<and> pointIs h' cnt (Name metric @ gostr ''_count'') (fromMetricDataTypeToMetricType metric)
                  (timestampToSignalFx (hTimestamp histI))
                  \<lparr>StrValue = None, DoubleValue = None, IntValue = Some (hCount histI)\<rparr>
                  (sliceDims h extraDims @ map (\<lambda>kv. Some (labelDim kv)) (hLabelsMap histI))
            \<and> pointIs h' sm (Name metric) (fromMetricDataTypeToMetricType metric)
                  (timestampToSignalFx (hTimestamp histI))
                  \<lparr>StrValue = None, DoubleValue = None, IntValue = Some (hSum histI)\<rparr>
                  (sliceDims h extraDims @ map (\<lambda>kv. Some (labelDim kv)) (hLabelsMap histI))"
proof -
  from ne N have sk: "0 < length (hBucketCounts histI)
         \<and> length (hBucketCounts histI) \<noteq> length (hExplicitBounds histI) + 1" by simp
  note BL = convertIntHistogram_block [OF conv wf,
      unfolded makeBaseDataPoint_fields float64ToDimValue_def infinityBoundSFxDimValue_def]
  from BL obtain cnt sm buckets h3 out2 where
      A: "out = fst (convertIntHistogram L preI (makeBaseDataPoint metric) extraDims h) @ cnt # sm # buckets @ out2"
    and B: "convertIntHistogram L postI (makeBaseDataPoint metric) extraDims h3 = (out2, h')"
    and C: "pointIs h' cnt (Name metric @ gostr ''_count'') (fromMetricDataTypeToMetricType metric)
                (timestampToSignalFx (hTimestamp histI))
                \<lparr>StrValue = None, DoubleValue = None, IntValue = Some (hCount histI)\<rparr>
                (sliceDims h extraDims @ map (\<lambda>kv. Some (labelDim kv)) (hLabelsMap histI))"
    and D: "pointIs h' sm (Name metric) (fromMetricDataTypeToMetricType metric)
                (timestampToSignalFx (hTimestamp histI))
                \<lparr>StrValue = None, DoubleValue = None, IntValue = Some (hSum histI)\<rparr>
                (sliceDims h extraDims @ map (\<lambda>kv. Some (labelDim kv)) (hLabelsMap histI))"
    and E: "0 < length (hBucketCounts histI)
         \<and> length (hBucketCounts histI) \<noteq> length (hExplicitBounds histI) + 1 \<longrightarrow> buckets = []"
    by blast
  from E [rule_format, OF sk] A
  have A': "out = fst (convertIntHistogram L preI (makeBaseDataPoint metric) extraDims h) @ cnt # sm # out2"
    by simp
  from A' B C D show ?thesis by blast
qed

lemma convertDoubleHistogram_mismatch:
  assumes conv: "convertDoubleHistogram L (preD @ Some histD # postD) (makeBaseDataPoint metric) extraDims h = (out, h')"
    and wf: "wfSlice h extraDims"
    and ne: "hBucketCounts histD \<noteq> []"
    and N: "length (hBucketCounts histD) \<noteq> length (hExplicitBounds histD) + 1"
  shows "\<exists>cnt sm h3 out2.
              out = fst (convertDoubleHistogram L preD (makeBaseDataPoint metric) extraDims h)
                      @ cnt # sm # out2
            \<and> convertDoubleHistogram L postD (makeBaseDataPoint metric) extraDims h3 = (out2, h')
            \<and> pointIs h' cnt (Name metric @ gostr ''_count'') (fromMetricDataTypeToMetricType metric)
                  (timestampToSignalFx (hTimestamp histD))
                  \<lparr>StrValue = None, DoubleValue = None, IntValue = Some (hCount histD)\<rparr>
                  (sliceDims h extraDims @ map (\<lambda>kv. Some (labelDim kv)) (hLabelsMap histD))
            \<and> pointIs h' sm (Name metric) (fromMetricDataTypeToMetricType metric)
                  (timestampToSignalFx (hTimestamp histD))
                  \<lparr>StrValue = None, DoubleValue = Some (hSum histD), IntValue = None\<rparr>
                  (sliceDims h extraDims @ map (\<lambda>kv. Some (labelDim kv)) (hLabelsMap histD))"
proof -
  from ne N have sk: "0 < length (hBucketCounts histD)
         \<and> length (hBucketCounts histD) \<noteq> length (hExplicitBounds histD) + 1" by simp
  note BL = convertDoubleHistogram_block [OF conv wf,
      unfolded makeBaseDataPoint_fields float64ToDimValue_def infinityBoundSFxDimValue_def]
  from BL obtain cnt sm buckets h3 out2 where
      A: "out = fst (convertDoubleHistogram L preD (makeBaseDataPoint metric) extraDims h) @ cnt # sm # buckets @ out2"
    and B: "convertDoubleHistogram L postD (makeBaseDataPoint metric) extraDims h3 = (out2, h')"
    and C: "pointIs h' cnt (Name metric @ gostr ''_count'') (fromMetricDataTypeToMetricType metric)
                (timestampToSignalFx (hTimestamp histD))
                \<lparr>StrValue = None, DoubleValue = None, IntValue = Some (hCount histD)\<rparr>
                (sliceDims h extraDims @ map (\<lambda>kv. Some (labelDim kv)) (hLabelsMap histD))"
    and D: "pointIs h' sm (Name metric) (fromMetricDataTypeToMetricType metric)
                (timestampToSignalFx (hTimestamp histD))
                \<lparr>StrValue = None, DoubleValue = Some (hSum histD), IntValue = None\<rparr>
                (sliceDims h extraDims @ map (\<lambda>kv. Some (labelDim kv)) (hLabelsMap histD))"
    and E: "0 < length (hBucketCounts histD)
         \<and> length (hBucketCounts histD) \<noteq> length (hExplicitBounds histD) + 1 \<longrightarrow> buckets = []"
    by blast
  from E [rule_format, OF sk] A
  have A': "out = fst (convertDoubleHistogram L preD (makeBaseDataPoint metric) extraDims h) @ cnt # sm # out2"
    by simp
  from A' B C D show ?thesis by blast
qed

theorem C2_histogram_points_witness:
  "wfSlice resourceHeap resourceDims
   \<and> length (hBucketCounts histPoint) = length (hExplicitBounds histPoint) + 1
   \<and> map Metric (fst (convertDoubleHistogram testLib ([] @ Some histPoint # [])
                         (makeBaseDataPoint histMetric) resourceDims resourceHeap))
       = [gostr ''m_count'', gostr ''m'', gostr ''m_bucket'', gostr ''m_bucket'']
   \<and> map PointValue (fst (convertDoubleHistogram testLib ([] @ Some histPoint # [])
                         (makeBaseDataPoint histMetric) resourceDims resourceHeap))
       = [\<lparr>StrValue = None, DoubleValue = None, IntValue = Some 3\<rparr>,
          \<lparr>StrValue = None, DoubleValue = Some (Float64frombits 7), IntValue = None\<rparr>,
          \<lparr>StrValue = None, DoubleValue = None, IntValue = Some 1\<rparr>,
          \<lparr>StrValue = None, DoubleValue = None, IntValue = Some 2\<rparr>]"
proof -
  let ?R = "convertDoubleHistogram testLib ([] @ Some histPoint # [])
              (makeBaseDataPoint histMetric) resourceDims resourceHeap"
  have w: "wfSlice resourceHeap resourceDims" by code_simp
  have n: "length (hBucketCounts histPoint) = length (hExplicitBounds histPoint) + 1"
    by (simp add: histPoint_def)
  have c: "?R = (fst ?R, snd ?R)" by (rule surjective_pairing)
  from C2_histogram_points [OF w, THEN conjunct2, rule_format, OF conjI, OF c n]
  obtain cnt sm buckets h3 out2 where
      A: "fst ?R = fst (convertDoubleHistogram testLib [] (makeBaseDataPoint histMetric) resourceDims resourceHeap)
                     @ cnt # sm # buckets @ out2"
    and B: "convertDoubleHistogram testLib [] (makeBaseDataPoint histMetric) resourceDims h3 = (out2, snd ?R)"
    and len: "length buckets = length (hBucketCounts histPoint)"
    and C: "Metric cnt = Name histMetric @ gostr ''_count''"
           "PointValue cnt = \<lparr>StrValue = None, DoubleValue = None, IntValue = Some (hCount histPoint)\<rparr>"
    and D: "Metric sm = Name histMetric"
           "PointValue sm = \<lparr>StrValue = None, DoubleValue = Some (hSum histPoint), IntValue = None\<rparr>"
    and F: "\<forall>j < length (hBucketCounts histPoint).
              Metric (buckets ! j) = Name histMetric @ gostr ''_bucket''
              \<and> PointValue (buckets ! j)
                  = \<lparr>StrValue = None, DoubleValue = None, IntValue = Some (hBucketCounts histPoint ! j)\<rparr>"
    unfolding pointIs_def by blast
  from B have o2: "out2 = []" by simp
  from len have l2: "length buckets = 2" by (simp add: histPoint_def)
  then obtain b0 b1 where b: "buckets = [b0, b1]"
    by (cases buckets; cases "tl buckets") auto
  from F b have F0: "Metric b0 = Name histMetric @ gostr ''_bucket''"
      "PointValue b0 = \<lparr>StrValue = None, DoubleValue = None, IntValue = Some 1\<rparr>"
    by (auto simp: histPoint_def)
  from F [rule_format, of 1] b have F1: "Metric b1 = Name histMetric @ gostr ''_bucket''"
      "PointValue b1 = \<lparr>StrValue = None, DoubleValue = None, IntValue = Some 2\<rparr>"
    by (auto simp: histPoint_def)
  from A o2 b have out: "fst ?R = [cnt, sm, b0, b1]" by simp
  have m: "map Metric (fst ?R)
       = [gostr ''m_count'', gostr ''m'', gostr ''m_bucket'', gostr ''m_bucket'']"
  proof -
    have "map Metric [cnt, sm, b0, b1]
       = [gostr ''m_count'', gostr ''m'', gostr ''m_bucket'', gostr ''m_bucket'']"
      by (simp add: C D F0 F1 histMetric_def gostr_def)
    with out show ?thesis by (simp only:)
  qed
  have v: "map PointValue (fst ?R)
       = [\<lparr>StrValue = None, DoubleValue = None, IntValue = Some 3\<rparr>,
          \<lparr>StrValue = None, DoubleValue = Some (Float64frombits 7), IntValue = None\<rparr>,
          \<lparr>StrValue = None, DoubleValue = None, IntValue = Some 1\<rparr>,
          \<lparr>StrValue = None, DoubleValue = None, IntValue = Some 2\<rparr>]"
  proof -
    have "map PointValue [cnt, sm, b0, b1]
       = [\<lparr>StrValue = None, DoubleValue = None, IntValue = Some 3\<rparr>,
          \<lparr>StrValue = None, DoubleValue = Some (Float64frombits 7), IntValue = None\<rparr>,
          \<lparr>StrValue = None, DoubleValue = None, IntValue = Some 1\<rparr>,
          \<lparr>StrValue = None, DoubleValue = None, IntValue = Some 2\<rparr>]"
      by (simp add: C D F0 F1 histPoint_def)
    with out show ?thesis by (simp only:)
  qed
  from w n m v show ?thesis by (intro conjI)
qed

lemma resourceAttributesToDimensions_dims:
  assumes "resourceAttributesToDimensions L attrs h = (s', h')"
    and "cloudDimension L attrs h = (keep, s, h1)"
  shows "sliceDims h' s' = sliceDims h1 s
            @ map (\<lambda>kv. Some (attrDim L kv))
                (filter (\<lambda>kv. fst kv \<noteq> SFxAccessTokenLabel \<and> keep (fst kv)) attrs)"
proof -
  from assms have a: "attributesForEach L keep attrs s h1 = (s', h')"
    by (simp add: resourceAttributesToDimensions_def)
  from cloudDimension_any [OF assms(2)] have "wfSlice h1 s" by simp
  from attributesForEach_ok [OF a this] show ?thesis by simp
qed

text \<open>
  C5. For every resource whose cloud provider attribute is \<^verbatim>\<open>aws\<close> and whose account,
  region and host id attributes are non-empty, the resource-level dimension list is: one
  synthesized dimension \<^verbatim>\<open>AWSUniqueId\<close> with value host id, region and account id joined by
  underscores, followed by the dimensions of the attributes whose key is none of provider,
  account, region, host id (and not the access token), in their order. No dimension of the
  list has one of the four source keys.
\<close>

theorem C5_aws_unique_id:
  assumes "getStringAttr resourceAttr AttributeCloudProvider = AttributeCloudProviderAWS"
    and "getStringAttr resourceAttr AttributeCloudAccount \<noteq> []"
    and "getStringAttr resourceAttr AttributeCloudRegion \<noteq> []"
    and "getStringAttr resourceAttr AttributeHostID \<noteq> []"
    and "resourceAttributesToDimensions L resourceAttr h = (dims, h')"
  shows "AttributeCloudProviderAWS = gostr ''aws''
       \<and> sliceDims h' dims =
           Some \<lparr>Key = gostr ''AWSUniqueId'',
                  Value = getStringAttr resourceAttr AttributeHostID @ gostr ''_''
                          @ getStringAttr resourceAttr AttributeCloudRegion @ gostr ''_''
                          @ getStringAttr resourceAttr AttributeCloudAccount\<rparr>
           # map (\<lambda>kv. Some (attrDim L kv))
               (filter (\<lambda>kv. fst kv \<noteq> SFxAccessTokenLabel \<and> fst kv \<noteq> AttributeCloudAccount
                             \<and> fst kv \<noteq> AttributeCloudRegion \<and> fst kv \<noteq> AttributeHostID
                             \<and> fst kv \<noteq> AttributeCloudProvider) resourceAttr)
       \<and> (\<forall>d. Some d \<in> set (sliceDims h' dims) \<longrightarrow>
              Key d \<noteq> AttributeCloudProvider \<and> Key d \<noteq> AttributeCloudAccount
              \<and> Key d \<noteq> AttributeCloudRegion \<and> Key d \<noteq> AttributeHostID)"
proof -
  obtain keep s h1 where c: "cloudDimension L resourceAttr h = (keep, s, h1)"
    by (cases "cloudDimension L resourceAttr h")
  note A = cloudDimension_aws [OF c assms(1,2,3,4)]
  note D = resourceAttributesToDimensions_dims [OF assms(5) c]
  have eq: "sliceDims h' dims =
           Some \<lparr>Key = gostr ''AWSUniqueId'',
                  Value = getStringAttr resourceAttr AttributeHostID @ gostr ''_''
                          @ getStringAttr resourceAttr AttributeCloudRegion @ gostr ''_''
                          @ getStringAttr resourceAttr AttributeCloudAccount\<rparr>
           # map (\<lambda>kv. Some (attrDim L kv))
               (filter (\<lambda>kv. fst kv \<noteq> SFxAccessTokenLabel \<and> fst kv \<noteq> AttributeCloudAccount
                             \<and> fst kv \<noteq> AttributeCloudRegion \<and> fst kv \<noteq> AttributeHostID
                             \<and> fst kv \<noteq> AttributeCloudProvider) resourceAttr)"
    unfolding D A(2) A(3) by simp
  have k: "gostr ''AWSUniqueId'' \<noteq> AttributeCloudProvider" "gostr ''AWSUniqueId'' \<noteq> AttributeCloudAccount"
      "gostr ''AWSUniqueId'' \<noteq> AttributeCloudRegion" "gostr ''AWSUniqueId'' \<noteq> AttributeHostID"
    by (simp_all add: AttributeCloudProvider_def AttributeCloudAccount_def AttributeCloudRegion_def
          AttributeHostID_def gostr_def)
  have "\<forall>d. Some d \<in> set (sliceDims h' dims) \<longrightarrow>
              Key d \<noteq> AttributeCloudProvider \<and> Key d \<noteq> AttributeCloudAccount
              \<and> Key d \<noteq> AttributeCloudRegion \<and> Key d \<noteq> AttributeHostID"
    unfolding eq using k by (auto simp: attrDim_def)
  with eq show ?thesis by (simp add: AttributeCloudProviderAWS_def)
qed

text \<open>
  C6. For every resource whose cloud provider attribute is \<^verbatim>\<open>gcp\<close> and whose account and
  host id attributes are non-empty, the resource-level dimension list is: one synthesized
  dimension \<^verbatim>\<open>gcp_id\<close> with value account id and host id joined by an underscore,
  followed by the dimensions of the attributes whose key is none of provider, account,
  host id (and not the access token). No dimension of the list has one of these three keys,
  and every region attribute is in the list as a plain dimension.
\<close>

theorem C6_gcp_id:
  assumes "getStringAttr resourceAttr AttributeCloudProvider = AttributeCloudProviderGCP"
    and "getStringAttr resourceAttr AttributeCloudAccount \<noteq> []"
    and "getStringAttr resourceAttr AttributeHostID \<noteq> []"
    and "resourceAttributesToDimensions L resourceAttr h = (dims, h')"
  shows "AttributeCloudProviderGCP = gostr ''gcp''
       \<and> sliceDims h' dims =
           Some \<lparr>Key = gostr ''gcp_id'',
                  Value = getStringAttr resourceAttr AttributeCloudAccount @ gostr ''_''
                          @ getStringAttr resourceAttr AttributeHostID\<rparr>
           # map (\<lambda>kv. Some (attrDim L kv))
               (filter (\<lambda>kv. fst kv \<noteq> SFxAccessTokenLabel \<and> fst kv \<noteq> AttributeCloudAccount
                             \<and> fst kv \<noteq> AttributeHostID \<and> fst kv \<noteq> AttributeCloudProvider) resourceAttr)
       \<and> (\<forall>d. Some d \<in> set (sliceDims h' dims) \<longrightarrow>
              Key d \<noteq> AttributeCloudProvider \<and> Key d \<noteq> AttributeCloudAccount
              \<and> Key d \<noteq> AttributeHostID)
       \<and> (\<forall>v. (AttributeCloudRegion, v) \<in> set resourceAttr \<longrightarrow>
              Some \<lparr>Key = AttributeCloudRegion, Value = AttributeValueToString L v\<rparr>
                \<in> set (sliceDims h' dims))"
proof -
  obtain keep s h1 where c: "cloudDimension L resourceAttr h = (keep, s, h1)"
    by (cases "cloudDimension L resourceAttr h")
  note A = cloudDimension_gcp [OF c assms(1,2,3)]
  note D = resourceAttributesToDimensions_dims [OF assms(4) c]
  have eq: "sliceDims h' dims =
           Some \<lparr>Key = gostr ''gcp_id'',
                  Value = getStringAttr resourceAttr AttributeCloudAccount @ gostr ''_''
                          @ getStringAttr resourceAttr AttributeHostID\<rparr>
           # map (\<lambda>kv. Some (attrDim L kv))
               (filter (\<lambda>kv. fst kv \<noteq> SFxAccessTokenLabel \<and> fst kv \<noteq> AttributeCloudAccount
                             \<and> fst kv \<noteq> AttributeHostID \<and> fst kv \<noteq> AttributeCloudProvider) resourceAttr)"
    unfolding D A(2) A(3) by simp
  have k: "gostr ''gcp_id'' \<noteq> AttributeCloudProvider" "gostr ''gcp_id'' \<noteq> AttributeCloudAccount"
      "gostr ''gcp_id'' \<noteq> AttributeHostID"
    by (simp_all add: AttributeCloudProvider_def AttributeCloudAccount_def
          AttributeHostID_def gostr_def)
  have no: "\<forall>d. Some d \<in> set (sliceDims h' dims) \<longrightarrow>
              Key d \<noteq> AttributeCloudProvider \<and> Key d \<noteq> AttributeCloudAccount
              \<and> Key d \<noteq> AttributeHostID"
    unfolding eq using k by (auto simp: attrDim_def)
  have reg: "\<forall>v. (AttributeCloudRegion, v) \<in> set resourceAttr \<longrightarrow>
              Some \<lparr>Key = AttributeCloudRegion, Value = AttributeValueToString L v\<rparr>
                \<in> set (sliceDims h' dims)"
  proof (intro allI impI)
    fix v assume "(AttributeCloudRegion, v) \<in> set resourceAttr"
    with key_consts_distinct(2,3,4,5)
    have "(AttributeCloudRegion, v) \<in> set (filter (\<lambda>kv. fst kv \<noteq> SFxAccessTokenLabel \<and> fst kv \<noteq> AttributeCloudAccount
                             \<and> fst kv \<noteq> AttributeHostID \<and> fst kv \<noteq> AttributeCloudProvider) resourceAttr)"
      by simp
    then have "Some (attrDim L (AttributeCloudRegion, v)) \<in> set (sliceDims h' dims)"
      unfolding eq by (simp add: image_iff) blast
    then show "Some \<lparr>Key = AttributeCloudRegion, Value = AttributeValueToString L v\<rparr>
                \<in> set (sliceDims h' dims)" by (simp add: attrDim_def)
  qed
  from eq no reg show ?thesis by (simp add: AttributeCloudProviderGCP_def)
qed

theorem C5_aws_unique_id_witness:
  "getStringAttr awsAttrs AttributeCloudProvider = AttributeCloudProviderAWS
   \<and> getStringAttr awsAttrs AttributeCloudAccount \<noteq> []
   \<and> getStringAttr awsAttrs AttributeCloudRegion \<noteq> []
   \<and> getStringAttr awsAttrs AttributeHostID \<noteq> []
   \<and> sliceDims (snd (resourceAttributesToDimensions testLib awsAttrs emptyHeap))
                 (fst (resourceAttributesToDimensions testLib awsAttrs emptyHeap))
       = [Some \<lparr>Key = gostr ''AWSUniqueId'', Value = gostr ''i-1_us-east-1_111''\<rparr>,
          Some \<lparr>Key = gostr ''k.x'', Value = gostr ''v''\<rparr>]"
proof -
  let ?R = "resourceAttributesToDimensions testLib awsAttrs emptyHeap"
  have p: "getStringAttr awsAttrs AttributeCloudProvider = AttributeCloudProviderAWS" by code_simp
  have a: "getStringAttr awsAttrs AttributeCloudAccount \<noteq> []" by code_simp
  have r: "getStringAttr awsAttrs AttributeCloudRegion \<noteq> []" by code_simp
  have i: "getStringAttr awsAttrs AttributeHostID \<noteq> []" by code_simp
  have v: "Some \<lparr>Key = gostr ''AWSUniqueId'',
                  Value = getStringAttr awsAttrs AttributeHostID @ gostr ''_''
                          @ getStringAttr awsAttrs AttributeCloudRegion @ gostr ''_''
                          @ getStringAttr awsAttrs AttributeCloudAccount\<rparr>
           # map (\<lambda>kv. Some (attrDim testLib kv))
               (filter (\<lambda>kv. fst kv \<noteq> SFxAccessTokenLabel \<and> fst kv \<noteq> AttributeCloudAccount
                             \<and> fst kv \<noteq> AttributeCloudRegion \<and> fst kv \<noteq> AttributeHostID
                             \<and> fst kv \<noteq> AttributeCloudProvider) awsAttrs)
       = [Some \<lparr>Key = gostr ''AWSUniqueId'', Value = gostr ''i-1_us-east-1_111''\<rparr>,
          Some \<lparr>Key = gostr ''k.x'', Value = gostr ''v''\<rparr>]"
    by code_simp
  from C5_aws_unique_id [OF p a r i surjective_pairing, THEN conjunct2, THEN conjunct1]
  have "sliceDims (snd ?R) (fst ?R)
       = [Some \<lparr>Key = gostr ''AWSUniqueId'', Value = gostr ''i-1_us-east-1_111''\<rparr>,
          Some \<lparr>Key = gostr ''k.x'', Value = gostr ''v''\<rparr>]"
    by (simp only: v)
  with p a r i show ?thesis by (intro conjI)
qed

theorem C6_gcp_id_witness:
  "getStringAttr gcpAttrs AttributeCloudProvider = AttributeCloudProviderGCP
   \<and> getStringAttr gcpAttrs AttributeCloudAccount \<noteq> []
   \<and> getStringAttr gcpAttrs AttributeHostID \<noteq> []
   \<and> sliceDims (snd (resourceAttributesToDimensions testLib gcpAttrs emptyHeap))
                 (fst (resourceAttributesToDimensions testLib gcpAttrs emptyHeap))
       = [Some \<lparr>Key = gostr ''gcp_id'', Value = gostr ''acc1_h1''\<rparr>,
          Some \<lparr>Key = gostr ''cloud.region'', Value = gostr ''r1''\<rparr>]"
proof -
  let ?R = "resourceAttributesToDimensions testLib gcpAttrs emptyHeap"
  have p: "getStringAttr gcpAttrs AttributeCloudProvider = AttributeCloudProviderGCP" by code_simp
  have a: "getStringAttr gcpAttrs AttributeCloudAccount \<noteq> []" by code_simp
  have i: "getStringAttr gcpAttrs AttributeHostID \<noteq> []" by code_simp
  have v: "Some \<lparr>Key = gostr ''gcp_id'',
                  Value = getStringAttr gcpAttrs AttributeCloudAccount @ gostr ''_''
                          @ getStringAttr gcpAttrs AttributeHostID\<rparr>
           # map (\<lambda>kv. Some (attrDim testLib kv))
               (filter (\<lambda>kv. fst kv \<noteq> SFxAccessTokenLabel \<and> fst kv \<noteq> AttributeCloudAccount
                             \<and> fst kv \<noteq> AttributeHostID \<and> fst kv \<noteq> AttributeCloudProvider) gcpAttrs)
       = [Some \<lparr>Key = gostr ''gcp_id'', Value = gostr ''acc1_h1''\<rparr>,
          Some \<lparr>Key = gostr ''cloud.region'', Value = gostr ''r1''\<rparr>]"
    by code_simp
  from C6_gcp_id [OF p a i surjective_pairing, THEN conjunct2, THEN conjunct1]
  have "sliceDims (snd ?R) (fst ?R)
       = [Some \<lparr>Key = gostr ''gcp_id'', Value = gostr ''acc1_h1''\<rparr>,
          Some \<lparr>Key = gostr ''cloud.region'', Value = gostr ''r1''\<rparr>]"
    by (simp only: v)
  with p a i show ?thesis by (intro conjI)
qed

lemma MetricDataToSignalFxV2_Some:
  "MetricDataToSignalFxV2 L c rm h = Some (out, h3) \<longleftrightarrow>
     (\<exists>extra h1 h2. resourceAttributesToDimensions L (ResourceAttributes rm) h = (extra, h1)
        \<and> convertLibraries L c (InstrumentationLibraryMetrics rm) extra h1 = (out, h2)
        \<and> sanitizeDataPointDimensions L out h2 = Some h3)"
  by (auto simp: MetricDataToSignalFxV2_def split: prod.splits option.splits)

lemma MetricDataToSignalFxV2_total:
  assumes "metricTranslator c = None"
  shows "\<exists>out h3. MetricDataToSignalFxV2 L c rm h = Some (out, h3)"
proof -
  obtain extra h1 where r: "resourceAttributesToDimensions L (ResourceAttributes rm) h = (extra, h1)"
    by (cases "resourceAttributesToDimensions L (ResourceAttributes rm) h")
  obtain out h2 where cl: "convertLibraries L c (InstrumentationLibraryMetrics rm) extra h1 = (out, h2)"
    by (cases "convertLibraries L c (InstrumentationLibraryMetrics rm) extra h1")
  note R = resourceAttributesToDimensions_ok [OF r]
  from convertLibraries_ok [OF cl assms R(1)] have "pointsOver h2 (sliceDims h1 extra) out" by simp
  from pointsOver_valid [OF this R(2)] sanitizeDataPointDimensions_total
  obtain h3 where "sanitizeDataPointDimensions L out h2 = Some h3" by blast
  with r cl have "MetricDataToSignalFxV2 L c rm h = Some (out, h3)"
    by (simp add: MetricDataToSignalFxV2_Some)
  then show ?thesis by blast
qed

lemma filterKeyChars_not_token: "filterKeyChars L k \<noteq> SFxAccessTokenLabel"
proof -
  have "46 \<in> set SFxAccessTokenLabel" by (simp add: SFxAccessTokenLabel_def gostr_def)
  moreover have "46 \<notin> set (filterKeyChars L k)"
    by (auto simp: filterKeyChars_def filterMap_def unicode_IsLetter_def unicode_IsDigit_def
             split: if_splits)
  ultimately show ?thesis by metis
qed

lemma map_of_filter_token:
  "k \<noteq> SFxAccessTokenLabel \<Longrightarrow>
   map_of (filter (\<lambda>kv. fst kv \<noteq> SFxAccessTokenLabel) attrs) k = map_of attrs k"
  by (induction attrs) auto

lemma getStringAttr_filter_token:
  "k \<noteq> SFxAccessTokenLabel \<Longrightarrow>
   getStringAttr (filter (\<lambda>kv. fst kv \<noteq> SFxAccessTokenLabel) attrs) k = getStringAttr attrs k"
  by (simp add: getStringAttr_def map_of_filter_token)

lemma attributesForEach_filter_token:
  "attributesForEach L keep (filter (\<lambda>kv. fst kv \<noteq> SFxAccessTokenLabel) attrs) s h
     = attributesForEach L keep attrs s h"
proof (induction attrs arbitrary: s h)
  case Nil
  then show ?case by simp
next
  case (Cons kv attrs)
  obtain k v where kv: "kv = (k, v)" by (cases kv)
  show ?case by (simp add: kv Cons.IH split: prod.splits)
qed

lemma resourceAttributesToDimensions_filter_token:
  "resourceAttributesToDimensions L (filter (\<lambda>kv. fst kv \<noteq> SFxAccessTokenLabel) attrs) h
     = resourceAttributesToDimensions L attrs h"
proof -
  have k: "AttributeCloudAccount \<noteq> SFxAccessTokenLabel" "AttributeCloudRegion \<noteq> SFxAccessTokenLabel"
    "AttributeHostID \<noteq> SFxAccessTokenLabel" "AttributeCloudProvider \<noteq> SFxAccessTokenLabel"
    by (simp_all add: AttributeCloudAccount_def AttributeCloudRegion_def AttributeHostID_def
          AttributeCloudProvider_def SFxAccessTokenLabel_def gostr_def)
  have "cloudDimension L (filter (\<lambda>kv. fst kv \<noteq> SFxAccessTokenLabel) attrs) h = cloudDimension L attrs h"
    unfolding cloudDimension_def by (simp only: getStringAttr_filter_token [OF k(1)]
        getStringAttr_filter_token [OF k(2)] getStringAttr_filter_token [OF k(3)]
        getStringAttr_filter_token [OF k(4)])
  then show ?thesis
    by (simp add: resourceAttributesToDimensions_def attributesForEach_filter_token)
qed

text \<open>
  C9. For every resource, in every provider branch, no dimension of the resource-level
  dimension list has the access token label as key (and every pointer of the list is
  non-nil); no dimension of any data point that \<open>MetricDataToSignalFxV2\<close> returns,
  with or without a translator, has the access token label as key; and the result of the
  conversion is the same when the access token attributes are removed from the resource,
  so neither the key nor the value of such an attribute reaches an emitted point.
\<close>

theorem C9_access_token_dropped:
  "(resourceAttributesToDimensions L resourceAttr h = (dims, h')
      \<longrightarrow> None \<notin> set (sliceDims h' dims)
          \<and> (\<forall>d. Some d \<in> set (sliceDims h' dims) \<longrightarrow> Key d \<noteq> SFxAccessTokenLabel))
   \<and> (MetricDataToSignalFxV2 L c rm h = Some (out, h3)
      \<longrightarrow> (\<forall>dp \<in> set out. \<forall>d. Some d \<in> set (sliceDims h3 (Dimensions dp))
              \<longrightarrow> Key d \<noteq> SFxAccessTokenLabel))
   \<and> MetricDataToSignalFxV2 L c
        (rm\<lparr>ResourceAttributes := filter (\<lambda>kv. fst kv \<noteq> SFxAccessTokenLabel) (ResourceAttributes rm)\<rparr>) h
       = MetricDataToSignalFxV2 L c rm h"
proof (intro conjI impI)
  show "MetricDataToSignalFxV2 L c
        (rm\<lparr>ResourceAttributes := filter (\<lambda>kv. fst kv \<noteq> SFxAccessTokenLabel) (ResourceAttributes rm)\<rparr>) h
       = MetricDataToSignalFxV2 L c rm h"
    by (simp add: MetricDataToSignalFxV2_def resourceAttributesToDimensions_filter_token)
next
  assume r: "resourceAttributesToDimensions L resourceAttr h = (dims, h')"
  from resourceAttributesToDimensions_ok(2) [OF r] show "None \<notin> set (sliceDims h' dims)" .
  from resourceAttributesToDimensions_ok(3) [OF r]
  show "\<forall>d. Some d \<in> set (sliceDims h' dims) \<longrightarrow> Key d \<noteq> SFxAccessTokenLabel" .
next
  assume "MetricDataToSignalFxV2 L c rm h = Some (out, h3)"
  then obtain h2 where s: "sanitizeDataPointDimensions L out h2 = Some h3"
    by (auto simp: MetricDataToSignalFxV2_Some)
  show "\<forall>dp \<in> set out. \<forall>d. Some d \<in> set (sliceDims h3 (Dimensions dp)) \<longrightarrow> Key d \<noteq> SFxAccessTokenLabel"
  proof (intro ballI allI impI)
    fix dp d assume dp: "dp \<in> set out" and d: "Some d \<in> set (sliceDims h3 (Dimensions dp))"
    from d sanitizeDataPointDimensions_dims [OF s dp]
    have "Some d \<in> map_option (sanitizeKey L) ` set (sliceDims h2 (Dimensions dp))" by simp
    then obtain x where "Some d = map_option (sanitizeKey L) x" by blast
    then obtain d0 where "d = sanitizeKey L d0" by (cases x) auto
    then show "Key d \<noteq> SFxAccessTokenLabel"
      by (simp add: sanitizeKey_def filterKeyChars_not_token)
  qed
qed

theorem C9_access_token_dropped_witness:
  "(SFxAccessTokenLabel, AttrString (gostr ''tok'')) \<in> set awsAttrs
   \<and> map (map_option Key)
         (sliceDims (snd (resourceAttributesToDimensions testLib awsAttrs emptyHeap))
                    (fst (resourceAttributesToDimensions testLib awsAttrs emptyHeap)))
       = [Some (gostr ''AWSUniqueId''), Some (gostr ''k.x'')]
   \<and> list_all (\<lambda>d. map_option Key d \<noteq> Some SFxAccessTokenLabel)
         (sliceDims (snd (resourceAttributesToDimensions testLib awsAttrs emptyHeap))
                    (fst (resourceAttributesToDimensions testLib awsAttrs emptyHeap)))
   \<and> MetricDataToSignalFxV2 testLib noTranslator tokenBatch emptyHeap \<noteq> None
   \<and> list_all (\<lambda>dp. list_all (\<lambda>d. map_option Key d \<noteq> Some SFxAccessTokenLabel)
                    (sliceDims (snd (the (MetricDataToSignalFxV2 testLib noTranslator tokenBatch emptyHeap)))
                       (Dimensions dp)))
         (fst (the (MetricDataToSignalFxV2 testLib noTranslator tokenBatch emptyHeap)))
   \<and> MetricDataToSignalFxV2 testLib noTranslator
        (tokenBatch\<lparr>ResourceAttributes :=
            filter (\<lambda>kv. fst kv \<noteq> SFxAccessTokenLabel) (ResourceAttributes tokenBatch)\<rparr>) emptyHeap
       = MetricDataToSignalFxV2 testLib noTranslator tokenBatch emptyHeap"
proof (intro conjI)
  from C9_access_token_dropped [THEN conjunct2, THEN conjunct2]
  show "MetricDataToSignalFxV2 testLib noTranslator
        (tokenBatch\<lparr>ResourceAttributes :=
            filter (\<lambda>kv. fst kv \<noteq> SFxAccessTokenLabel) (ResourceAttributes tokenBatch)\<rparr>) emptyHeap
       = MetricDataToSignalFxV2 testLib noTranslator tokenBatch emptyHeap" .
next
  let ?R = "resourceAttributesToDimensions testLib awsAttrs emptyHeap"
  let ?M = "MetricDataToSignalFxV2 testLib noTranslator tokenBatch emptyHeap"
  show "(SFxAccessTokenLabel, AttrString (gostr ''tok'')) \<in> set awsAttrs"
    by (simp add: awsAttrs_def SFxAccessTokenLabel_def)
  show "map (map_option Key) (sliceDims (snd ?R) (fst ?R))
       = [Some (gostr ''AWSUniqueId''), Some (gostr ''k.x'')]"
    by code_simp
  from C9_access_token_dropped [THEN conjunct1, rule_format, OF surjective_pairing]
  have "None \<notin> set (sliceDims (snd ?R) (fst ?R))"
    and "\<forall>d. Some d \<in> set (sliceDims (snd ?R) (fst ?R)) \<longrightarrow> Key d \<noteq> SFxAccessTokenLabel"
    by blast+
  then have "\<forall>x \<in> set (sliceDims (snd ?R) (fst ?R)). map_option Key x \<noteq> Some SFxAccessTokenLabel"
    by (intro ballI) (case_tac x, auto)
  then show "list_all (\<lambda>d. map_option Key d \<noteq> Some SFxAccessTokenLabel) (sliceDims (snd ?R) (fst ?R))"
    by (simp only: list_all_iff)
  have "metricTranslator noTranslator = None" by (simp add: noTranslator_def)
  from MetricDataToSignalFxV2_total [OF this]
  obtain out h3 where m: "?M = Some (out, h3)" by blast
  then show "?M \<noteq> None" by simp
  from C9_access_token_dropped [THEN conjunct2, THEN conjunct1, rule_format, OF m]
  have "\<forall>dp \<in> set out. \<forall>d. Some d \<in> set (sliceDims h3 (Dimensions dp)) \<longrightarrow> Key d \<noteq> SFxAccessTokenLabel"
    by blast
  then have "\<forall>dp \<in> set out. \<forall>x \<in> set (sliceDims h3 (Dimensions dp)).
               map_option Key x \<noteq> Some SFxAccessTokenLabel"
    by (intro ballI) (case_tac x, auto)
  then have "list_all (\<lambda>dp. list_all (\<lambda>d. map_option Key d \<noteq> Some SFxAccessTokenLabel)
                    (sliceDims h3 (Dimensions dp))) out"
    by (simp only: list_all_iff)
  with m show "list_all (\<lambda>dp. list_all (\<lambda>d. map_option Key d \<noteq> Some SFxAccessTokenLabel)
                    (sliceDims (snd (the ?M)) (Dimensions dp))) (fst (the ?M))"
    by simp
qed

lemma nonNil_append: "nonNil (xs @ ys) = nonNil xs @ nonNil ys"
proof (induction xs)
  case Nil
  then show ?case by simp
next
  case (Cons x xs)
  then show ?case by (cases x) simp_all
qed

lemma metricToSfxDataPoints_split:
  "metricToSfxDataPoints L c m extra h =
     (case metricToSfxDataPoints L noTranslator m extra h of
        (dps, h1) \<Rightarrow>
          (case metricTranslator c of
             None \<Rightarrow> (dps, h1)
           | Some t \<Rightarrow> if Data m = MetricDataNone then (dps, h1) else t dps h1))"
  by (cases "Data m")
     (simp_all add: metricToSfxDataPoints_def noTranslator_def split: prod.splits option.splits)

lemma convertThenTranslate_append:
  "convertThenTranslate L c (xs @ ys) extra h =
     (case convertThenTranslate L c xs extra h of
        (o1, h1) \<Rightarrow> (case convertThenTranslate L c ys extra h1 of (o2, h2) \<Rightarrow> (o1 @ o2, h2)))"
proof (induction xs arbitrary: h)
  case Nil
  then show ?case by simp
next
  case (Cons x xs)
  then show ?case by (simp add: Let_def split: prod.splits)
qed

lemma convertMetrics_flat:
  "convertMetrics L c ms extra h = convertThenTranslate L c (nonNil ms) extra h"
proof (induction ms arbitrary: h)
  case Nil
  then show ?case by simp
next
  case (Cons x ms)
  show ?case
  proof (cases x)
    case None
    with Cons show ?thesis by simp
  next
    case (Some m)
    have "convertMetrics L c (Some m # ms) extra h =
            (case metricToSfxDataPoints L c m extra h of
               (dps, h1) \<Rightarrow> (case convertThenTranslate L c (nonNil ms) extra h1 of
                                (rest, h2) \<Rightarrow> (dps @ rest, h2)))"
      by (simp add: Cons.IH)
    also have "\<dots> = convertThenTranslate L c (m # nonNil ms) extra h"
      by (subst metricToSfxDataPoints_split) (simp add: Let_def split: prod.splits)
    finally show ?thesis by (simp add: Some)
  qed
qed

lemma convertLibraries_flat:
  "convertLibraries L c ilms extra h = convertThenTranslate L c (nonNil (concat (nonNil ilms))) extra h"
proof (induction ilms arbitrary: h)
  case Nil
  then show ?case by simp
next
  case (Cons x ilms)
  show ?case
  proof (cases x)
    case None
    with Cons show ?thesis by simp
  next
    case (Some ilm)
    with Cons show ?thesis
      by (simp add: convertMetrics_flat nonNil_append convertThenTranslate_append)
  qed
qed

text \<open>
  C3, as stated, fails when a translator is present: the code applies the translator to
  the points of each metric before the sanitizer runs. With a translator that renames a
  point to the key of its first dimension, the code returns the point named \<^verbatim>\<open>a.b\<close> (the
  key before sanitization), the claimed order the point named \<^verbatim>\<open>a_b\<close>.
\<close>

theorem C3_translator_order_counterexample:
  "MetricDataToSignalFxV2 testLib renamingConverter gaugeBatch emptyHeap
     \<noteq> claimedPipeline testLib renamingConverter gaugeBatch emptyHeap
   \<and> map_option (map Metric \<circ> fst)
        (MetricDataToSignalFxV2 testLib renamingConverter gaugeBatch emptyHeap) = Some [gostr ''a.b'']
   \<and> map_option (map Metric \<circ> fst)
        (claimedPipeline testLib renamingConverter gaugeBatch emptyHeap) = Some [gostr ''a_b'']"
  by code_simp

text \<open>
  C3, amended. For every batch the conversion result equals: for each non-nil metric of
  each non-nil instrumentation library, in order, convert its data points and then apply
  the Rule Translator, if any, to the points of that metric; concatenate; then run the Key
  Sanitizer once over the complete list. When the conversion returns, the sanitizer has
  left the backing arrays alone and every dimension of every returned point is the
  dimension it was after assembly with its key sanitized (also where points share a
  dimension object), so every returned key is a fixed point of the sanitizer. Without a
  Rule Translator the result equals assemble-all-points, then sanitize, and the conversion
  always returns.
\<close>

theorem C3_sanitize_after_translate:
  "MetricDataToSignalFxV2 L c rm h = amendedPipeline L c rm h
   \<and> (MetricDataToSignalFxV2 L c rm h = Some (out, h3) \<longrightarrow>
        (\<exists>extraDimensions h1 h2.
            resourceAttributesToDimensions L (ResourceAttributes rm) h = (extraDimensions, h1)
          \<and> convertThenTranslate L c (nonNil (concat (nonNil (InstrumentationLibraryMetrics rm))))
                extraDimensions h1 = (out, h2)
          \<and> sanitizeDataPointDimensions L out h2 = Some h3
          \<and> ptrArrays h3 = ptrArrays h2
          \<and> (\<forall>dp \<in> set out. sliceDims h3 (Dimensions dp)
                  = map (map_option (sanitizeKey L)) (sliceDims h2 (Dimensions dp)))
          \<and> (\<forall>dp \<in> set out. \<forall>d. Some d \<in> set (sliceDims h3 (Dimensions dp))
                  \<longrightarrow> filterKeyChars L (Key d) = Key d)))
   \<and> (metricTranslator c = None \<longrightarrow>
          MetricDataToSignalFxV2 L c rm h = claimedPipeline L c rm h
        \<and> MetricDataToSignalFxV2 L c rm h \<noteq> None)"
proof (intro conjI impI)
  show "MetricDataToSignalFxV2 L c rm h = amendedPipeline L c rm h"
    by (simp add: MetricDataToSignalFxV2_def amendedPipeline_def convertLibraries_flat)
next
  assume m: "MetricDataToSignalFxV2 L c rm h = Some (out, h3)"
  then obtain extra h1 h2 where r: "resourceAttributesToDimensions L (ResourceAttributes rm) h = (extra, h1)"
    and cl: "convertLibraries L c (InstrumentationLibraryMetrics rm) extra h1 = (out, h2)"
    and sa: "sanitizeDataPointDimensions L out h2 = Some h3"
    by (auto simp: MetricDataToSignalFxV2_Some)
  from cl have ct: "convertThenTranslate L c (nonNil (concat (nonNil (InstrumentationLibraryMetrics rm))))
                extra h1 = (out, h2)" by (simp add: convertLibraries_flat)
  note S = sanitizeDataPointDimensions_spec [OF sa]
  have dm: "\<forall>dp \<in> set out. sliceDims h3 (Dimensions dp)
                  = map (map_option (sanitizeKey L)) (sliceDims h2 (Dimensions dp))"
    using sanitizeDataPointDimensions_dims [OF sa] by blast
  have fx: "\<forall>dp \<in> set out. \<forall>d. Some d \<in> set (sliceDims h3 (Dimensions dp))
                  \<longrightarrow> filterKeyChars L (Key d) = Key d"
  proof (intro ballI allI impI)
    fix dp d assume dp: "dp \<in> set out" and d: "Some d \<in> set (sliceDims h3 (Dimensions dp))"
    from dm dp d have "Some d \<in> map_option (sanitizeKey L) ` set (sliceDims h2 (Dimensions dp))" by simp
    then obtain x where "Some d = map_option (sanitizeKey L) x" by blast
    then obtain d0 where "d = sanitizeKey L d0" by (cases x) auto
    then show "filterKeyChars L (Key d) = Key d" by (simp add: sanitizeKey_def filterKeyChars_idem)
  qed
  from r ct sa S(1) dm fx
  show "\<exists>extraDimensions h1 h2.
            resourceAttributesToDimensions L (ResourceAttributes rm) h = (extraDimensions, h1)
          \<and> convertThenTranslate L c (nonNil (concat (nonNil (InstrumentationLibraryMetrics rm))))
                extraDimensions h1 = (out, h2)
          \<and> sanitizeDataPointDimensions L out h2 = Some h3
          \<and> ptrArrays h3 = ptrArrays h2
          \<and> (\<forall>dp \<in> set out. sliceDims h3 (Dimensions dp)
                  = map (map_option (sanitizeKey L)) (sliceDims h2 (Dimensions dp)))
          \<and> (\<forall>dp \<in> set out. \<forall>d. Some d \<in> set (sliceDims h3 (Dimensions dp))
                  \<longrightarrow> filterKeyChars L (Key d) = Key d)"
    by blast
next
  assume t: "metricTranslator c = None"
  then have "c = noTranslator" by (cases c) (simp add: noTranslator_def)
  then show "MetricDataToSignalFxV2 L c rm h = claimedPipeline L c rm h"
    by (simp add: MetricDataToSignalFxV2_def claimedPipeline_def noTranslator_def split: prod.splits option.splits)
  from MetricDataToSignalFxV2_total [OF t] show "MetricDataToSignalFxV2 L c rm h \<noteq> None" by auto
qed

theorem C3_sanitize_after_translate_witness:
  "MetricDataToSignalFxV2 testLib renamingConverter gaugeBatch emptyHeap
     = amendedPipeline testLib renamingConverter gaugeBatch emptyHeap
   \<and> MetricDataToSignalFxV2 testLib renamingConverter gaugeBatch emptyHeap \<noteq> None
   \<and> list_all (\<lambda>dp. list_all (\<lambda>d. map_option (\<lambda>d. filterKeyChars testLib (Key d)) d = map_option Key d)
                    (sliceDims (snd (the (MetricDataToSignalFxV2 testLib renamingConverter gaugeBatch emptyHeap)))
                       (Dimensions dp)))
         (fst (the (MetricDataToSignalFxV2 testLib renamingConverter gaugeBatch emptyHeap)))
   \<and> map (\<lambda>dp. sliceDims (snd (the (MetricDataToSignalFxV2 testLib renamingConverter gaugeBatch emptyHeap)))
                  (Dimensions dp))
         (fst (the (MetricDataToSignalFxV2 testLib renamingConverter gaugeBatch emptyHeap)))
       = [[Some \<lparr>Key = gostr ''a_b'', Value = gostr ''v''\<rparr>]]
   \<and> metricTranslator noTranslator = None
   \<and> MetricDataToSignalFxV2 testLib noTranslator gaugeBatch emptyHeap
       = claimedPipeline testLib noTranslator gaugeBatch emptyHeap
   \<and> MetricDataToSignalFxV2 testLib noTranslator gaugeBatch emptyHeap \<noteq> None"
proof (intro conjI)
  let ?M = "MetricDataToSignalFxV2 testLib renamingConverter gaugeBatch emptyHeap"
  from C3_sanitize_after_translate [THEN conjunct1]
  show "?M = amendedPipeline testLib renamingConverter gaugeBatch emptyHeap" .
  show ne: "?M \<noteq> None" by code_simp
  then have m: "?M = Some (fst (the ?M), snd (the ?M))" by auto
  from C3_sanitize_after_translate [THEN conjunct2, THEN conjunct1, rule_format, OF m]
  have "\<forall>dp \<in> set (fst (the ?M)). \<forall>d. Some d \<in> set (sliceDims (snd (the ?M)) (Dimensions dp))
                  \<longrightarrow> filterKeyChars testLib (Key d) = Key d" by blast
  then have "\<forall>dp \<in> set (fst (the ?M)). \<forall>x \<in> set (sliceDims (snd (the ?M)) (Dimensions dp)).
               map_option (\<lambda>d. filterKeyChars testLib (Key d)) x = map_option Key x"
    by (intro ballI) (case_tac x, auto)
  then show "list_all (\<lambda>dp. list_all (\<lambda>d. map_option (\<lambda>d. filterKeyChars testLib (Key d)) d = map_option Key d)
                    (sliceDims (snd (the ?M)) (Dimensions dp))) (fst (the ?M))"
    by (simp only: list_all_iff)
  show "map (\<lambda>dp. sliceDims (snd (the ?M)) (Dimensions dp)) (fst (the ?M))
       = [[Some \<lparr>Key = gostr ''a_b'', Value = gostr ''v''\<rparr>]]"
    by code_simp
  show t: "metricTranslator noTranslator = None" by (simp add: noTranslator_def)
  from C3_sanitize_after_translate [THEN conjunct2, THEN conjunct2, rule_format, OF t]
  show "MetricDataToSignalFxV2 testLib noTranslator gaugeBatch emptyHeap
       = claimedPipeline testLib noTranslator gaugeBatch emptyHeap"
    and "MetricDataToSignalFxV2 testLib noTranslator gaugeBatch emptyHeap \<noteq> None"
    by blast+
qed

lemma convertMetrics_append:
  "convertMetrics L c (xs @ ys) extra h =
     (case convertMetrics L c xs extra h of
        (o1, h1) \<Rightarrow> (case convertMetrics L c ys extra h1 of (o2, h2) \<Rightarrow> (o1 @ o2, h2)))"
proof (induction xs arbitrary: h)
  case Nil
  then show ?case by simp
next
  case (Cons x xs)
  show ?case
  proof (cases x)
    case None
    with Cons show ?thesis by simp
  next
    case (Some m)
    with Cons show ?thesis by (simp add: Let_def split: prod.splits)
  qed
qed

lemma convertLibraries_append:
  "convertLibraries L c (xs @ ys) extra h =
     (case convertLibraries L c xs extra h of
        (o1, h1) \<Rightarrow> (case convertLibraries L c ys extra h1 of (o2, h2) \<Rightarrow> (o1 @ o2, h2)))"
proof (induction xs arbitrary: h)
  case Nil
  then show ?case by simp
next
  case (Cons x xs)
  show ?case
  proof (cases x)
    case None
    with Cons show ?thesis by simp
  next
    case (Some ilm)
    with Cons show ?thesis by (simp add: Let_def split: prod.splits)
  qed
qed

lemma convertMetrics_at:
  "convertMetrics L c (preM @ Some metric # postM) extra h
          = (case convertMetrics L c preM extra h of
               (o1, g1) \<Rightarrow>
                 (case metricToSfxDataPoints L c metric extra g1 of
                    (o2, g2) \<Rightarrow>
                      (case convertMetrics L c postM extra g2 of
                         (o3, g3) \<Rightarrow> (o1 @ o2 @ o3, g3))))"
  by (simp add: convertMetrics_append Let_def split: prod.splits)

lemma convertLibraries_at:
  "convertLibraries L c (preL @ Some ilm # postL) extra h
          = (case convertLibraries L c preL extra h of
               (o1, g1) \<Rightarrow>
                 (case convertMetrics L c ilm extra g1 of
                    (o2, g2) \<Rightarrow>
                      (case convertLibraries L c postL extra g2 of
                         (o3, g3) \<Rightarrow> (o1 @ o2 @ o3, g3))))"
  by (simp add: convertLibraries_append Let_def split: prod.splits)

lemma metricToSfxDataPoints_histogram:
  assumes "metricTranslator c = None"
  shows "Data m = IntHistogram t dpsI \<Longrightarrow>
           metricToSfxDataPoints L c m extra h = convertIntHistogram L dpsI (makeBaseDataPoint m) extra h"
    and "Data m = DoubleHistogram t dpsD \<Longrightarrow>
           metricToSfxDataPoints L c m extra h = convertDoubleHistogram L dpsD (makeBaseDataPoint m) extra h"
  using assms by (simp_all add: metricToSfxDataPoints_def Let_def split: prod.splits)

lemma MetricDataToSignalFxV2_at:
  assumes nt: "metricTranslator c = None"
    and ilm: "InstrumentationLibraryMetrics rm = preL @ Some (preM @ Some metric # postM) # postL"
  shows "\<exists>res hEnd extra h1 h2 hb mo hm h6.
            MetricDataToSignalFxV2 L c rm h0 = Some (res, hEnd)
          \<and> extra = fst (resourceAttributesToDimensions L (ResourceAttributes rm) h0)
          \<and> wfSlice hb extra
          \<and> metricToSfxDataPoints L c metric extra hb = (mo, hm)
          \<and> res = fst (convertLibraries L c preL extra h1) @ fst (convertMetrics L c preM extra h2)
                   @ mo @ fst (convertMetrics L c postM extra hm) @ fst (convertLibraries L c postL extra h6)"
proof -
  obtain extra h1 where r: "resourceAttributesToDimensions L (ResourceAttributes rm) h0 = (extra, h1)"
    by (cases "resourceAttributesToDimensions L (ResourceAttributes rm) h0")
  note R = resourceAttributesToDimensions_ok [OF r]
  obtain a ha where A: "convertLibraries L c preL extra h1 = (a, ha)"
    by (cases "convertLibraries L c preL extra h1")
  from convertLibraries_ok [OF A nt R(1)] have ea: "heapExt h1 ha" by simp
  note Wa = wfSlice_stable(1) [OF ea R(1)]
  obtain b hb where B: "convertMetrics L c preM extra ha = (b, hb)"
    by (cases "convertMetrics L c preM extra ha")
  from convertMetrics_ok [OF B nt Wa] have eb: "heapExt ha hb" by simp
  note Wb = wfSlice_stable(1) [OF eb Wa]
  obtain mo hm where M: "metricToSfxDataPoints L c metric extra hb = (mo, hm)"
    by (cases "metricToSfxDataPoints L c metric extra hb")
  obtain p hp where P: "convertMetrics L c postM extra hm = (p, hp)"
    by (cases "convertMetrics L c postM extra hm")
  obtain q hq where Q: "convertLibraries L c postL extra hp = (q, hq)"
    by (cases "convertLibraries L c postL extra hp")
  have CM: "convertMetrics L c (preM @ Some metric # postM) extra ha = (b @ mo @ p, hp)"
    by (simp only: convertMetrics_at B M P prod.case)
  have CL: "convertLibraries L c (InstrumentationLibraryMetrics rm) extra h1 = (a @ (b @ mo @ p) @ q, hq)"
    unfolding ilm by (simp only: convertLibraries_at A CM Q prod.case)
  from MetricDataToSignalFxV2_total [OF nt, of L rm h0]
  obtain res hEnd where T: "MetricDataToSignalFxV2 L c rm h0 = Some (res, hEnd)" by blast
  from T r CL have res: "res = a @ (b @ mo @ p) @ q"
    by (simp add: MetricDataToSignalFxV2_Some)
  have "res = fst (convertLibraries L c preL extra h1) @ fst (convertMetrics L c preM extra ha)
                @ mo @ fst (convertMetrics L c postM extra hm) @ fst (convertLibraries L c postL extra hp)"
    by (simp add: res A B P Q)
  moreover from r have "extra = fst (resourceAttributesToDimensions L (ResourceAttributes rm) h0)" by simp
  ultimately show ?thesis using T Wb M by blast
qed

lemma MetricDataToSignalFxV2_mismatch_Int:
  assumes nt: "metricTranslator c = None"
    and ilm: "InstrumentationLibraryMetrics rm = preL @ Some (preM @ Some metric # postM) # postL"
    and d: "Data metric = IntHistogram t (preI @ Some histI # postI)"
    and ne: "hBucketCounts histI \<noteq> []"
    and N: "length (hBucketCounts histI) \<noteq> length (hExplicitBounds histI) + 1"
  shows "\<exists>res hEnd extra h1 h2 h3 h4 h5 h6 cnt sm.
              MetricDataToSignalFxV2 L c rm h0 = Some (res, hEnd)
            \<and> extra = fst (resourceAttributesToDimensions L (ResourceAttributes rm) h0)
            \<and> res = fst (convertLibraries L c preL extra h1)
                      @ fst (convertMetrics L c preM extra h2)
                      @ fst (convertIntHistogram L preI (makeBaseDataPoint metric) extra h3)
                      @ cnt # sm
                      # fst (convertIntHistogram L postI (makeBaseDataPoint metric) extra h4)
                      @ fst (convertMetrics L c postM extra h5)
                      @ fst (convertLibraries L c postL extra h6)
            \<and> Metric cnt = Name metric @ gostr ''_count''
            \<and> MetricType cnt = fromMetricDataTypeToMetricType metric
            \<and> Timestamp cnt = timestampToSignalFx (hTimestamp histI)
            \<and> PointValue cnt = \<lparr>StrValue = None, DoubleValue = None, IntValue = Some (hCount histI)\<rparr>
            \<and> Metric sm = Name metric
            \<and> MetricType sm = fromMetricDataTypeToMetricType metric
            \<and> Timestamp sm = timestampToSignalFx (hTimestamp histI)
            \<and> PointValue sm = \<lparr>StrValue = None, DoubleValue = None, IntValue = Some (hSum histI)\<rparr>"
proof -
  from MetricDataToSignalFxV2_at [OF nt ilm, of L h0]
  obtain res hEnd extra h1 h2 hb mo hm h6 where
      R: "MetricDataToSignalFxV2 L c rm h0 = Some (res, hEnd)"
    and X: "extra = fst (resourceAttributesToDimensions L (ResourceAttributes rm) h0)"
    and W: "wfSlice hb extra"
    and M: "metricToSfxDataPoints L c metric extra hb = (mo, hm)"
    and O: "res = fst (convertLibraries L c preL extra h1) @ fst (convertMetrics L c preM extra h2)
                   @ mo @ fst (convertMetrics L c postM extra hm) @ fst (convertLibraries L c postL extra h6)"
    by blast
  from M metricToSfxDataPoints_histogram(1) [OF nt d]
  have conv: "convertIntHistogram L (preI @ Some histI # postI) (makeBaseDataPoint metric) extra hb = (mo, hm)"
    by simp
  from convertIntHistogram_mismatch [OF conv W ne N]
  obtain cnt sm h4 out2 where
      A: "mo = fst (convertIntHistogram L preI (makeBaseDataPoint metric) extra hb) @ cnt # sm # out2"
    and B: "convertIntHistogram L postI (makeBaseDataPoint metric) extra h4 = (out2, hm)"
    and C: "Metric cnt = Name metric @ gostr ''_count''"
           "MetricType cnt = fromMetricDataTypeToMetricType metric"
           "Timestamp cnt = timestampToSignalFx (hTimestamp histI)"
           "PointValue cnt = \<lparr>StrValue = None, DoubleValue = None, IntValue = Some (hCount histI)\<rparr>"
    and D: "Metric sm = Name metric"
           "MetricType sm = fromMetricDataTypeToMetricType metric"
           "Timestamp sm = timestampToSignalFx (hTimestamp histI)"
           "PointValue sm = \<lparr>StrValue = None, DoubleValue = None, IntValue = Some (hSum histI)\<rparr>"
    unfolding pointIs_def by blast
  from B have o2: "out2 = fst (convertIntHistogram L postI (makeBaseDataPoint metric) extra h4)" by simp
  from O A o2
  have O': "res = fst (convertLibraries L c preL extra h1)
                      @ fst (convertMetrics L c preM extra h2)
                      @ fst (convertIntHistogram L preI (makeBaseDataPoint metric) extra hb)
                      @ cnt # sm
                      # fst (convertIntHistogram L postI (makeBaseDataPoint metric) extra h4)
                      @ fst (convertMetrics L c postM extra hm)
                      @ fst (convertLibraries L c postL extra h6)"
    by simp
  from R X O' C D show ?thesis by blast
qed

lemma MetricDataToSignalFxV2_mismatch_Double:
  assumes nt: "metricTranslator c = None"
    and ilm: "InstrumentationLibraryMetrics rm = preL @ Some (preM @ Some metric # postM) # postL"
    and d: "Data metric = DoubleHistogram t (preD @ Some histD # postD)"
    and ne: "hBucketCounts histD \<noteq> []"
    and N: "length (hBucketCounts histD) \<noteq> length (hExplicitBounds histD) + 1"
  shows "\<exists>res hEnd extra h1 h2 h3 h4 h5 h6 cnt sm.
              MetricDataToSignalFxV2 L c rm h0 = Some (res, hEnd)
            \<and> extra = fst (resourceAttributesToDimensions L (ResourceAttributes rm) h0)
            \<and> res = fst (convertLibraries L c preL extra h1)
                      @ fst (convertMetrics L c preM extra h2)
                      @ fst (convertDoubleHistogram L preD (makeBaseDataPoint metric) extra h3)
                      @ cnt # sm
                      # fst (convertDoubleHistogram L postD (makeBaseDataPoint metric) extra h4)
                      @ fst (convertMetrics L c postM extra h5)
                      @ fst (convertLibraries L c postL extra h6)
            \<and> Metric cnt = Name metric @ gostr ''_count''
            \<and> MetricType cnt = fromMetricDataTypeToMetricType metric
            \<and> Timestamp cnt = timestampToSignalFx (hTimestamp histD)
            \<and> PointValue cnt = \<lparr>StrValue = None, DoubleValue = None, IntValue = Some (hCount histD)\<rparr>
            \<and> Metric sm = Name metric
            \<and> MetricType sm = fromMetricDataTypeToMetricType metric
            \<and> Timestamp sm = timestampToSignalFx (hTimestamp histD)
            \<and> PointValue sm = \<lparr>StrValue = None, DoubleValue = Some (hSum histD), IntValue = None\<rparr>"
proof -
  from MetricDataToSignalFxV2_at [OF nt ilm, of L h0]
  obtain res hEnd extra h1 h2 hb mo hm h6 where
      R: "MetricDataToSignalFxV2 L c rm h0 = Some (res, hEnd)"
    and X: "extra = fst (resourceAttributesToDimensions L (ResourceAttributes rm) h0)"
    and W: "wfSlice hb extra"
    and M: "metricToSfxDataPoints L c metric extra hb = (mo, hm)"
    and O: "res = fst (convertLibraries L c preL extra h1) @ fst (convertMetrics L c preM extra h2)
                   @ mo @ fst (convertMetrics L c postM extra hm) @ fst (convertLibraries L c postL extra h6)"
    by blast
  from M metricToSfxDataPoints_histogram(2) [OF nt d]
  have conv: "convertDoubleHistogram L (preD @ Some histD # postD) (makeBaseDataPoint metric) extra hb = (mo, hm)"
    by simp
  from convertDoubleHistogram_mismatch [OF conv W ne N]
  obtain cnt sm h4 out2 where
      A: "mo = fst (convertDoubleHistogram L preD (makeBaseDataPoint metric) extra hb) @ cnt # sm # out2"
    and B: "convertDoubleHistogram L postD (makeBaseDataPoint metric) extra h4 = (out2, hm)"
    and C: "Metric cnt = Name metric @ gostr ''_count''"
           "MetricType cnt = fromMetricDataTypeToMetricType metric"
           "Timestamp cnt = timestampToSignalFx (hTimestamp histD)"
           "PointValue cnt = \<lparr>StrValue = None, DoubleValue = None, IntValue = Some (hCount histD)\<rparr>"
    and D: "Metric sm = Name metric"
           "MetricType sm = fromMetricDataTypeToMetricType metric"
           "Timestamp sm = timestampToSignalFx (hTimestamp histD)"
           "PointValue sm = \<lparr>StrValue = None, DoubleValue = Some (hSum histD), IntValue = None\<rparr>"
    unfolding pointIs_def by blast
  from B have o2: "out2 = fst (convertDoubleHistogram L postD (makeBaseDataPoint metric) extra h4)" by simp
  from O A o2
  have O': "res = fst (convertLibraries L c preL extra h1)
                      @ fst (convertMetrics L c preM extra h2)
                      @ fst (convertDoubleHistogram L preD (makeBaseDataPoint metric) extra hb)
                      @ cnt # sm
                      # fst (convertDoubleHistogram L postD (makeBaseDataPoint metric) extra h4)
                      @ fst (convertMetrics L c postM extra hm)
                      @ fst (convertLibraries L c postL extra h6)"
    by simp
  from R X O' C D show ?thesis by blast
qed

text \<open>
  C4. For every Histogram data point whose bucket counts are non-empty and whose number
  differs from the number of explicit bounds plus one, exactly two data points are emitted
  for it, the count point and the sum point, and no bucket point; the converter returns its
  result as for any other input (it has no error result), and the points of the remaining
  data points follow. In a batch, with any translator, the result of the loop over the
  metrics is the points of the metrics before, the points of the metric, and the points
  of the metrics after, and likewise for the loop over the libraries. Without a translator,
  \<open>MetricDataToSignalFxV2\<close> returns a result for every batch that contains such a data
  point, and the result is the points of what comes before it, its count point and its sum
  point, and then the points of the remaining data points of the metric, of the remaining
  metrics of the library and of the remaining libraries.
\<close>

theorem C4_histogram_mismatch:
  assumes "wfSlice h extraDims"
  shows "(convertIntHistogram L (preI @ Some histI # postI) (makeBaseDataPoint metric) extraDims h = (out, h')
          \<and> hBucketCounts histI \<noteq> []
          \<and> length (hBucketCounts histI) \<noteq> length (hExplicitBounds histI) + 1
          \<longrightarrow>
          (\<exists>cnt sm h3 out2.
              out = fst (convertIntHistogram L preI (makeBaseDataPoint metric) extraDims h)
                      @ cnt # sm # out2
            \<and> convertIntHistogram L postI (makeBaseDataPoint metric) extraDims h3 = (out2, h')
            \<and> pointIs h' cnt (Name metric @ gostr ''_count'') (fromMetricDataTypeToMetricType metric)
                  (timestampToSignalFx (hTimestamp histI))
                  \<lparr>StrValue = None, DoubleValue = None, IntValue = Some (hCount histI)\<rparr>
                  (sliceDims h extraDims @ map (\<lambda>kv. Some (labelDim kv)) (hLabelsMap histI))
            \<and> pointIs h' sm (Name metric) (fromMetricDataTypeToMetricType metric)
                  (timestampToSignalFx (hTimestamp histI))
                  \<lparr>StrValue = None, DoubleValue = None, IntValue = Some (hSum histI)\<rparr>
                  (sliceDims h extraDims @ map (\<lambda>kv. Some (labelDim kv)) (hLabelsMap histI))))
       \<and> (convertDoubleHistogram L (preD @ Some histD # postD) (makeBaseDataPoint metric) extraDims h = (out, h')
          \<and> hBucketCounts histD \<noteq> []
          \<and> length (hBucketCounts histD) \<noteq> length (hExplicitBounds histD) + 1
          \<longrightarrow>
          (\<exists>cnt sm h3 out2.
              out = fst (convertDoubleHistogram L preD (makeBaseDataPoint metric) extraDims h)
                      @ cnt # sm # out2
            \<and> convertDoubleHistogram L postD (makeBaseDataPoint metric) extraDims h3 = (out2, h')
            \<and> pointIs h' cnt (Name metric @ gostr ''_count'') (fromMetricDataTypeToMetricType metric)
                  (timestampToSignalFx (hTimestamp histD))
                  \<lparr>StrValue = None, DoubleValue = None, IntValue = Some (hCount histD)\<rparr>
                  (sliceDims h extraDims @ map (\<lambda>kv. Some (labelDim kv)) (hLabelsMap histD))
            \<and> pointIs h' sm (Name metric) (fromMetricDataTypeToMetricType metric)
                  (timestampToSignalFx (hTimestamp histD))
                  \<lparr>StrValue = None, DoubleValue = Some (hSum histD), IntValue = None\<rparr>
                  (sliceDims h extraDims @ map (\<lambda>kv. Some (labelDim kv)) (hLabelsMap histD))))
       \<and> convertMetrics L c (preM @ Some metric # postM) extraDims h
          = (case convertMetrics L c preM extraDims h of
               (o1, g1) \<Rightarrow>
                 (case metricToSfxDataPoints L c metric extraDims g1 of
                    (o2, g2) \<Rightarrow>
                      (case convertMetrics L c postM extraDims g2 of
                         (o3, g3) \<Rightarrow> (o1 @ o2 @ o3, g3))))
       \<and> convertLibraries L c (preL @ Some ilm # postL) extraDims h
          = (case convertLibraries L c preL extraDims h of
               (o1, g1) \<Rightarrow>
                 (case convertMetrics L c ilm extraDims g1 of
                    (o2, g2) \<Rightarrow>
                      (case convertLibraries L c postL extraDims g2 of
                         (o3, g3) \<Rightarrow> (o1 @ o2 @ o3, g3))))
       \<and> (metricTranslator c = None
          \<and> InstrumentationLibraryMetrics rm = preL @ Some (preM @ Some metric # postM) # postL
          \<and> Data metric = IntHistogram t (preI @ Some histI # postI)
          \<and> hBucketCounts histI \<noteq> []
          \<and> length (hBucketCounts histI) \<noteq> length (hExplicitBounds histI) + 1
          \<longrightarrow>
          (\<exists>res hEnd extra h1 h2 h3 h4 h5 h6 cnt sm.
              MetricDataToSignalFxV2 L c rm h0 = Some (res, hEnd)
            \<and> extra = fst (resourceAttributesToDimensions L (ResourceAttributes rm) h0)
            \<and> res = fst (convertLibraries L c preL extra h1)
                      @ fst (convertMetrics L c preM extra h2)
                      @ fst (convertIntHistogram L preI (makeBaseDataPoint metric) extra h3)
                      @ cnt # sm
                      # fst (convertIntHistogram L postI (makeBaseDataPoint metric) extra h4)
                      @ fst (convertMetrics L c postM extra h5)
                      @ fst (convertLibraries L c postL extra h6)
            \<and> Metric cnt = Name metric @ gostr ''_count''
            \<and> MetricType cnt = fromMetricDataTypeToMetricType metric
            \<and> Timestamp cnt = timestampToSignalFx (hTimestamp histI)
            \<and> PointValue cnt = \<lparr>StrValue = None, DoubleValue = None, IntValue = Some (hCount histI)\<rparr>
            \<and> Metric sm = Name metric
            \<and> MetricType sm = fromMetricDataTypeToMetricType metric
            \<and> Timestamp sm = timestampToSignalFx (hTimestamp histI)
            \<and> PointValue sm = \<lparr>StrValue = None, DoubleValue = None, IntValue = Some (hSum histI)\<rparr>))
       \<and> (metricTranslator c = None
          \<and> InstrumentationLibraryMetrics rm = preL @ Some (preM @ Some metric # postM) # postL
          \<and> Data metric = DoubleHistogram t (preD @ Some histD # postD)
          \<and> hBucketCounts histD \<noteq> []
          \<and> length (hBucketCounts histD) \<noteq> length (hExplicitBounds histD) + 1
          \<longrightarrow>
          (\<exists>res hEnd extra h1 h2 h3 h4 h5 h6 cnt sm.
              MetricDataToSignalFxV2 L c rm h0 = Some (res, hEnd)
            \<and> extra = fst (resourceAttributesToDimensions L (ResourceAttributes rm) h0)
            \<and> res = fst (convertLibraries L c preL extra h1)
                      @ fst (convertMetrics L c preM extra h2)
                      @ fst (convertDoubleHistogram L preD (makeBaseDataPoint metric) extra h3)
                      @ cnt # sm
                      # fst (convertDoubleHistogram L postD (makeBaseDataPoint metric) extra h4)
                      @ fst (convertMetrics L c postM extra h5)
                      @ fst (convertLibraries L c postL extra h6)
            \<and> Metric cnt = Name metric @ gostr ''_count''
            \<and> MetricType cnt = fromMetricDataTypeToMetricType metric
            \<and> Timestamp cnt = timestampToSignalFx (hTimestamp histD)
            \<and> PointValue cnt = \<lparr>StrValue = None, DoubleValue = None, IntValue = Some (hCount histD)\<rparr>
            \<and> Metric sm = Name metric
            \<and> MetricType sm = fromMetricDataTypeToMetricType metric
            \<and> Timestamp sm = timestampToSignalFx (hTimestamp histD)
            \<and> PointValue sm = \<lparr>StrValue = None, DoubleValue = Some (hSum histD), IntValue = None\<rparr>))"
  apply (intro conjI impI)
  subgoal by (elim conjE) (rule convertIntHistogram_mismatch [OF _ assms])
  subgoal by (elim conjE) (rule convertDoubleHistogram_mismatch [OF _ assms])
  subgoal by (rule convertMetrics_at)
  subgoal by (rule convertLibraries_at)
  subgoal by (elim conjE) (rule MetricDataToSignalFxV2_mismatch_Int)
  subgoal by (elim conjE) (rule MetricDataToSignalFxV2_mismatch_Double)
  done

theorem C4_histogram_mismatch_witness:
  "wfSlice resourceHeap resourceDims
   \<and> hBucketCounts badHistPoint \<noteq> []
   \<and> length (hBucketCounts badHistPoint) \<noteq> length (hExplicitBounds badHistPoint) + 1
   \<and> map Metric (fst (convertDoubleHistogram testLib ([] @ Some badHistPoint # [])
                         (makeBaseDataPoint histMetric) resourceDims resourceHeap))
       = [gostr ''m_count'', gostr ''m'']
   \<and> map PointValue (fst (convertDoubleHistogram testLib ([] @ Some badHistPoint # [])
                         (makeBaseDataPoint histMetric) resourceDims resourceHeap))
       = [\<lparr>StrValue = None, DoubleValue = None, IntValue = Some 3\<rparr>,
          \<lparr>StrValue = None, DoubleValue = Some (Float64frombits 7), IntValue = None\<rparr>]
   \<and> metricTranslator noTranslator = None
   \<and> InstrumentationLibraryMetrics mismatchBatch
       = [] @ Some ([] @ Some mismatchMetric # [Some sumMetric]) # []
   \<and> Data mismatchMetric = DoubleHistogram AggregationTemporalityDelta ([] @ Some badHistPoint # [])
   \<and> MetricDataToSignalFxV2 testLib noTranslator mismatchBatch emptyHeap \<noteq> None
   \<and> map Metric (fst (the (MetricDataToSignalFxV2 testLib noTranslator mismatchBatch emptyHeap)))
       = [gostr ''m_count'', gostr ''m'', gostr ''requests_total'']"
proof -
  let ?R = "convertDoubleHistogram testLib ([] @ Some badHistPoint # [])
              (makeBaseDataPoint histMetric) resourceDims resourceHeap"
  have w: "wfSlice resourceHeap resourceDims" by code_simp
  have ne: "hBucketCounts badHistPoint \<noteq> []" by (simp add: badHistPoint_def)
  have n: "length (hBucketCounts badHistPoint) \<noteq> length (hExplicitBounds badHistPoint) + 1"
    by (simp add: badHistPoint_def)
  have c: "?R = (fst ?R, snd ?R)" by (rule surjective_pairing)
  from C4_histogram_mismatch [OF w, THEN conjunct2, THEN conjunct1, rule_format, OF conjI, OF c conjI, OF ne n]
  obtain cnt sm h3 out2 where
      A: "fst ?R = fst (convertDoubleHistogram testLib [] (makeBaseDataPoint histMetric) resourceDims resourceHeap)
                     @ cnt # sm # out2"
    and B: "convertDoubleHistogram testLib [] (makeBaseDataPoint histMetric) resourceDims h3 = (out2, snd ?R)"
    and C: "Metric cnt = Name histMetric @ gostr ''_count''"
           "PointValue cnt = \<lparr>StrValue = None, DoubleValue = None, IntValue = Some (hCount badHistPoint)\<rparr>"
    and D: "Metric sm = Name histMetric"
           "PointValue sm = \<lparr>StrValue = None, DoubleValue = Some (hSum badHistPoint), IntValue = None\<rparr>"
    unfolding pointIs_def by blast
  from B have o2: "out2 = []" by simp
  from A o2 have out: "fst ?R = [cnt, sm]" by simp
  have m: "map Metric (fst ?R)
       = [gostr ''m_count'', gostr ''m'']"
  proof -
    have "map Metric [cnt, sm]
       = [gostr ''m_count'', gostr ''m'']"
      by (simp add: C D histMetric_def gostr_def)
    with out show ?thesis by (simp only:)
  qed
  have v: "map PointValue (fst ?R)
       = [\<lparr>StrValue = None, DoubleValue = None, IntValue = Some 3\<rparr>,
          \<lparr>StrValue = None, DoubleValue = Some (Float64frombits 7), IntValue = None\<rparr>]"
  proof -
    have "map PointValue [cnt, sm]
       = [\<lparr>StrValue = None, DoubleValue = None, IntValue = Some 3\<rparr>,
          \<lparr>StrValue = None, DoubleValue = Some (Float64frombits 7), IntValue = None\<rparr>]"
      by (simp add: C D badHistPoint_def)
    with out show ?thesis by (simp only:)
  qed
  let ?E = "MetricDataToSignalFxV2 testLib noTranslator mismatchBatch emptyHeap"
  have nt: "metricTranslator noTranslator = None" by (simp add: noTranslator_def)
  have il: "InstrumentationLibraryMetrics mismatchBatch
       = [] @ Some ([] @ Some mismatchMetric # [Some sumMetric]) # []"
    by (simp add: mismatchBatch_def)
  have dm: "Data mismatchMetric = DoubleHistogram AggregationTemporalityDelta ([] @ Some badHistPoint # [])"
    by (simp add: mismatchMetric_def)
  have rest: "map Metric (fst (convertMetrics testLib noTranslator [Some sumMetric] e g))
                = [gostr ''requests_total'']" for e g
    by (simp add: metricToSfxDataPoints_def noTranslator_def sumMetric_def makeBaseDataPoint_def
          Let_def case_prod_beta)
  from C4_histogram_mismatch [OF w, THEN conjunct2, THEN conjunct2, THEN conjunct2, THEN conjunct2,
        THEN conjunct2, rule_format, OF conjI, OF nt conjI, OF il conjI, OF dm conjI, OF ne n,
        of testLib emptyHeap]
  obtain res hEnd extra h1 h2 h3' h4 h5 h6 cnt' sm' where
      R: "?E = Some (res, hEnd)"
    and O: "res = fst (convertLibraries testLib noTranslator [] extra h1)
                  @ fst (convertMetrics testLib noTranslator [] extra h2)
                  @ fst (convertDoubleHistogram testLib [] (makeBaseDataPoint mismatchMetric) extra h3')
                  @ cnt' # sm'
                  # fst (convertDoubleHistogram testLib [] (makeBaseDataPoint mismatchMetric) extra h4)
                  @ fst (convertMetrics testLib noTranslator [Some sumMetric] extra h5)
                  @ fst (convertLibraries testLib noTranslator [] extra h6)"
    and C': "Metric cnt' = Name mismatchMetric @ gostr ''_count''"
    and D': "Metric sm' = Name mismatchMetric"
    by blast
  from R have some: "?E \<noteq> None" by simp
  from O have "map Metric res = Metric cnt' # Metric sm'
                 # map Metric (fst (convertMetrics testLib noTranslator [Some sumMetric] extra h5))"
    by simp
  then have "map Metric res = Metric cnt' # Metric sm' # [gostr ''requests_total'']"
    by (simp only: rest)
  then have "map Metric res = [gostr ''m_count'', gostr ''m'', gostr ''requests_total'']"
    by (simp add: C' D' mismatchMetric_def gostr_def)
  with R have names: "map Metric (fst (the ?E))
       = [gostr ''m_count'', gostr ''m'', gostr ''requests_total'']"
    by simp
  from w ne n m v nt il dm some names show ?thesis by (intro conjI)
qed

end
